(* ===== verification/Prelude.thy ===== *)
theory Prelude
  imports Main "HOL-Library.Word" "HOL-Library.Monad_Syntax"
begin

text \<open>
  The vocabulary every component of the development shares.

  \<^item> Go's fixed-width integers are words (\<open>u8\<close>, \<open>u16\<close>, \<open>u32\<close>); a Go \<open>string\<close> is a
    byte string (\<^typ>\<open>string\<close>); a \<open>[]byte\<close> is a list of \<open>u8\<close>.
  \<^item> A call that returns \<open>(value, error)\<close> is a value of type \<open>'a result\<close>: \<open>Inl\<close> is the
    non-nil error, \<open>Inr\<close> the value. \<open>E.New\<close> and \<open>E.Cause\<close> build errors; the model keeps the
    message parts as a string so that error branches stay distinguishable.
  \<^item> A Go \<open>map[K]bool\<close> that the code only fills with \<open>true\<close> and reads with the zero value
    \<open>false\<close> for an absent key is an association list read by \<open>map_true_get\<close>.
  \<^item> The few functions of Go's standard library that the modelled code calls on strings
    (\<open>strings.ToLower\<close>, \<open>strings.Contains\<close>, \<open>strings.Index\<close>, \<open>strings.Join\<close>,
    \<open>strconv.ParseUint\<close>) are defined here on ASCII byte strings.
\<close>

unbundle bit_operations_syntax

type_synonym u8 = "8 word"
type_synonym u16 = "16 word"
type_synonym u32 = "32 word"
type_synonym u128 = "128 word"
type_synonym bytes = "u8 list"

subsection \<open>Collections of facts\<close>

named_theorems frame_simps \<open>fields of a state that an operation leaves unchanged\<close>
named_theorems word_mask_simps \<open>bit masks of the rule groups\<close>

subsection \<open>Errors\<close>

datatype error =
    ENew string
  | ECause string error
  | EInvalid
  | EPanic string

type_synonym 'a result = "error + 'a"

definition res_bind :: "'a result \<Rightarrow> ('a \<Rightarrow> 'b result) \<Rightarrow> 'b result" where
  "res_bind r f = (case r of Inl e \<Rightarrow> Inl e | Inr a \<Rightarrow> f a)"

definition res_cause :: "string \<Rightarrow> 'a result \<Rightarrow> 'a result" where
  "res_cause msg r = (case r of Inl e \<Rightarrow> Inl (ECause msg e) | Inr a \<Rightarrow> Inr a)"

lemma res_bind_simps [simp]:
  "res_bind (Inl e) f = Inl e"
  "res_bind (Inr a) f = f a"
  by (simp_all add: res_bind_def)

lemma res_bind_Inr_iff: "res_bind r f = Inr b \<longleftrightarrow> (\<exists>a. r = Inr a \<and> f a = Inr b)"
  by (cases r) auto

lemma res_cause_simps [simp]:
  "res_cause msg (Inl e) = Inl (ECause msg e)"
  "res_cause msg (Inr a) = Inr a"
  by (simp_all add: res_cause_def)

lemma res_cause_Inr_iff [simp]: "res_cause msg r = Inr a \<longleftrightarrow> r = Inr a"
  by (cases r) auto

text \<open>A loop that runs a fallible body on every element and stops at the first error.\<close>

fun res_mapM :: "('a \<Rightarrow> 'b result) \<Rightarrow> 'a list \<Rightarrow> 'b list result" where
  "res_mapM f [] = Inr []"
| "res_mapM f (x # xs) = res_bind (f x) (\<lambda>y. res_bind (res_mapM f xs) (\<lambda>ys. Inr (y # ys)))"

lemma res_mapM_cong [fundef_cong]:
  "xs = ys \<Longrightarrow> (\<And>x. x \<in> set ys \<Longrightarrow> f x = g x) \<Longrightarrow> res_mapM f xs = res_mapM g ys"
proof (induction xs arbitrary: ys)
  case Nil
  then show ?case by auto
next
  case (Cons a xs)
  then show ?case by (cases ys) auto
qed

lemma res_mapM_Inr_iff:
  "res_mapM f xs = Inr ys \<longleftrightarrow> list_all2 (\<lambda>x y. f x = Inr y) xs ys"
  by (induction xs arbitrary: ys) (auto simp: res_bind_Inr_iff list_all2_Cons1)

lemma res_mapM_Inr_length: "res_mapM f xs = Inr ys \<Longrightarrow> length ys = length xs"
  by (auto simp: res_mapM_Inr_iff dest: list_all2_lengthD)

subsection \<open>Maps filled with true\<close>

type_synonym 'k map_true = "('k \<times> bool) list"

fun map_true_put :: "'k map_true \<Rightarrow> 'k \<Rightarrow> 'k map_true" where
  "map_true_put [] k = [(k, True)]"
| "map_true_put ((k', b) # m) k = (if k' = k then (k, True) # m else (k', b) # map_true_put m k)"

definition map_true_of :: "'k list \<Rightarrow> 'k map_true" where
  "map_true_of ks = fold (\<lambda>k m. map_true_put m k) ks []"

definition map_true_get :: "'k map_true \<Rightarrow> 'k \<Rightarrow> bool" where
  "map_true_get m k = (case map_of m k of None \<Rightarrow> False | Some b \<Rightarrow> b)"

lemma map_true_get_Nil [simp]: "\<not> map_true_get [] k"
  by (simp add: map_true_get_def)

lemma map_true_get_put [simp]:
  "map_true_get (map_true_put m k) j \<longleftrightarrow> j = k \<or> map_true_get m j"
  by (induction m k rule: map_true_put.induct) (auto simp: map_true_get_def split: option.splits)

lemma map_true_get_fold:
  "map_true_get (fold (\<lambda>k m. map_true_put m k) ks m) j \<longleftrightarrow> j \<in> set ks \<or> map_true_get m j"
  by (induction ks arbitrary: m) auto

lemma map_true_get_of [simp]: "map_true_get (map_true_of ks) k \<longleftrightarrow> k \<in> set ks"
  by (simp add: map_true_of_def map_true_get_fold)

subsection \<open>Strings\<close>

definition char_lower :: "char \<Rightarrow> char" where
  "char_lower c =
     (let n = of_char c :: nat in if 65 \<le> n \<and> n \<le> 90 then char_of (n + 32) else c)"

definition strings_ToLower :: "string \<Rightarrow> string" where
  "strings_ToLower s = map char_lower s"

definition strings_EqualFold :: "string \<Rightarrow> string \<Rightarrow> bool" where
  "strings_EqualFold s t \<longleftrightarrow> strings_ToLower s = strings_ToLower t"

text \<open>\<open>strings.HasPrefix\<close> and \<open>strings.Contains\<close>, by search at every position.\<close>

definition strings_HasPrefix :: "string \<Rightarrow> string \<Rightarrow> bool" where
  "strings_HasPrefix s p \<longleftrightarrow> take (length p) s = p"

fun strings_Contains :: "string \<Rightarrow> string \<Rightarrow> bool" where
  "strings_Contains [] p \<longleftrightarrow> p = []"
| "strings_Contains (c # s) p \<longleftrightarrow> strings_HasPrefix (c # s) p \<or> strings_Contains s p"

text \<open>\<open>strings.Index\<close> for a one-byte needle: \<open>None\<close> stands for \<open>-1\<close>.\<close>

fun strings_IndexByte :: "string \<Rightarrow> char \<Rightarrow> nat option" where
  "strings_IndexByte [] c = None"
| "strings_IndexByte (x # s) c =
     (if x = c then Some 0 else map_option Suc (strings_IndexByte s c))"

fun strings_Join :: "string list \<Rightarrow> string \<Rightarrow> string" where
  "strings_Join [] sep = []"
| "strings_Join [x] sep = x"
| "strings_Join (x # y # xs) sep = x @ sep @ strings_Join (y # xs) sep"

definition is_digit :: "char \<Rightarrow> bool" where
  "is_digit c \<longleftrightarrow> (let n = of_char c :: nat in 48 \<le> n \<and> n \<le> 57)"

definition digit_val :: "char \<Rightarrow> nat" where
  "digit_val c = of_char c - 48"

definition digits_val :: "string \<Rightarrow> nat" where
  "digits_val s = fold (\<lambda>c n. 10 * n + digit_val c) s 0"

text \<open>
  \<open>strconv.ParseUint(s, 10, w)\<close>: the empty string and a non-digit are syntax errors, a value of
  \<open>w\<close> bits or more a range error. (An underscore is accepted for base 0 only.)
\<close>

definition strconv_ParseUint :: "nat \<Rightarrow> string \<Rightarrow> nat result" where
  "strconv_ParseUint w s =
     (if s = [] \<or> \<not> list_all is_digit s then Inl (ENew ''invalid syntax'')
      else if digits_val s < 2 ^ w then Inr (digits_val s)
      else Inl (ENew ''value out of range''))"

text \<open>\<open>strconv.FormatUint(n, 10)\<close>, what \<open>F.ToString\<close> prints for an unsigned integer.\<close>

definition digit_char :: "nat \<Rightarrow> char" where
  "digit_char d = char_of (48 + d)"

fun strconv_FormatUint :: "nat \<Rightarrow> string" where
  "strconv_FormatUint n =
     (if n < 10 then [digit_char n]
      else strconv_FormatUint (n div 10) @ [digit_char (n mod 10)])"

declare strconv_FormatUint.simps [simp del]

lemma of_char_digit_char: "d < 10 \<Longrightarrow> of_char (digit_char d) = 48 + d"
  by (simp add: digit_char_def)

lemma is_digit_digit_char [simp]: "d < 10 \<Longrightarrow> is_digit (digit_char d)"
  by (simp add: is_digit_def of_char_digit_char)

lemma digit_val_digit_char [simp]: "d < 10 \<Longrightarrow> digit_val (digit_char d) = d"
  by (simp add: digit_val_def of_char_digit_char)

lemma digits_val_snoc [simp]: "digits_val (s @ [c]) = 10 * digits_val s + digit_val c"
  by (simp add: digits_val_def)

lemma FormatUint_digits:
  "strconv_FormatUint n \<noteq> [] \<and> list_all is_digit (strconv_FormatUint n)
     \<and> digits_val (strconv_FormatUint n) = n"
proof (induction n rule: strconv_FormatUint.induct)
  case (1 n)
  show ?case
  proof (cases "n < 10")
    case True
    then show ?thesis by (subst (1 2 3) strconv_FormatUint.simps) (simp add: digits_val_def)
  next
    case False
    with "1.IH" show ?thesis by (subst (1 2 3) strconv_FormatUint.simps) simp
  qed
qed

lemma ParseUint_FormatUint: "n < 2 ^ w \<Longrightarrow> strconv_ParseUint w (strconv_FormatUint n) = Inr n"
  using FormatUint_digits [of n] by (simp add: strconv_ParseUint_def)

lemma FormatUint_no_colon: "CHR '':'' \<notin> set (strconv_FormatUint n)"
  using FormatUint_digits [of n] by (auto simp: list_all_iff is_digit_def)

lemma IndexByte_append:
  "c \<notin> set xs \<Longrightarrow> strings_IndexByte (xs @ c # ys) c = Some (length xs)"
  by (induction xs) auto

lemma IndexByte_None_iff: "strings_IndexByte s c = None \<longleftrightarrow> c \<notin> set s"
  by (induction s) auto

lemma IndexByte_Some:
  "strings_IndexByte s c = Some i \<Longrightarrow>
     i < length s \<and> s ! i = c \<and> c \<notin> set (take i s)"
  by (induction s arbitrary: i) (auto split: if_splits)

lemma strings_Contains_iff: "strings_Contains s p \<longleftrightarrow> (\<exists>u v. s = u @ p @ v)"
proof (induction s)
  case Nil
  show ?case by auto
next
  case (Cons c s)
  have "strings_HasPrefix (c # s) p \<longleftrightarrow> (\<exists>v. c # s = p @ v)"
    by (metis append_eq_conv_conj append_take_drop_id strings_HasPrefix_def)
  then show ?case
    using Cons.IH by (auto simp: Cons_eq_append_conv)
qed

end
