(* ===== verification/Netip.thy ===== *)
theory Netip
  imports Prelude
begin

text \<open>
  The part of Go's \<open>net/netip\<close> that the rule engine and the FakeIP store use: addresses with
  their successor (\<open>Addr.Next\<close>), prefixes with membership (\<open>Prefix.Contains\<close>), overlap
  (\<open>Prefix.Overlaps\<close>) and masking. An IPv4 address is a 32-bit word, an IPv6 address a 128-bit
  word with its zone; \<open>AddrInvalid\<close> is the zero \<open>netip.Addr\<close>. A prefix keeps Go's
  \<open>bitsPlusOne\<close> (0 for an invalid prefix).
\<close>

datatype Addr = AddrInvalid | Addr4 u32 | Addr6 u128 string

fun addr_IsValid :: "Addr \<Rightarrow> bool" where
  "addr_IsValid AddrInvalid = False"
| "addr_IsValid _ = True"

fun addr_Is4 :: "Addr \<Rightarrow> bool" where
  "addr_Is4 (Addr4 _) = True"
| "addr_Is4 _ = False"

fun addr_Is6 :: "Addr \<Rightarrow> bool" where
  "addr_Is6 (Addr6 _ _) = True"
| "addr_Is6 _ = False"

fun addr_BitLen :: "Addr \<Rightarrow> nat" where
  "addr_BitLen AddrInvalid = 0"
| "addr_BitLen (Addr4 _) = 32"
| "addr_BitLen (Addr6 _ _) = 128"

text \<open>The address after this one; the zero \<open>Addr\<close> when there is none.\<close>

fun addr_Next :: "Addr \<Rightarrow> Addr" where
  "addr_Next AddrInvalid = AddrInvalid"
| "addr_Next (Addr4 a) = (if a + 1 = 0 then AddrInvalid else Addr4 (a + 1))"
| "addr_Next (Addr6 a z) = (if a + 1 = 0 then AddrInvalid else Addr6 (a + 1) z)"

text \<open>\<open>Addr.Unmap\<close>: an IPv4-mapped IPv6 address as the IPv4 address it maps.\<close>

fun addr_Unmap :: "Addr \<Rightarrow> Addr" where
  "addr_Unmap (Addr6 a z) = (if drop_bit 32 a = 0xffff then Addr4 (ucast a) else Addr6 a z)"
| "addr_Unmap a = a"

datatype Prefix = Prefix (prefix_Addr: Addr) (prefix_bitsPlusOne: nat)

abbreviation prefix_zero :: Prefix where
  "prefix_zero \<equiv> Prefix AddrInvalid 0"

definition prefix_IsValid :: "Prefix \<Rightarrow> bool" where
  "prefix_IsValid p \<longleftrightarrow> 0 < prefix_bitsPlusOne p"

definition prefix_Bits :: "Prefix \<Rightarrow> int" where
  "prefix_Bits p = int (prefix_bitsPlusOne p) - 1"

text \<open>\<open>netip.PrefixFrom\<close>: drops the zone; an out-of-range length makes the prefix invalid.\<close>

fun addr_withoutZone :: "Addr \<Rightarrow> Addr" where
  "addr_withoutZone (Addr6 a _) = Addr6 a []"
| "addr_withoutZone a = a"

definition prefix_From :: "Addr \<Rightarrow> int \<Rightarrow> Prefix" where
  "prefix_From a bits =
     Prefix (addr_withoutZone a)
       (if addr_IsValid a \<and> 0 \<le> bits \<and> bits \<le> int (addr_BitLen a) then nat bits + 1 else 0)"

text \<open>The number of low bits a prefix leaves free.\<close>

definition host_bits :: "Prefix \<Rightarrow> nat" where
  "host_bits p = addr_BitLen (prefix_Addr p) - nat (prefix_Bits p)"

fun prefix_Contains :: "Prefix \<Rightarrow> Addr \<Rightarrow> bool" where
  "prefix_Contains p (Addr4 b) =
     (prefix_IsValid p \<and>
        (case prefix_Addr p of Addr4 a \<Rightarrow> drop_bit (host_bits p) (a XOR b) = 0 | _ \<Rightarrow> False))"
| "prefix_Contains p (Addr6 b z) =
     (prefix_IsValid p \<and> z = [] \<and>
        (case prefix_Addr p of Addr6 a _ \<Rightarrow> drop_bit (host_bits p) (a XOR b) = 0 | _ \<Rightarrow> False))"
| "prefix_Contains p AddrInvalid = False"

text \<open>\<open>Addr.Prefix(b)\<close> of an address: the address with all but its first \<open>b\<close> bits cleared.\<close>

fun addr_mask :: "Addr \<Rightarrow> nat \<Rightarrow> Addr" where
  "addr_mask (Addr4 a) b = Addr4 (push_bit (32 - b) (drop_bit (32 - b) a))"
| "addr_mask (Addr6 a z) b = Addr6 (push_bit (128 - b) (drop_bit (128 - b) a)) []"
| "addr_mask AddrInvalid b = AddrInvalid"

definition prefix_Overlaps :: "Prefix \<Rightarrow> Prefix \<Rightarrow> bool" where
  "prefix_Overlaps p q \<longleftrightarrow>
     (if \<not> prefix_IsValid p \<or> \<not> prefix_IsValid q then False
      else if p = q then True
      else if addr_Is4 (prefix_Addr p) \<noteq> addr_Is4 (prefix_Addr q) then False
      else
        let minBits = min (nat (prefix_Bits p)) (nat (prefix_Bits q)) in
        if minBits = 0 then True
        else addr_mask (prefix_Addr p) minBits = addr_mask (prefix_Addr q) minBits)"

subsection \<open>Membership as an interval\<close>

text \<open>
  A prefix whose address has all host bits clear (a masked prefix) holds exactly the addresses
  from its own up to the one with all host bits set.
\<close>

lemma xor_eq_0_iff_eq: "a XOR b = 0 \<longleftrightarrow> a = b" for a b :: "'a::len word"
proof
  assume "a XOR b = 0"
  then have "(a XOR b) XOR b = b" by simp
  then show "a = b" by (simp add: xor.assoc)
qed simp

lemma drop_bit_xor_0_iff:
  fixes a b :: "'a::len word"
  shows "drop_bit n (a XOR b) = 0 \<longleftrightarrow> drop_bit n a = drop_bit n b"
  by (simp add: drop_bit_xor xor_eq_0_iff_eq)

lemma drop_bit_eq_iff_div:
  fixes a b :: "'a::len word"
  shows "drop_bit n a = drop_bit n b \<longleftrightarrow> unat a div 2 ^ n = unat b div 2 ^ n"
  by (simp only: word_unat_eq_iff unat_drop_bit_eq) (simp add: drop_bit_eq_div)

lemma div_pow_eq_iff_interval:
  fixes a b :: nat
  assumes "2 ^ n dvd a"
  shows "a div 2 ^ n = b div 2 ^ n \<longleftrightarrow> a \<le> b \<and> b < a + 2 ^ n"
proof -
  obtain k where a: "a = 2 ^ n * k" using assms by auto
  have "b div 2 ^ n = k \<longleftrightarrow> k * 2 ^ n \<le> b \<and> b < Suc k * 2 ^ n"
  proof
    assume "b div 2 ^ n = k"
    moreover have "b div 2 ^ n * 2 ^ n \<le> b" by simp
    moreover have "b < Suc (b div 2 ^ n) * 2 ^ n"
      using dividend_less_div_times [of "2 ^ n" b] by simp
    ultimately show "k * 2 ^ n \<le> b \<and> b < Suc k * 2 ^ n" by simp
  next
    assume "k * 2 ^ n \<le> b \<and> b < Suc k * 2 ^ n"
    then show "b div 2 ^ n = k" by (intro div_nat_eqI) (auto simp: mult.commute)
  qed
  then show ?thesis using a by (auto simp: mult.commute)
qed

lemma prefix_Contains_refl4:
  assumes "prefix_IsValid p" "prefix_Addr p = Addr4 a"
  shows "prefix_Contains p (Addr4 a)"
  using assms by simp

end
