(* ===== verification/Metadata.thy ===== *)
theory Metadata
  imports Netip
begin

text \<open>
  The connection metadata that flows through the router (\<open>adapter.InboundContext\<close>), with the
  types of its fields: socket addresses, the owner process, DNS messages. The fields
  \<open>IPCIDRMatchSource\<close> to \<open>IgnoreDestinationIPCIDRMatch\<close> are the rule engine's scratch space:
  \<open>ResetRuleCache\<close> and \<open>ResetRuleMatchCache\<close> clear them between rules.

  DNS messages are values of the \<open>miekg/dns\<close> library; the model keeps the parts that rule
  matching reads (the response code and the three record sections, a record as its owner name,
  its type code and its data).
\<close>

record Socksaddr =
  sock_Addr :: Addr
  sock_Port :: u16
  sock_Fqdn :: string

abbreviation socksaddr_zero :: Socksaddr where
  "socksaddr_zero \<equiv> \<lparr>sock_Addr = AddrInvalid, sock_Port = 0, sock_Fqdn = []\<rparr>"

record ConnectionOwner =
  ProcessID :: u32
  UserId :: int
  UserName :: string
  ProcessPath :: string
  AndroidPackageNames :: "string list"

datatype svcb_value = SVCBIPv4Hint "bytes list" | SVCBIPv6Hint "bytes list" | SVCBOther u16 bytes

datatype rdata = RData_A bytes | RData_AAAA bytes | RData_HTTPS "svcb_value list" | RData_Other u16 bytes

datatype RR = RR (rr_Name: string) (rr_Data: rdata)

record dnsMsg =
  Rcode :: int
  Answer :: "RR list"
  Ns :: "RR list"
  Extra :: "RR list"

definition RcodeSuccess :: int where
  "RcodeSuccess = 0"

text \<open>\<open>C.InterfaceType\<close>, \<open>C.NetworkStrategy\<close> and \<open>tlsspoof.Method\<close> are integer enumerations.\<close>

type_synonym InterfaceType = u8
type_synonym NetworkStrategy = u8
type_synonym TLSSpoofMethod = int
type_synonym duration = int

record InboundContext =
  Inbound :: string
  InboundType :: string
  IPVersion :: u8
  Network :: string
  Source :: Socksaddr
  Destination :: Socksaddr
  User :: string
  Outbound :: string
  RouteRule :: string
  RouteOutbound :: string
  Protocol :: string
  Domain' :: string
  Client :: string
  SnifferNames :: "string list"
  SniffError :: "error option"
  InboundDetour :: string
  LastInbound :: string
  OriginDestination :: Socksaddr
  RouteOriginalDestination :: Socksaddr
  UDPDisableDomainUnmapping :: bool
  UDPConnect :: bool
  UDPTimeout :: duration
  TLSFragment :: bool
  TLSFragmentFallbackDelay :: duration
  TLSRecordFragment :: bool
  TLSSpoof :: string
  TLSSpoofMethod' :: TLSSpoofMethod
  NetworkStrategy' :: "NetworkStrategy option"
  NetworkType :: "InterfaceType list"
  FallbackNetworkType :: "InterfaceType list"
  FallbackDelay :: duration
  DestinationAddresses :: "Addr list"
  DNSResponse :: "dnsMsg option"
  NamedDNSResponses :: "(string \<times> dnsMsg) list"
  DestinationAddressMatchFromResponse :: bool
  ProcessInfo :: "ConnectionOwner option"
  SourceMACAddress :: "bytes option"
  SourceHostname :: string
  QueryType :: u16
  QueryClientSubnet :: Prefix
  QueryDNSSEC :: bool
  FakeIP :: bool
  PreMatch :: bool
  IPCIDRMatchSource :: bool
  IPCIDRAcceptEmpty :: bool
  SourceAddressMatch :: bool
  SourcePortMatch :: bool
  DestinationAddressMatch :: bool
  DestinationPortMatch :: bool
  DeferredIPCIDRMatchGroups :: u8
  IgnoreDestinationIPCIDRMatch :: bool

text \<open>The zero value \<open>adapter.InboundContext{}\<close>.\<close>

definition zero_context :: InboundContext where
  "zero_context =
     \<lparr>Inbound = [], InboundType = [], IPVersion = 0, Network = [], Source = socksaddr_zero,
      Destination = socksaddr_zero, User = [], Outbound = [], RouteRule = [], RouteOutbound = [],
      Protocol = [], Domain' = [], Client = [], SnifferNames = [], SniffError = None,
      InboundDetour = [], LastInbound = [], OriginDestination = socksaddr_zero,
      RouteOriginalDestination = socksaddr_zero, UDPDisableDomainUnmapping = False,
      UDPConnect = False, UDPTimeout = 0, TLSFragment = False, TLSFragmentFallbackDelay = 0,
      TLSRecordFragment = False, TLSSpoof = [], TLSSpoofMethod' = 0, NetworkStrategy' = None,
      NetworkType = [], FallbackNetworkType = [], FallbackDelay = 0, DestinationAddresses = [],
      DNSResponse = None, NamedDNSResponses = [], DestinationAddressMatchFromResponse = False,
      ProcessInfo = None, SourceMACAddress = None, SourceHostname = [], QueryType = 0,
      QueryClientSubnet = prefix_zero, QueryDNSSEC = False, FakeIP = False, PreMatch = False,
      IPCIDRMatchSource = False, IPCIDRAcceptEmpty = False, SourceAddressMatch = False,
      SourcePortMatch = False, DestinationAddressMatch = False, DestinationPortMatch = False,
      DeferredIPCIDRMatchGroups = 0, IgnoreDestinationIPCIDRMatch = False\<rparr>"

definition ResetRuleMatchCache :: "InboundContext \<Rightarrow> InboundContext" where
  "ResetRuleMatchCache c =
     c\<lparr>SourceAddressMatch := False, SourcePortMatch := False,
       DestinationAddressMatch := False, DestinationPortMatch := False,
       DeferredIPCIDRMatchGroups := 0\<rparr>"

definition ResetRuleCache :: "InboundContext \<Rightarrow> InboundContext" where
  "ResetRuleCache c = ResetRuleMatchCache (c\<lparr>IPCIDRMatchSource := False, IPCIDRAcceptEmpty := False\<rparr>)"

text \<open>
  The addresses a DNS response offers to address matching. \<open>AddrFromIP\<close> is
  \<open>M.AddrFromIP\<close> of the \<open>sing\<close> library, which turns a \<open>net.IP\<close> into an address.
\<close>

fun svcb_addresses :: "(bytes \<Rightarrow> Addr) \<Rightarrow> svcb_value \<Rightarrow> Addr list" where
  "svcb_addresses AddrFromIP (SVCBIPv4Hint ips) =
     filter addr_IsValid (map (\<lambda>ip. addr_Unmap (AddrFromIP ip)) ips)"
| "svcb_addresses AddrFromIP (SVCBIPv6Hint ips) = filter addr_IsValid (map AddrFromIP ips)"
| "svcb_addresses AddrFromIP (SVCBOther _ _) = []"

fun rr_addresses :: "(bytes \<Rightarrow> Addr) \<Rightarrow> RR \<Rightarrow> Addr list" where
  "rr_addresses AddrFromIP (RR _ (RData_A ip)) = filter addr_IsValid [AddrFromIP ip]"
| "rr_addresses AddrFromIP (RR _ (RData_AAAA ip)) = filter addr_IsValid [AddrFromIP ip]"
| "rr_addresses AddrFromIP (RR _ (RData_HTTPS vs)) = concat (map (svcb_addresses AddrFromIP) vs)"
| "rr_addresses AddrFromIP (RR _ (RData_Other _ _)) = []"

definition DNSResponseAddresses :: "(bytes \<Rightarrow> Addr) \<Rightarrow> dnsMsg option \<Rightarrow> Addr list" where
  "DNSResponseAddresses AddrFromIP response =
     (case response of
        None \<Rightarrow> []
      | Some msg \<Rightarrow>
          if Rcode msg \<noteq> RcodeSuccess then []
          else concat (map (rr_addresses AddrFromIP) (Answer msg)))"

definition DNSResponseAddressesForMatch :: "(bytes \<Rightarrow> Addr) \<Rightarrow> InboundContext \<Rightarrow> Addr list" where
  "DNSResponseAddressesForMatch AddrFromIP c = DNSResponseAddresses AddrFromIP (DNSResponse c)"

lemma svcb_addresses_valid: "a \<in> set (svcb_addresses f v) \<Longrightarrow> addr_IsValid a"
  by (cases v) auto

lemma rr_addresses_valid: "a \<in> set (rr_addresses f r) \<Longrightarrow> addr_IsValid a"
  by (cases "(f, r)" rule: rr_addresses.cases) (auto dest: svcb_addresses_valid split: if_splits)

lemma DNSResponseAddresses_valid:
  "a \<in> set (DNSResponseAddresses f resp) \<Longrightarrow> addr_IsValid a"
  by (auto simp: DNSResponseAddresses_def dest: rr_addresses_valid split: option.splits if_splits)

end
