(* ===== verification/RuleItems.thy ===== *)
theory RuleItems
  imports Metadata
begin

text \<open>
  The condition items of route, DNS and headless rules (\<open>route/rule/rule_item_*.go\<close> and the three
  interface-address items): one constructor of \<open>RuleItem\<close> per Go struct, with the struct's fields;
  one \<open>New\<close> definition per constructor function, one \<open>_Match\<close> definition per \<open>Match\<close> method and one
  \<open>_String\<close> definition per \<open>String\<close> method. \<open>item_Match\<close> and \<open>item_String\<close> are the dynamic
  dispatch of the \<open>RuleItem\<close> interface.

  What the items call outside the repository is the record \<open>rule_env\<close>: functions of the \<open>sing\<close>,
  \<open>sing-tun\<close>, \<open>netipx\<close> and \<open>miekg/dns\<close> libraries, the regular-expression compiler, the address
  parsers, and the state of the network manager and the Clash mode manager at the time of the match.
  A compiled matcher (domain matcher, AdGuard matcher, regular expression, IP set) is the predicate
  its match method computes.
\<close>

type_synonym matcher = "string \<Rightarrow> bool"
type_synonym ipset = "Addr \<Rightarrow> bool"

record Interface =
  if_Name :: string
  if_Addresses :: "Prefix list"

record NetworkInterface = Interface +
  ni_Type :: InterfaceType
  ni_Expensive :: bool
  ni_Constrained :: bool

record InterfaceMonitor =
  mon_DefaultInterface :: "Interface option"
  mon_MyInterfaces :: "string list"

record rule_env =
  env_AddrFromIP :: "bytes \<Rightarrow> Addr"
  env_IsIP :: "Socksaddr \<Rightarrow> bool"
  env_IsIPv6 :: "Socksaddr \<Rightarrow> bool"
  env_IsPublicAddr :: "Addr \<Rightarrow> bool"
  env_CanonicalName :: "string \<Rightarrow> string"
  env_IsDuplicate :: "RR \<Rightarrow> RR \<Rightarrow> bool"
  env_NewMatcher :: "string list \<Rightarrow> string list \<Rightarrow> matcher"
  env_NewAdGuardMatcher :: "string list \<Rightarrow> matcher"
  env_regexp_Compile :: "string \<Rightarrow> matcher result"
  env_ParsePrefix :: "string \<Rightarrow> Prefix result"
  env_ParseAddr :: "string \<Rightarrow> Addr result"
  env_IPSet :: "(Prefix + Addr) list \<Rightarrow> ipset result"
  env_ParseMAC :: "string \<Rightarrow> bytes option"
  env_PrefixString :: "Prefix \<Rightarrow> string"
  env_RRString :: "RR \<Rightarrow> string"
  env_RcodeToString :: "int \<Rightarrow> string"
  env_TypeToString :: "u16 \<Rightarrow> string option"
  env_IsAndroid :: bool
  env_WIFIState_SSID :: string
  env_WIFIState_BSSID :: string
  env_DefaultNetworkInterface :: "NetworkInterface option"
  env_NetworkInterfaces :: "NetworkInterface list"
  env_Interfaces :: "Interface list"
  env_InterfaceMonitor :: "InterfaceMonitor option"
  env_ClashMode :: string

text \<open>
  The interface \<open>adapter.OutboundWithPreferredRoutes\<close>. Its methods get the metadata; of the five
  implementations only the bridge outbound reads it, and only the field \<open>PreMatch\<close>.
\<close>

datatype PreferredRoutes =
  PreferredRoutes (PreferredDomain: "string \<Rightarrow> bool") (PreferredAddress: "bool \<Rightarrow> Addr \<Rightarrow> bool")

datatype record_section = AnswerSection | NsSection | ExtraSection

datatype (plugins only: size) RuleItem =
    InboundItem "string list" "string map_true"
  | IPVersionItem bool
  | NetworkItem "string list" "string map_true"
  | AuthUserItem "string list" "string map_true"
  | ProtocolItem "string list" "string map_true"
  | ClientItem "string list" "string map_true"
  | DomainItem matcher string
  | DomainKeywordItem "string list"
  | DomainRegexItem "matcher list" string
  | IPCIDRItem ipset bool string
  | IPIsPrivateItem bool
  | IPAcceptAnyItem
  | PortItem "u16 list" "u16 map_true" bool
  | PortRangeItem bool "string list" "(u16 \<times> u16) list"
  | ProcessItem "string list" "string map_true"
  | ProcessPathItem "string list" "string map_true"
  | ProcessPathRegexItem "matcher list" string
  | PackageNameItem "string list" "string map_true"
  | PackageNameRegexItem "matcher list" string
  | UserItem "string list" "string map_true"
  | UserIdItem "int list" "int map_true"
  | OutboundItem "string list" "string map_true" bool
  | ClashModeItem bool string
  | NetworkTypeItem "InterfaceType list"
  | NetworkIsExpensiveItem
  | NetworkIsConstrainedItem
  | WIFISSIDItem "string list" "string map_true"
  | WIFIBSSIDItem "string list" "string map_true"
  | InterfaceAddressItem "(string \<times> Prefix list) list" string
  | NetworkInterfaceAddressItem "(InterfaceType \<times> Prefix list) list" string
  | DefaultInterfaceAddressItem bool "Prefix list"
  | SourceMACAddressItem "string list" "string map_true"
  | SourceHostnameItem "string list" "string map_true"
  | PreferredByItem "string list" "PreferredRoutes list"
  | PreferredByDNSItem "string list" "matcher list"
  | QueryTypeItem "u16 list" "u16 map_true"
  | QueryClientSubnetItem "Prefix list"
  | QueryDNSSECItem
  | DNSResponseRCodeItem int
  | DNSResponseRecordItem string "RR option list" record_section
  | AdGuardDomainItem matcher

end
