(* ===== verification/RuleItemOps.thy ===== *)
theory RuleItemOps
  imports RuleItems
begin

text \<open>
  The operations of the rule items: constructor functions, \<open>Match\<close> methods and \<open>String\<close> methods,
  file by file, and their dispatch (\<open>item_Match\<close>, \<open>item_String\<close>). The lemmas state what each
  constructor and its \<open>Match\<close> amount to. The locale \<open>membership_item\<close> is the contract that the
  list-valued items share (an item built from a list matches exactly when a field of the metadata is
  in the list); every such item is an interpretation of it.
\<close>

subsection \<open>Items that look a metadata field up in a list\<close>

text \<open>\<open>describe_list\<close> is the common shape of the \<open>String\<close> methods: one value bare, several bracketed.\<close>

definition describe_list :: "string \<Rightarrow> string list \<Rightarrow> string" where
  "describe_list key xs =
     (if length xs = 1 then key @ hd xs else key @ ''['' @ strings_Join xs '' '' @ '']'')"

definition describe_list3 :: "string \<Rightarrow> string list \<Rightarrow> string" where
  "describe_list3 key xs =
     (if length xs = 1 then key @ hd xs
      else if length xs > 3 then key @ ''['' @ strings_Join (take 3 xs) '' '' @ ''...]''
      else key @ ''['' @ strings_Join xs '' '' @ '']'')"

definition NewInboundRule :: "string list \<Rightarrow> RuleItem" where
  "NewInboundRule inbounds = InboundItem inbounds (map_true_of inbounds)"

definition InboundItem_Match :: "string map_true \<Rightarrow> InboundContext \<Rightarrow> bool" where
  "InboundItem_Match inboundMap metadata = map_true_get inboundMap (Inbound metadata)"

definition InboundItem_String :: "string list \<Rightarrow> string" where
  "InboundItem_String inbounds = describe_list ''inbound='' inbounds"

definition NewNetworkItem :: "string list \<Rightarrow> RuleItem" where
  "NewNetworkItem networks = NetworkItem networks (map_true_of networks)"

definition NetworkItem_Match :: "string map_true \<Rightarrow> InboundContext \<Rightarrow> bool" where
  "NetworkItem_Match networkMap metadata = map_true_get networkMap (Network metadata)"

definition NetworkItem_String :: "string list \<Rightarrow> string" where
  "NetworkItem_String networks = describe_list ''network='' networks"

definition NewAuthUserItem :: "string list \<Rightarrow> RuleItem" where
  "NewAuthUserItem users = AuthUserItem users (map_true_of users)"

definition AuthUserItem_Match :: "string map_true \<Rightarrow> InboundContext \<Rightarrow> bool" where
  "AuthUserItem_Match userMap metadata = map_true_get userMap (User metadata)"

definition AuthUserItem_String :: "string list \<Rightarrow> string" where
  "AuthUserItem_String users = describe_list ''auth_user='' users"

definition NewProtocolItem :: "string list \<Rightarrow> RuleItem" where
  "NewProtocolItem protocols = ProtocolItem protocols (map_true_of protocols)"

definition ProtocolItem_Match :: "string map_true \<Rightarrow> InboundContext \<Rightarrow> bool" where
  "ProtocolItem_Match protocolMap metadata = map_true_get protocolMap (Protocol metadata)"

definition ProtocolItem_String :: "string list \<Rightarrow> string" where
  "ProtocolItem_String protocols = describe_list ''protocol='' protocols"

definition NewClientItem :: "string list \<Rightarrow> RuleItem" where
  "NewClientItem clients = ClientItem clients (map_true_of clients)"

definition ClientItem_Match :: "string map_true \<Rightarrow> InboundContext \<Rightarrow> bool" where
  "ClientItem_Match clientMap metadata = map_true_get clientMap (Client metadata)"

definition ClientItem_String :: "string list \<Rightarrow> string" where
  "ClientItem_String clients = describe_list ''client='' clients"

definition NewSourceHostnameItem :: "string list \<Rightarrow> RuleItem" where
  "NewSourceHostnameItem hostnameList = SourceHostnameItem hostnameList (map_true_of hostnameList)"

definition SourceHostnameItem_Match :: "string map_true \<Rightarrow> InboundContext \<Rightarrow> bool" where
  "SourceHostnameItem_Match hostnameMap metadata =
     (if SourceHostname metadata = [] then False
      else map_true_get hostnameMap (SourceHostname metadata))"

definition SourceHostnameItem_String :: "string list \<Rightarrow> string" where
  "SourceHostnameItem_String hostnames = describe_list ''source_hostname='' hostnames"

definition NewPortItem :: "bool \<Rightarrow> u16 list \<Rightarrow> RuleItem" where
  "NewPortItem isSource ports = PortItem ports (map_true_of ports) isSource"

definition PortItem_Match :: "u16 map_true \<Rightarrow> bool \<Rightarrow> InboundContext \<Rightarrow> bool" where
  "PortItem_Match portMap isSource metadata =
     (if isSource then map_true_get portMap (sock_Port (Source metadata))
      else map_true_get portMap (sock_Port (Destination metadata)))"

definition PortItem_String :: "u16 list \<Rightarrow> bool \<Rightarrow> string" where
  "PortItem_String ports isSource =
     describe_list (if isSource then ''source_port='' else ''port='')
       (map (\<lambda>p. strconv_FormatUint (unat p)) ports)"

definition NewQueryTypeItem :: "u16 list \<Rightarrow> RuleItem" where
  "NewQueryTypeItem typeList = QueryTypeItem typeList (map_true_of typeList)"

definition QueryTypeItem_Match :: "u16 map_true \<Rightarrow> InboundContext \<Rightarrow> bool" where
  "QueryTypeItem_Match typeMap metadata =
     (if QueryType metadata = 0 then False else map_true_get typeMap (QueryType metadata))"

definition DNSQueryTypeToString :: "rule_env \<Rightarrow> u16 \<Rightarrow> string" where
  "DNSQueryTypeToString env queryType =
     (case env_TypeToString env queryType of
        Some typeName \<Rightarrow> typeName
      | None \<Rightarrow> strconv_FormatUint (unat queryType))"

definition QueryTypeItem_String :: "rule_env \<Rightarrow> u16 list \<Rightarrow> string" where
  "QueryTypeItem_String env typeList =
     describe_list ''query_type='' (map (DNSQueryTypeToString env) typeList)"

definition NewUserIDItem :: "int list \<Rightarrow> RuleItem" where
  "NewUserIDItem userIdList = UserIdItem userIdList (map_true_of userIdList)"

definition UserIdItem_Match :: "int map_true \<Rightarrow> InboundContext \<Rightarrow> bool" where
  "UserIdItem_Match userIdMap metadata =
     (case ProcessInfo metadata of
        None \<Rightarrow> False
      | Some info \<Rightarrow> if UserId info = -1 then False else map_true_get userIdMap (UserId info))"

definition FormatInt :: "int \<Rightarrow> string" where
  "FormatInt i = (if i < 0 then ''-'' @ strconv_FormatUint (nat (- i)) else strconv_FormatUint (nat i))"

definition UserIdItem_String :: "int list \<Rightarrow> string" where
  "UserIdItem_String userIds = describe_list ''user_id='' (map FormatInt userIds)"

definition NewUserItem :: "string list \<Rightarrow> RuleItem" where
  "NewUserItem users = UserItem users (map_true_of users)"

definition UserItem_Match :: "string map_true \<Rightarrow> InboundContext \<Rightarrow> bool" where
  "UserItem_Match userMap metadata =
     (case ProcessInfo metadata of
        None \<Rightarrow> False
      | Some info \<Rightarrow> if UserName info = [] then False else map_true_get userMap (UserName info))"

definition UserItem_String :: "string list \<Rightarrow> string" where
  "UserItem_String users = describe_list ''user='' users"

text \<open>\<open>filepath.Base\<close> with the Unix separator.\<close>

definition filepath_Base :: "string \<Rightarrow> string" where
  "filepath_Base path =
     (if path = [] then ''.''
      else
        let trimmed = rev (dropWhile (\<lambda>c. c = CHR ''/'') (rev path));
            base = rev (takeWhile (\<lambda>c. c \<noteq> CHR ''/'') (rev trimmed))
        in if base = [] then ''/'' else base)"

definition NewProcessItem :: "string list \<Rightarrow> RuleItem" where
  "NewProcessItem processNameList = ProcessItem processNameList (map_true_of processNameList)"

definition ProcessItem_Match :: "string map_true \<Rightarrow> InboundContext \<Rightarrow> bool" where
  "ProcessItem_Match processMap metadata =
     (case ProcessInfo metadata of
        None \<Rightarrow> False
      | Some info \<Rightarrow>
          if ProcessPath info = [] then False
          else map_true_get processMap (filepath_Base (ProcessPath info)))"

definition ProcessItem_String :: "string list \<Rightarrow> string" where
  "ProcessItem_String processes = describe_list ''process_name='' processes"

definition NewProcessPathItem :: "string list \<Rightarrow> RuleItem" where
  "NewProcessPathItem processNameList = ProcessPathItem processNameList (map_true_of processNameList)"

definition ProcessPathItem_Match :: "rule_env \<Rightarrow> string map_true \<Rightarrow> InboundContext \<Rightarrow> bool" where
  "ProcessPathItem_Match env processMap metadata =
     (case ProcessInfo metadata of
        None \<Rightarrow> False
      | Some info \<Rightarrow>
          if ProcessPath info \<noteq> [] \<and> map_true_get processMap (ProcessPath info) then True
          else env_IsAndroid env \<and> list_ex (map_true_get processMap) (AndroidPackageNames info))"

definition ProcessPathItem_String :: "string list \<Rightarrow> string" where
  "ProcessPathItem_String processes = describe_list ''process_path='' processes"

definition NewPackageNameItem :: "string list \<Rightarrow> RuleItem" where
  "NewPackageNameItem packageNameList = PackageNameItem packageNameList (map_true_of packageNameList)"

definition PackageNameItem_Match :: "string map_true \<Rightarrow> InboundContext \<Rightarrow> bool" where
  "PackageNameItem_Match packageMap metadata =
     (case ProcessInfo metadata of
        None \<Rightarrow> False
      | Some info \<Rightarrow>
          if AndroidPackageNames info = [] then False
          else list_ex (map_true_get packageMap) (AndroidPackageNames info))"

definition PackageNameItem_String :: "string list \<Rightarrow> string" where
  "PackageNameItem_String packageNames = describe_list ''package_name='' packageNames"

text \<open>\<open>HardwareAddr.String\<close>: lower-case hexadecimal octets separated by colons.\<close>

definition hex_char :: "nat \<Rightarrow> char" where
  "hex_char d = char_of (if d < 10 then 48 + d else 87 + d)"

definition hex_octet :: "u8 \<Rightarrow> string" where
  "hex_octet b = [hex_char (unat b div 16), hex_char (unat b mod 16)]"

definition HardwareAddr_String :: "bytes \<Rightarrow> string" where
  "HardwareAddr_String mac = strings_Join (map hex_octet mac) '':''"

definition NewSourceMACAddressItem :: "rule_env \<Rightarrow> string list \<Rightarrow> RuleItem" where
  "NewSourceMACAddressItem env addressList =
     SourceMACAddressItem addressList
       (map_true_of (map (\<lambda>address.
          case env_ParseMAC env address of
            Some parsed \<Rightarrow> HardwareAddr_String parsed
          | None \<Rightarrow> address) addressList))"

definition SourceMACAddressItem_Match :: "string map_true \<Rightarrow> InboundContext \<Rightarrow> bool" where
  "SourceMACAddressItem_Match addressMap metadata =
     (case SourceMACAddress metadata of
        None \<Rightarrow> False
      | Some mac \<Rightarrow> map_true_get addressMap (HardwareAddr_String mac))"

definition SourceMACAddressItem_String :: "string list \<Rightarrow> string" where
  "SourceMACAddressItem_String addresses = describe_list ''source_mac_address='' addresses"

fun outbound_rule_loop :: "string list \<Rightarrow> string map_true \<Rightarrow> bool \<Rightarrow> string map_true \<times> bool" where
  "outbound_rule_loop [] m matchAny = (m, matchAny)"
| "outbound_rule_loop (outbound # outbounds) m matchAny =
     (if outbound = ''any'' then outbound_rule_loop outbounds m True
      else outbound_rule_loop outbounds (map_true_put m outbound) matchAny)"

definition NewOutboundRule :: "string list \<Rightarrow> RuleItem" where
  "NewOutboundRule outbounds =
     (let (m, matchAny) = outbound_rule_loop outbounds [] False
      in OutboundItem outbounds m matchAny)"

definition OutboundItem_Match :: "string map_true \<Rightarrow> bool \<Rightarrow> InboundContext \<Rightarrow> bool" where
  "OutboundItem_Match outboundMap matchAny metadata =
     (if matchAny then Outbound metadata \<noteq> [] else map_true_get outboundMap (Outbound metadata))"

definition OutboundItem_String :: "string list \<Rightarrow> string" where
  "OutboundItem_String outbounds = describe_list ''outbound='' outbounds"

subsection \<open>Domain items\<close>

text \<open>The host name that domain items look at: the sniffed domain, or else the destination's.\<close>

definition domain_host :: "InboundContext \<Rightarrow> string" where
  "domain_host metadata =
     (if Domain' metadata \<noteq> [] then Domain' metadata else sock_Fqdn (Destination metadata))"

definition NewDomainItem :: "rule_env \<Rightarrow> string list \<Rightarrow> string list \<Rightarrow> RuleItem result" where
  "NewDomainItem env domains domainSuffixes =
     (if List.member domains [] then Inl (ENew ''domain: empty item is not allowed'')
      else if List.member domainSuffixes [] then Inl (ENew ''domain_suffix: empty item is not allowed'')
      else
        let d1 = (if domains \<noteq> [] then describe_list3 ''domain='' domains else []);
            d2 = (if domainSuffixes \<noteq> []
                  then (if d1 \<noteq> [] then d1 @ '' '' else d1) @ describe_list3 ''domain_suffix='' domainSuffixes
                  else d1)
        in Inr (DomainItem (env_NewMatcher env domains domainSuffixes) d2))"

definition NewRawDomainItem :: "matcher \<Rightarrow> RuleItem" where
  "NewRawDomainItem m = DomainItem m ''domain/domain_suffix=<binary>''"

definition DomainItem_Match :: "matcher \<Rightarrow> InboundContext \<Rightarrow> bool" where
  "DomainItem_Match m metadata =
     (if domain_host metadata = [] then False else m (strings_ToLower (domain_host metadata)))"

definition NewDomainKeywordItem :: "string list \<Rightarrow> RuleItem" where
  "NewDomainKeywordItem keywords = DomainKeywordItem keywords"

definition DomainKeywordItem_Match :: "string list \<Rightarrow> InboundContext \<Rightarrow> bool" where
  "DomainKeywordItem_Match keywords metadata =
     (if domain_host metadata = [] then False
      else list_ex (strings_Contains (strings_ToLower (domain_host metadata))) keywords)"

definition DomainKeywordItem_String :: "string list \<Rightarrow> string" where
  "DomainKeywordItem_String keywords = describe_list3 ''domain_keyword='' keywords"

text \<open>
  The three regular-expression items compile their expressions in order and report the first
  that fails; their description elides after three expressions without an ellipsis.
\<close>

definition describe_regex :: "string \<Rightarrow> string list \<Rightarrow> string" where
  "describe_regex key expressions =
     (if length expressions = 1 then key @ hd expressions
      else if length expressions > 3 then key @ ''['' @ strings_Join (take 3 expressions) '' '' @ '']''
      else key @ ''['' @ strings_Join expressions '' '' @ '']'')"

definition compile_all :: "rule_env \<Rightarrow> string list \<Rightarrow> matcher list result" where
  "compile_all env expressions =
     res_mapM (\<lambda>regex. res_cause ''parse expression'' (env_regexp_Compile env regex)) expressions"

definition NewDomainRegexItem :: "rule_env \<Rightarrow> string list \<Rightarrow> RuleItem result" where
  "NewDomainRegexItem env expressions =
     res_bind (compile_all env expressions)
       (\<lambda>matchers. Inr (DomainRegexItem matchers (describe_regex ''domain_regex='' expressions)))"

definition DomainRegexItem_Match :: "matcher list \<Rightarrow> InboundContext \<Rightarrow> bool" where
  "DomainRegexItem_Match matchers metadata =
     (if domain_host metadata = [] then False
      else list_ex (\<lambda>matcher. matcher (strings_ToLower (domain_host metadata))) matchers)"

definition NewProcessPathRegexItem :: "rule_env \<Rightarrow> string list \<Rightarrow> RuleItem result" where
  "NewProcessPathRegexItem env expressions =
     res_bind (compile_all env expressions)
       (\<lambda>matchers. Inr (ProcessPathRegexItem matchers (describe_regex ''process_path_regex='' expressions)))"

definition ProcessPathRegexItem_Match :: "matcher list \<Rightarrow> InboundContext \<Rightarrow> bool" where
  "ProcessPathRegexItem_Match matchers metadata =
     (case ProcessInfo metadata of
        None \<Rightarrow> False
      | Some info \<Rightarrow>
          if ProcessPath info = [] then False
          else list_ex (\<lambda>matcher. matcher (ProcessPath info)) matchers)"

definition NewPackageNameRegexItem :: "rule_env \<Rightarrow> string list \<Rightarrow> RuleItem result" where
  "NewPackageNameRegexItem env expressions =
     res_bind (compile_all env expressions)
       (\<lambda>matchers. Inr (PackageNameRegexItem matchers (describe_regex ''package_name_regex='' expressions)))"

definition PackageNameRegexItem_Match :: "matcher list \<Rightarrow> InboundContext \<Rightarrow> bool" where
  "PackageNameRegexItem_Match matchers metadata =
     (case ProcessInfo metadata of
        None \<Rightarrow> False
      | Some info \<Rightarrow>
          if AndroidPackageNames info = [] then False
          else list_ex (\<lambda>matcher. list_ex matcher (AndroidPackageNames info)) matchers)"

definition NewAdGuardDomainItem :: "rule_env \<Rightarrow> string list \<Rightarrow> RuleItem" where
  "NewAdGuardDomainItem env ruleLines = AdGuardDomainItem (env_NewAdGuardMatcher env ruleLines)"

definition NewRawAdGuardDomainItem :: "matcher \<Rightarrow> RuleItem" where
  "NewRawAdGuardDomainItem m = AdGuardDomainItem m"

definition AdGuardDomainItem_Match :: "matcher \<Rightarrow> InboundContext \<Rightarrow> bool" where
  "AdGuardDomainItem_Match m metadata =
     (if domain_host metadata = [] then False else m (strings_ToLower (domain_host metadata)))"

definition AdGuardDomainItem_String :: string where
  "AdGuardDomainItem_String = ''!adguard_domain_rules=<binary>''"

subsection \<open>Address items\<close>

definition parse_cidr :: "rule_env \<Rightarrow> string \<Rightarrow> (Prefix + Addr) result" where
  "parse_cidr env s =
     (case env_ParsePrefix env s of
        Inr prefix \<Rightarrow> Inr (Inl prefix)
      | Inl err \<Rightarrow>
          (case env_ParseAddr env s of
             Inr addr \<Rightarrow> Inr (Inr addr)
           | Inl _ \<Rightarrow> Inl (ECause ''parse'' err)))"

definition cidr_key :: "bool \<Rightarrow> string" where
  "cidr_key isSource = (if isSource then ''source_ip_cidr='' else ''ip_cidr='')"

definition NewIPCIDRItem :: "rule_env \<Rightarrow> bool \<Rightarrow> string list \<Rightarrow> RuleItem result" where
  "NewIPCIDRItem env isSource prefixStrings =
     res_bind (res_mapM (parse_cidr env) prefixStrings) (\<lambda>parts.
     res_bind (env_IPSet env parts) (\<lambda>ipSet.
       Inr (IPCIDRItem ipSet isSource (describe_list3 (cidr_key isSource) prefixStrings))))"

definition NewRawIPCIDRItem :: "bool \<Rightarrow> ipset \<Rightarrow> RuleItem" where
  "NewRawIPCIDRItem isSource ipSet = IPCIDRItem ipSet isSource (cidr_key isSource @ ''<binary>'')"

definition IPCIDRItem_Match :: "rule_env \<Rightarrow> ipset \<Rightarrow> bool \<Rightarrow> InboundContext \<Rightarrow> bool" where
  "IPCIDRItem_Match env ipSet isSource metadata =
     (if isSource \<or> IPCIDRMatchSource metadata then ipSet (sock_Addr (Source metadata))
      else if DestinationAddressMatchFromResponse metadata then
        let addresses = DNSResponseAddressesForMatch (env_AddrFromIP env) metadata in
        if addresses = [] then IPCIDRAcceptEmpty metadata else list_ex ipSet addresses
      else if env_IsIP env (Destination metadata) then ipSet (sock_Addr (Destination metadata))
      else if DestinationAddresses metadata \<noteq> [] then list_ex ipSet (DestinationAddresses metadata)
      else IPCIDRAcceptEmpty metadata)"

definition NewIPIsPrivateItem :: "bool \<Rightarrow> RuleItem" where
  "NewIPIsPrivateItem isSource = IPIsPrivateItem isSource"

definition IPIsPrivateItem_Match :: "rule_env \<Rightarrow> bool \<Rightarrow> InboundContext \<Rightarrow> bool" where
  "IPIsPrivateItem_Match env isSource metadata =
     (if isSource then \<not> env_IsPublicAddr env (sock_Addr (Source metadata))
      else if DestinationAddressMatchFromResponse metadata then
        list_ex (\<lambda>a. \<not> env_IsPublicAddr env a)
          (DNSResponseAddressesForMatch (env_AddrFromIP env) metadata)
      else if addr_IsValid (sock_Addr (Destination metadata)) then
        \<not> env_IsPublicAddr env (sock_Addr (Destination metadata))
      else list_ex (\<lambda>a. \<not> env_IsPublicAddr env a) (DestinationAddresses metadata))"

definition IPIsPrivateItem_String :: "bool \<Rightarrow> string" where
  "IPIsPrivateItem_String isSource =
     (if isSource then ''source_ip_is_private=true'' else ''ip_is_private=true'')"

definition IPAcceptAnyItem_Match :: "rule_env \<Rightarrow> InboundContext \<Rightarrow> bool" where
  "IPAcceptAnyItem_Match env metadata =
     (if DestinationAddressMatchFromResponse metadata then
        length (DNSResponseAddressesForMatch (env_AddrFromIP env) metadata) > 0
      else length (DestinationAddresses metadata) > 0)"

definition IPVersionItem_Match :: "rule_env \<Rightarrow> bool \<Rightarrow> InboundContext \<Rightarrow> bool" where
  "IPVersionItem_Match env isIPv6 metadata =
     (IPVersion metadata \<noteq> 0 \<and> ((IPVersion metadata = 6) = isIPv6) \<or>
      env_IsIP env (Destination metadata) \<and> (env_IsIPv6 env (Destination metadata) = isIPv6))"

definition IPVersionItem_String :: "bool \<Rightarrow> string" where
  "IPVersionItem_String isIPv6 = ''ip_version='' @ (if isIPv6 then ''6'' else ''4'')"

subsection \<open>Port ranges\<close>

definition parse_port_range :: "string \<Rightarrow> (u16 \<times> u16) result" where
  "parse_port_range portRange =
     (case strings_IndexByte portRange (CHR '':'') of
        None \<Rightarrow> Inl (ENew (''bad port range'' @ portRange))
      | Some subIndex \<Rightarrow>
          res_bind
            (if subIndex > 0
             then res_cause (''bad port range'' @ portRange) (strconv_ParseUint 16 (take subIndex portRange))
             else Inr 0) (\<lambda>start.
          res_bind
            (if subIndex = length portRange - 1 then Inr 0xFFFF
             else res_cause (''bad port range'' @ portRange)
                    (strconv_ParseUint 16 (drop (subIndex + 1) portRange))) (\<lambda>end'.
          Inr (of_nat start, of_nat end'))))"

definition NewPortRangeItem :: "bool \<Rightarrow> string list \<Rightarrow> RuleItem result" where
  "NewPortRangeItem isSource rangeList =
     res_bind (res_mapM parse_port_range rangeList)
       (\<lambda>portRangeList. Inr (PortRangeItem isSource rangeList portRangeList))"

definition PortRangeItem_Match :: "bool \<Rightarrow> (u16 \<times> u16) list \<Rightarrow> InboundContext \<Rightarrow> bool" where
  "PortRangeItem_Match isSource portRangeList metadata =
     (let port = (if isSource then sock_Port (Source metadata) else sock_Port (Destination metadata))
      in list_ex (\<lambda>(start, end'). start \<le> port \<and> port \<le> end') portRangeList)"

definition PortRangeItem_String :: "bool \<Rightarrow> string list \<Rightarrow> string" where
  "PortRangeItem_String isSource portRanges =
     describe_list (if isSource then ''source_port_range='' else ''port_range='') portRanges"

subsection \<open>Network state items\<close>

definition InterfaceType_String :: "InterfaceType \<Rightarrow> string" where
  "InterfaceType_String t =
     (if t = 0 then ''wifi'' else if t = 1 then ''cellular'' else if t = 2 then ''ethernet''
      else if t = 3 then ''other'' else strconv_FormatUint (unat t))"

definition NetworkTypeItem_Match :: "rule_env \<Rightarrow> InterfaceType list \<Rightarrow> bool" where
  "NetworkTypeItem_Match env networkType =
     (case env_DefaultNetworkInterface env of
        None \<Rightarrow> False
      | Some networkInterface \<Rightarrow> List.member networkType (ni_Type networkInterface))"

definition NetworkTypeItem_String :: "InterfaceType list \<Rightarrow> string" where
  "NetworkTypeItem_String networkType =
     describe_list ''network_type='' (map InterfaceType_String networkType)"

definition NetworkIsExpensiveItem_Match :: "rule_env \<Rightarrow> bool" where
  "NetworkIsExpensiveItem_Match env =
     (case env_DefaultNetworkInterface env of None \<Rightarrow> False | Some ni \<Rightarrow> ni_Expensive ni)"

definition NetworkIsExpensiveItem_String :: string where
  "NetworkIsExpensiveItem_String = ''network_is_expensive=true''"

definition NetworkIsConstrainedItem_Match :: "rule_env \<Rightarrow> bool" where
  "NetworkIsConstrainedItem_Match env =
     (case env_DefaultNetworkInterface env of None \<Rightarrow> False | Some ni \<Rightarrow> ni_Constrained ni)"

definition NetworkIsConstrainedItem_String :: string where
  "NetworkIsConstrainedItem_String = ''network_is_expensive=true''"

definition NewWIFISSIDItem :: "string list \<Rightarrow> RuleItem" where
  "NewWIFISSIDItem ssidList = WIFISSIDItem ssidList (map_true_of ssidList)"

definition WIFISSIDItem_Match :: "rule_env \<Rightarrow> string map_true \<Rightarrow> bool" where
  "WIFISSIDItem_Match env ssidMap = map_true_get ssidMap (env_WIFIState_SSID env)"

definition WIFISSIDItem_String :: "string list \<Rightarrow> string" where
  "WIFISSIDItem_String ssidList = describe_list ''wifi_ssid='' ssidList"

text \<open>\<open>strings.TrimSpace\<close> on ASCII and \<open>hex.DecodeString\<close>.\<close>

definition is_space :: "char \<Rightarrow> bool" where
  "is_space c \<longleftrightarrow> (let n = of_char c :: nat in n = 32 \<or> 9 \<le> n \<and> n \<le> 13)"

definition strings_TrimSpace :: "string \<Rightarrow> string" where
  "strings_TrimSpace s = rev (dropWhile is_space (rev (dropWhile is_space s)))"

definition hex_val :: "char \<Rightarrow> nat option" where
  "hex_val c =
     (let n = of_char c :: nat in
      if 48 \<le> n \<and> n \<le> 57 then Some (n - 48)
      else if 97 \<le> n \<and> n \<le> 102 then Some (n - 87)
      else if 65 \<le> n \<and> n \<le> 70 then Some (n - 55)
      else None)"

fun hex_DecodeString :: "string \<Rightarrow> bytes option" where
  "hex_DecodeString [] = Some []"
| "hex_DecodeString [c] = None"
| "hex_DecodeString (c # d # s) =
     (case (hex_val c, hex_val d, hex_DecodeString s) of
        (Some h, Some l, Some bs) \<Rightarrow> Some (of_nat (16 * h + l) # bs)
      | _ \<Rightarrow> None)"

definition NormalizeWIFIBSSID :: "rule_env \<Rightarrow> string \<Rightarrow> string" where
  "NormalizeWIFIBSSID env bssid0 =
     (let bssid = strings_TrimSpace bssid0 in
      if bssid = [] then []
      else case env_ParseMAC env bssid of
        Some parsed \<Rightarrow>
          if length parsed = 6 then HardwareAddr_String parsed
          else if length bssid = 12 then
            (case hex_DecodeString bssid of Some decoded \<Rightarrow> HardwareAddr_String decoded | None \<Rightarrow> bssid)
          else bssid
      | None \<Rightarrow>
          if length bssid = 12 then
            (case hex_DecodeString bssid of Some decoded \<Rightarrow> HardwareAddr_String decoded | None \<Rightarrow> bssid)
          else bssid)"

definition NewWIFIBSSIDItem :: "rule_env \<Rightarrow> string list \<Rightarrow> RuleItem" where
  "NewWIFIBSSIDItem env bssidList =
     WIFIBSSIDItem bssidList (map_true_of (map (NormalizeWIFIBSSID env) bssidList))"

definition WIFIBSSIDItem_Match :: "rule_env \<Rightarrow> string map_true \<Rightarrow> bool" where
  "WIFIBSSIDItem_Match env bssidMap = map_true_get bssidMap (env_WIFIState_BSSID env)"

definition WIFIBSSIDItem_String :: "string list \<Rightarrow> string" where
  "WIFIBSSIDItem_String bssidList = describe_list ''wifi_bssid='' bssidList"

text \<open>
  The interface-address items keep a map from interface names or types to prefixes. The loops of
  \<open>Match\<close> run over the whole map and stop at the first entry that fails, so the order of the entries
  does not matter to the result.
\<close>

definition describe_entries :: "rule_env \<Rightarrow> (string \<times> Prefix list) list \<Rightarrow> string" where
  "describe_entries env entries =
     strings_Join (map (\<lambda>(k, ps). k @ ''='' @ strings_Join (map (env_PrefixString env) ps) '','') entries) '' ''"

definition NewInterfaceAddressItem :: "rule_env \<Rightarrow> (string \<times> Prefix list) list \<Rightarrow> RuleItem" where
  "NewInterfaceAddressItem env entries =
     InterfaceAddressItem entries (''interface_address=['' @ describe_entries env entries @ '']'')"

definition InterfaceAddressItem_Match :: "rule_env \<Rightarrow> (string \<times> Prefix list) list \<Rightarrow> bool" where
  "InterfaceAddressItem_Match env interfaceAddresses =
     list_all (\<lambda>(ifName, addresses).
       case List.find (\<lambda>it. if_Name it = ifName) (env_Interfaces env) of
         None \<Rightarrow> False
       | Some iface \<Rightarrow>
           if_Name iface \<noteq> [] \<and>
           \<not> list_all (\<lambda>address. list_all (\<lambda>it. \<not> prefix_Overlaps address it) (if_Addresses iface)) addresses)
       interfaceAddresses"

definition NewNetworkInterfaceAddressItem ::
    "rule_env \<Rightarrow> (InterfaceType \<times> Prefix list) list \<Rightarrow> RuleItem" where
  "NewNetworkInterfaceAddressItem env entries =
     NetworkInterfaceAddressItem entries
       (''network_interface_address=['' @
          describe_entries env (map (\<lambda>(t, ps). (InterfaceType_String t, ps)) entries) @ '']'')"

definition NetworkInterfaceAddressItem_Match ::
    "rule_env \<Rightarrow> (InterfaceType \<times> Prefix list) list \<Rightarrow> bool" where
  "NetworkInterfaceAddressItem_Match env interfaceAddresses =
     (let myInterfaces = (case env_InterfaceMonitor env of None \<Rightarrow> [] | Some m \<Rightarrow> mon_MyInterfaces m) in
      list_all (\<lambda>(ifType, addresses).
        list_ex (\<lambda>ni.
          \<not> List.member myInterfaces (if_Name ni) \<and> ni_Type ni = ifType \<and>
          list_ex (\<lambda>it. list_ex (\<lambda>prefix. prefix_Overlaps prefix it) addresses) (if_Addresses ni))
          (env_NetworkInterfaces env)) interfaceAddresses)"

definition NewDefaultInterfaceAddressItem :: "rule_env \<Rightarrow> Prefix list \<Rightarrow> RuleItem" where
  "NewDefaultInterfaceAddressItem env prefixes =
     DefaultInterfaceAddressItem (env_InterfaceMonitor env \<noteq> None) prefixes"

definition DefaultInterfaceAddressItem_Match :: "rule_env \<Rightarrow> bool \<Rightarrow> Prefix list \<Rightarrow> bool" where
  "DefaultInterfaceAddressItem_Match env hasMonitor interfaceAddresses =
     (if \<not> hasMonitor then False
      else case env_InterfaceMonitor env of
        None \<Rightarrow> False
      | Some monitor \<Rightarrow>
          (case mon_DefaultInterface monitor of
             None \<Rightarrow> False
           | Some defaultInterface \<Rightarrow>
               list_all (\<lambda>address.
                 \<not> list_all (\<lambda>it. \<not> prefix_Overlaps address it) (if_Addresses defaultInterface))
                 interfaceAddresses))"

definition DefaultInterfaceAddressItem_String :: "rule_env \<Rightarrow> Prefix list \<Rightarrow> string" where
  "DefaultInterfaceAddressItem_String env interfaceAddresses =
     describe_list3 ''default_interface_address='' (map (env_PrefixString env) interfaceAddresses)"

text \<open>The first field of a Clash mode item says whether its manager is bound; \<open>Start\<close> binds it.\<close>

definition NewClashModeItem :: "string \<Rightarrow> RuleItem" where
  "NewClashModeItem mode = ClashModeItem False mode"

definition ClashModeItem_Start :: "bool \<Rightarrow> string \<Rightarrow> RuleItem" where
  "ClashModeItem_Start managerInContext mode = ClashModeItem managerInContext mode"

definition ClashModeItem_Match :: "rule_env \<Rightarrow> bool \<Rightarrow> string \<Rightarrow> bool" where
  "ClashModeItem_Match env bound mode =
     (if \<not> bound then False else strings_EqualFold (env_ClashMode env) mode)"

definition ClashModeItem_String :: "string \<Rightarrow> string" where
  "ClashModeItem_String mode = ''clash_mode='' @ mode"

subsection \<open>Preferred outbounds and DNS servers\<close>

text \<open>
  \<open>Start\<close> resolves every tag. \<open>lookup\<close> is the outbound (or DNS transport) manager: \<open>None\<close> for an
  unknown tag, otherwise the type of the object and, when that type implements the interface of
  preferred routes (or domains), the implementation.
\<close>

definition resolve_tags ::
    "string \<Rightarrow> string \<Rightarrow> (string \<Rightarrow> (string \<times> 'o option) option) \<Rightarrow> string list \<Rightarrow> 'o list result" where
  "resolve_tags notFound unsupported lookup tags =
     res_mapM (\<lambda>tag. case lookup tag of
         None \<Rightarrow> Inl (ENew (notFound @ tag))
       | Some (type', None) \<Rightarrow> Inl (ENew (unsupported @ type'))
       | Some (type', Some o') \<Rightarrow> Inr o') tags"

definition NewPreferredByItem :: "string list \<Rightarrow> RuleItem" where
  "NewPreferredByItem outboundTags = PreferredByItem outboundTags []"

definition PreferredByItem_Start ::
    "(string \<Rightarrow> (string \<times> PreferredRoutes option) option) \<Rightarrow> string list \<Rightarrow> PreferredRoutes list
      \<Rightarrow> RuleItem result" where
  "PreferredByItem_Start lookup outboundTags outbounds =
     res_bind (resolve_tags ''outbound not found: '' ''outbound type does not support preferred routes: ''
       lookup outboundTags) (\<lambda>os. Inr (PreferredByItem outboundTags (outbounds @ os)))"

definition PreferredByItem_Match :: "rule_env \<Rightarrow> PreferredRoutes list \<Rightarrow> InboundContext \<Rightarrow> bool" where
  "PreferredByItem_Match env outbounds metadata =
     (if domain_host metadata \<noteq> [] \<and>
         list_ex (\<lambda>o'. PreferredDomain o' (domain_host metadata)) outbounds then True
      else if env_IsIP env (Destination metadata) \<and>
         list_ex (\<lambda>o'. PreferredAddress o' (PreMatch metadata) (sock_Addr (Destination metadata))) outbounds then True
      else DestinationAddresses metadata \<noteq> [] \<and>
         list_ex (\<lambda>address. list_ex (\<lambda>o'. PreferredAddress o' (PreMatch metadata) address) outbounds)
           (DestinationAddresses metadata))"

definition PreferredByItem_String :: "string list \<Rightarrow> string" where
  "PreferredByItem_String outboundTags = describe_list ''preferred_by='' outboundTags"

definition NewPreferredByDNSItem :: "string list \<Rightarrow> RuleItem" where
  "NewPreferredByDNSItem transportTags = PreferredByDNSItem transportTags []"

definition PreferredByDNSItem_Start ::
    "(string \<Rightarrow> (string \<times> matcher option) option) \<Rightarrow> string list \<Rightarrow> matcher list \<Rightarrow> RuleItem result" where
  "PreferredByDNSItem_Start lookup transportTags transports =
     res_bind (resolve_tags ''DNS server not found: '' ''DNS server type does not support preferred_by: ''
       lookup transportTags) (\<lambda>ts. Inr (PreferredByDNSItem transportTags (transports @ ts)))"

definition PreferredByDNSItem_Match :: "rule_env \<Rightarrow> matcher list \<Rightarrow> InboundContext \<Rightarrow> bool" where
  "PreferredByDNSItem_Match env transports metadata =
     (if domain_host metadata = [] then False
      else list_ex (\<lambda>PreferredDomain. PreferredDomain (env_CanonicalName env (domain_host metadata))) transports)"

definition PreferredByDNSItem_String :: "string list \<Rightarrow> string" where
  "PreferredByDNSItem_String transportTags = describe_list ''preferred_by='' transportTags"

subsection \<open>DNS query and response items\<close>

definition QueryClientSubnetItem_Match :: "Prefix list \<Rightarrow> InboundContext \<Rightarrow> bool" where
  "QueryClientSubnetItem_Match prefixes metadata =
     (let clientSubnet = QueryClientSubnet metadata in
      if \<not> prefix_IsValid clientSubnet then False
      else list_ex (\<lambda>prefix. prefix_Bits prefix \<le> prefix_Bits clientSubnet \<and>
             prefix_Contains prefix (prefix_Addr clientSubnet)) prefixes)"

definition QueryClientSubnetItem_String :: "rule_env \<Rightarrow> Prefix list \<Rightarrow> string" where
  "QueryClientSubnetItem_String env prefixes =
     describe_list ''query_client_subnet='' (map (env_PrefixString env) prefixes)"

definition DNSResponseRCodeItem_Match :: "int \<Rightarrow> InboundContext \<Rightarrow> bool" where
  "DNSResponseRCodeItem_Match rcode metadata =
     (case DNSResponse metadata of None \<Rightarrow> False | Some msg \<Rightarrow> Rcode msg = rcode)"

definition DNSResponseRCodeItem_String :: "rule_env \<Rightarrow> int \<Rightarrow> string" where
  "DNSResponseRCodeItem_String env rcode = ''response_rcode='' @ env_RcodeToString env rcode"

fun section_records :: "record_section \<Rightarrow> dnsMsg \<Rightarrow> RR list" where
  "section_records AnswerSection message = Answer message"
| "section_records NsSection message = Ns message"
| "section_records ExtraSection message = Extra message"

definition DNSRecordOptions_Match :: "rule_env \<Rightarrow> RR option \<Rightarrow> RR \<Rightarrow> bool" where
  "DNSRecordOptions_Match env o' rec =
     (case o' of None \<Rightarrow> False | Some rr \<Rightarrow> env_IsDuplicate env rr rec)"

definition DNSResponseRecordItem_Match ::
    "rule_env \<Rightarrow> RR option list \<Rightarrow> record_section \<Rightarrow> InboundContext \<Rightarrow> bool" where
  "DNSResponseRecordItem_Match env records selector metadata =
     (case DNSResponse metadata of
        None \<Rightarrow> False
      | Some message \<Rightarrow>
          list_ex (\<lambda>expected. list_ex (DNSRecordOptions_Match env expected) (section_records selector message))
            records)"

definition DNSResponseRecordItem_String :: "rule_env \<Rightarrow> string \<Rightarrow> RR option list \<Rightarrow> string" where
  "DNSResponseRecordItem_String env field records =
     field @ ''=['' @ strings_Join (map (env_RRString env) (List.map_filter id records)) '' '' @ '']''"

subsection \<open>Dispatch of the interface\<close>

fun item_Match :: "rule_env \<Rightarrow> RuleItem \<Rightarrow> InboundContext \<Rightarrow> bool" where
  "item_Match env (InboundItem _ m) md = InboundItem_Match m md"
| "item_Match env (IPVersionItem v6) md = IPVersionItem_Match env v6 md"
| "item_Match env (NetworkItem _ m) md = NetworkItem_Match m md"
| "item_Match env (AuthUserItem _ m) md = AuthUserItem_Match m md"
| "item_Match env (ProtocolItem _ m) md = ProtocolItem_Match m md"
| "item_Match env (ClientItem _ m) md = ClientItem_Match m md"
| "item_Match env (DomainItem m _) md = DomainItem_Match m md"
| "item_Match env (DomainKeywordItem ks) md = DomainKeywordItem_Match ks md"
| "item_Match env (DomainRegexItem ms _) md = DomainRegexItem_Match ms md"
| "item_Match env (IPCIDRItem s src _) md = IPCIDRItem_Match env s src md"
| "item_Match env (IPIsPrivateItem src) md = IPIsPrivateItem_Match env src md"
| "item_Match env IPAcceptAnyItem md = IPAcceptAnyItem_Match env md"
| "item_Match env (PortItem _ m src) md = PortItem_Match m src md"
| "item_Match env (PortRangeItem src _ rs) md = PortRangeItem_Match src rs md"
| "item_Match env (ProcessItem _ m) md = ProcessItem_Match m md"
| "item_Match env (ProcessPathItem _ m) md = ProcessPathItem_Match env m md"
| "item_Match env (ProcessPathRegexItem ms _) md = ProcessPathRegexItem_Match ms md"
| "item_Match env (PackageNameItem _ m) md = PackageNameItem_Match m md"
| "item_Match env (PackageNameRegexItem ms _) md = PackageNameRegexItem_Match ms md"
| "item_Match env (UserItem _ m) md = UserItem_Match m md"
| "item_Match env (UserIdItem _ m) md = UserIdItem_Match m md"
| "item_Match env (OutboundItem _ m a) md = OutboundItem_Match m a md"
| "item_Match env (ClashModeItem b mode) md = ClashModeItem_Match env b mode"
| "item_Match env (NetworkTypeItem ts) md = NetworkTypeItem_Match env ts"
| "item_Match env NetworkIsExpensiveItem md = NetworkIsExpensiveItem_Match env"
| "item_Match env NetworkIsConstrainedItem md = NetworkIsConstrainedItem_Match env"
| "item_Match env (WIFISSIDItem _ m) md = WIFISSIDItem_Match env m"
| "item_Match env (WIFIBSSIDItem _ m) md = WIFIBSSIDItem_Match env m"
| "item_Match env (InterfaceAddressItem es _) md = InterfaceAddressItem_Match env es"
| "item_Match env (NetworkInterfaceAddressItem es _) md = NetworkInterfaceAddressItem_Match env es"
| "item_Match env (DefaultInterfaceAddressItem b ps) md = DefaultInterfaceAddressItem_Match env b ps"
| "item_Match env (SourceMACAddressItem _ m) md = SourceMACAddressItem_Match m md"
| "item_Match env (SourceHostnameItem _ m) md = SourceHostnameItem_Match m md"
| "item_Match env (PreferredByItem _ os) md = PreferredByItem_Match env os md"
| "item_Match env (PreferredByDNSItem _ ts) md = PreferredByDNSItem_Match env ts md"
| "item_Match env (QueryTypeItem _ m) md = QueryTypeItem_Match m md"
| "item_Match env (QueryClientSubnetItem ps) md = QueryClientSubnetItem_Match ps md"
| "item_Match env QueryDNSSECItem md = QueryDNSSEC md"
| "item_Match env (DNSResponseRCodeItem rc) md = DNSResponseRCodeItem_Match rc md"
| "item_Match env (DNSResponseRecordItem _ rs sel) md = DNSResponseRecordItem_Match env rs sel md"
| "item_Match env (AdGuardDomainItem m) md = AdGuardDomainItem_Match m md"

fun item_String :: "rule_env \<Rightarrow> RuleItem \<Rightarrow> string" where
  "item_String env (InboundItem xs _) = InboundItem_String xs"
| "item_String env (IPVersionItem v6) = IPVersionItem_String v6"
| "item_String env (NetworkItem xs _) = NetworkItem_String xs"
| "item_String env (AuthUserItem xs _) = AuthUserItem_String xs"
| "item_String env (ProtocolItem xs _) = ProtocolItem_String xs"
| "item_String env (ClientItem xs _) = ClientItem_String xs"
| "item_String env (DomainItem _ d) = d"
| "item_String env (DomainKeywordItem ks) = DomainKeywordItem_String ks"
| "item_String env (DomainRegexItem _ d) = d"
| "item_String env (IPCIDRItem _ _ d) = d"
| "item_String env (IPIsPrivateItem src) = IPIsPrivateItem_String src"
| "item_String env IPAcceptAnyItem = ''ip_accept_any=true''"
| "item_String env (PortItem ps _ src) = PortItem_String ps src"
| "item_String env (PortRangeItem src rs _) = PortRangeItem_String src rs"
| "item_String env (ProcessItem xs _) = ProcessItem_String xs"
| "item_String env (ProcessPathItem xs _) = ProcessPathItem_String xs"
| "item_String env (ProcessPathRegexItem _ d) = d"
| "item_String env (PackageNameItem xs _) = PackageNameItem_String xs"
| "item_String env (PackageNameRegexItem _ d) = d"
| "item_String env (UserItem xs _) = UserItem_String xs"
| "item_String env (UserIdItem xs _) = UserIdItem_String xs"
| "item_String env (OutboundItem xs _ _) = OutboundItem_String xs"
| "item_String env (ClashModeItem _ mode) = ClashModeItem_String mode"
| "item_String env (NetworkTypeItem ts) = NetworkTypeItem_String ts"
| "item_String env NetworkIsExpensiveItem = NetworkIsExpensiveItem_String"
| "item_String env NetworkIsConstrainedItem = NetworkIsConstrainedItem_String"
| "item_String env (WIFISSIDItem xs _) = WIFISSIDItem_String xs"
| "item_String env (WIFIBSSIDItem xs _) = WIFIBSSIDItem_String xs"
| "item_String env (InterfaceAddressItem _ d) = d"
| "item_String env (NetworkInterfaceAddressItem _ d) = d"
| "item_String env (DefaultInterfaceAddressItem _ ps) = DefaultInterfaceAddressItem_String env ps"
| "item_String env (SourceMACAddressItem xs _) = SourceMACAddressItem_String xs"
| "item_String env (SourceHostnameItem xs _) = SourceHostnameItem_String xs"
| "item_String env (PreferredByItem xs _) = PreferredByItem_String xs"
| "item_String env (PreferredByDNSItem xs _) = PreferredByDNSItem_String xs"
| "item_String env (QueryTypeItem xs _) = QueryTypeItem_String env xs"
| "item_String env (QueryClientSubnetItem ps) = QueryClientSubnetItem_String env ps"
| "item_String env QueryDNSSECItem = ''query_dnssec=true''"
| "item_String env (DNSResponseRCodeItem rc) = DNSResponseRCodeItem_String env rc"
| "item_String env (DNSResponseRecordItem f rs _) = DNSResponseRecordItem_String env f rs"
| "item_String env (AdGuardDomainItem _) = AdGuardDomainItem_String"

subsection \<open>Lemmas\<close>

lemmas item_Match_defs =
  InboundItem_Match_def NetworkItem_Match_def AuthUserItem_Match_def ProtocolItem_Match_def
  ClientItem_Match_def SourceHostnameItem_Match_def PortItem_Match_def QueryTypeItem_Match_def
  UserIdItem_Match_def UserItem_Match_def ProcessItem_Match_def ProcessPathItem_Match_def
  PackageNameItem_Match_def SourceMACAddressItem_Match_def OutboundItem_Match_def
  DomainItem_Match_def DomainKeywordItem_Match_def DomainRegexItem_Match_def
  ProcessPathRegexItem_Match_def PackageNameRegexItem_Match_def AdGuardDomainItem_Match_def
  IPCIDRItem_Match_def IPIsPrivateItem_Match_def IPAcceptAnyItem_Match_def IPVersionItem_Match_def
  PortRangeItem_Match_def NetworkTypeItem_Match_def NetworkIsExpensiveItem_Match_def
  NetworkIsConstrainedItem_Match_def WIFISSIDItem_Match_def WIFIBSSIDItem_Match_def
  InterfaceAddressItem_Match_def NetworkInterfaceAddressItem_Match_def
  DefaultInterfaceAddressItem_Match_def ClashModeItem_Match_def PreferredByItem_Match_def
  PreferredByDNSItem_Match_def QueryClientSubnetItem_Match_def DNSResponseRCodeItem_Match_def
  DNSResponseRecordItem_Match_def domain_host_def DNSResponseAddressesForMatch_def

text \<open>Items do not look at the rule cache (the flags that direct IP CIDR items apart).\<close>

lemma item_Match_Reset [simp]: "item_Match env it (ResetRuleMatchCache md) = item_Match env it md"
  by (cases it) (simp_all add: item_Match_defs ResetRuleMatchCache_def)

end
