(* ===== verification/RuleActions.thy ===== *)
theory RuleActions
  imports RuleItemOps
begin

text \<open>
  Rule actions (\<open>route/rule/rule_action.go\<close>) and the action options they are built from
  (\<open>option/rule_action.go\<close>), with the option parser of \<open>common/tlsspoof/spoof.go\<close>. An action is
  a value of \<open>RuleAction\<close>, one constructor per Go struct. The mutable part of an action, the drop
  counter of \<open>RuleActionReject\<close>, is passed and returned explicitly by \<open>RuleActionReject_Error\<close>.

  Lemmas: the flood control of \<open>reject\<close> counts exactly the rejections of the last thirty seconds
  and keeps no older time stamp; the spoof method names round-trip; the sniffer table; wildcard
  records of a predefined response.
\<close>

subsection \<open>Option records\<close>

type_synonym DomainStrategy = u8

record RawRouteOptionsActionOptions =
  ro_OverrideAddress :: string
  ro_OverridePort :: u16
  ro_NetworkStrategy :: "NetworkStrategy option"
  ro_FallbackDelay :: u32
  ro_UDPDisableDomainUnmapping :: bool
  ro_UDPConnect :: bool
  ro_UDPTimeout :: duration
  ro_TLSFragment :: bool
  ro_TLSFragmentFallbackDelay :: duration
  ro_TLSRecordFragment :: bool
  ro_TLSSpoof :: string
  ro_TLSSpoofMethod :: string

record RouteActionOptions =
  rao_Outbound :: string
  rao_Raw :: RawRouteOptionsActionOptions

record AbstractDialerOptions =
  do_BindInterface :: string
  do_Inet4BindAddress :: "Addr option"
  do_Inet6BindAddress :: "Addr option"
  do_RoutingMark :: u32
  do_ReuseAddr :: bool
  do_ConnectTimeout :: duration
  do_TCPFastOpen :: bool
  do_TCPMultiPath :: bool
  do_UDPFragment :: "bool option"
  do_DomainStrategy :: DomainStrategy
  do_FallbackDelay :: duration

record RejectActionOptions =
  rej_Method :: string
  rej_NoDrop :: bool

record RouteActionSniff =
  sn_Sniffer :: "string list"
  sn_Timeout :: duration

record RouteActionResolve =
  rv_Server :: string
  rv_Timeout :: duration
  rv_Strategy :: DomainStrategy
  rv_DisableCache :: bool
  rv_DisableOptimisticCache :: bool
  rv_RewriteTTL :: "u32 option"
  rv_ClientSubnet :: "Prefix option"

record RuleAction_options =
  ra_Action :: string
  ra_RouteOptions :: RouteActionOptions
  ra_RouteOptionsOptions :: RawRouteOptionsActionOptions
  ra_DirectOptions :: AbstractDialerOptions
  ra_BypassOptions :: RouteActionOptions
  ra_RejectOptions :: RejectActionOptions
  ra_SniffOptions :: RouteActionSniff
  ra_ResolveOptions :: RouteActionResolve

record AbstractDNSRouteActionOptions =
  dr_Timeout :: duration
  dr_Strategy :: DomainStrategy
  dr_DisableCache :: bool
  dr_DisableOptimisticCache :: bool
  dr_RewriteTTL :: "u32 option"
  dr_ClientSubnet :: "Prefix option"
  dr_RemoveClientSubnet :: bool

record DNSRouteActionOptions =
  dra_Server :: string
  dra_Speculative :: bool
  dra_Abstract :: AbstractDNSRouteActionOptions

record DNSEvaluateActionOptions =
  dea_Server :: string
  dea_Tag :: string
  dea_Speculative :: bool
  dea_Abstract :: AbstractDNSRouteActionOptions

record DNSRouteActionPredefined =
  pre_Rcode :: "int option"
  pre_Answer :: "RR option list"
  pre_Ns :: "RR option list"
  pre_Extra :: "RR option list"

record DNSRuleAction_options =
  da_Action :: string
  da_Race :: bool
  da_RouteOptions :: DNSRouteActionOptions
  da_EvaluateOptions :: DNSEvaluateActionOptions
  da_RouteOptionsOptions :: AbstractDNSRouteActionOptions
  da_RejectOptions :: RejectActionOptions
  da_PredefinedOptions :: DNSRouteActionPredefined

subsection \<open>Runtime actions\<close>

record RuleActionRouteOptions =
  act_OverrideAddress :: Socksaddr
  act_OverridePort :: u16
  act_NetworkStrategy :: "NetworkStrategy option"
  act_NetworkType :: "InterfaceType list option"
  act_FallbackNetworkType :: "InterfaceType list option"
  act_FallbackDelay :: duration
  act_UDPDisableDomainUnmapping :: bool
  act_UDPConnect :: bool
  act_UDPTimeout :: duration
  act_TLSFragment :: bool
  act_TLSFragmentFallbackDelay :: duration
  act_TLSRecordFragment :: bool
  act_TLSSpoof :: string
  act_TLSSpoofMethod :: TLSSpoofMethod

record RuleActionDNSRouteOptions =
  dns_Strategy :: DomainStrategy
  dns_Timeout :: duration
  dns_DisableCache :: bool
  dns_DisableOptimisticCache :: bool
  dns_RewriteTTL :: "u32 option"
  dns_ClientSubnet :: Prefix
  dns_RemoveClientSubnet :: bool

text \<open>The sniffers of \<open>common/sniff\<close> that a sniff action can select.\<close>

datatype Sniffer =
    TLSClientHello | HTTPHost | QUICClientHello | StreamDomainNameQuery | DomainNameQuery
  | STUNMessage | BitTorrent | UTP | UDPTracker | DTLSRecord | SSH | RDP | NTP

record RuleActionSniff =
  SnifferNames_of :: "string list"
  StreamSniffers :: "Sniffer list"
  PacketSniffers :: "Sniffer list"
  Sniff_Timeout :: duration
  OverrideDestination :: bool

datatype (plugins only: size) RuleAction =
    RuleActionRoute string RuleActionRouteOptions
  | RuleActionBypass string RuleActionRouteOptions
  | RuleActionRouteOpts RuleActionRouteOptions
  | RuleActionDNSRoute string bool RuleActionDNSRouteOptions
  | RuleActionEvaluate string string bool RuleActionDNSRouteOptions
  | RuleActionRespond
  | RuleActionDNSRouteOpts RuleActionDNSRouteOptions
  | RuleActionDirect string
  | RuleActionReject string bool
  | RuleActionHijackDNS
  | RuleActionSniffAct RuleActionSniff
  | RuleActionResolve string duration DomainStrategy bool bool "u32 option" Prefix
  | RuleActionPredefined int "RR option list" "RR option list" "RR option list"

text \<open>
  What the constructors and descriptions call outside the modelled code: the address parser and
  printers of the \<open>sing\<close> library, \<open>time.Duration.String\<close>, the build-time constant
  \<open>PlatformSupported\<close>, and the dialer construction of \<open>common/dialer\<close>.
\<close>

record action_env =
  ae_ParseSocksaddrHostPort :: "string \<Rightarrow> u16 \<Rightarrow> Socksaddr"
  ae_SocksaddrIsValid :: "Socksaddr \<Rightarrow> bool"
  ae_AddrString :: "Socksaddr \<Rightarrow> string"
  ae_IPString :: "Addr \<Rightarrow> string"
  ae_DurationString :: "duration \<Rightarrow> string"
  ae_PlatformSupported :: bool
  ae_dialer_New :: "AbstractDialerOptions \<Rightarrow> unit result"

subsection \<open>TLS spoofing options\<close>

definition MethodWrongSequence :: TLSSpoofMethod where "MethodWrongSequence = 0"
definition MethodWrongChecksum :: TLSSpoofMethod where "MethodWrongChecksum = 1"
definition MethodWrongAcknowledgment :: TLSSpoofMethod where "MethodWrongAcknowledgment = 2"
definition MethodWrongMD5Sig :: TLSSpoofMethod where "MethodWrongMD5Sig = 3"
definition MethodWrongTimestamp :: TLSSpoofMethod where "MethodWrongTimestamp = 4"

lemmas Method_defs = MethodWrongSequence_def MethodWrongChecksum_def MethodWrongAcknowledgment_def
  MethodWrongMD5Sig_def MethodWrongTimestamp_def

definition ParseMethod :: "string \<Rightarrow> TLSSpoofMethod result" where
  "ParseMethod s =
     (if s = [] \<or> s = ''wrong-sequence'' then Inr MethodWrongSequence
      else if s = ''wrong-checksum'' then Inr MethodWrongChecksum
      else if s = ''wrong-ack'' then Inr MethodWrongAcknowledgment
      else if s = ''wrong-md5'' then Inr MethodWrongMD5Sig
      else if s = ''wrong-timestamp'' then Inr MethodWrongTimestamp
      else Inl (ENew (''tls_spoof: unknown method: '' @ s)))"

definition Method_String :: "TLSSpoofMethod \<Rightarrow> string" where
  "Method_String m =
     (if m = MethodWrongSequence then ''wrong-sequence''
      else if m = MethodWrongChecksum then ''wrong-checksum''
      else if m = MethodWrongAcknowledgment then ''wrong-ack''
      else if m = MethodWrongMD5Sig then ''wrong-md5''
      else if m = MethodWrongTimestamp then ''wrong-timestamp''
      else ''unknown'')"

definition ParseOptions :: "bool \<Rightarrow> string \<Rightarrow> string \<Rightarrow> (string \<times> TLSSpoofMethod) result" where
  "ParseOptions PlatformSupported spoof method =
     (if spoof = [] then
        if method \<noteq> [] then Inl (ENew ''spoof_method requires spoof'') else Inr ([], 0)
      else if \<not> PlatformSupported then Inl (ENew ''tls_spoof is not supported on this platform'')
      else res_bind (ParseMethod method) (\<lambda>parsedMethod. Inr (spoof, parsedMethod)))"

subsection \<open>Constructing actions\<close>

definition newRuleActionRouteOptions ::
    "action_env \<Rightarrow> RawRouteOptionsActionOptions \<Rightarrow> RuleActionRouteOptions result" where
  "newRuleActionRouteOptions ae options =
     res_bind (ParseOptions (ae_PlatformSupported ae) (ro_TLSSpoof options) (ro_TLSSpoofMethod options))
       (\<lambda>(spoof, spoofMethod). Inr
         \<lparr>act_OverrideAddress = ae_ParseSocksaddrHostPort ae (ro_OverrideAddress options) 0,
          act_OverridePort = ro_OverridePort options,
          act_NetworkStrategy = ro_NetworkStrategy options,
          act_NetworkType = None,
          act_FallbackNetworkType = None,
          act_FallbackDelay = int (unat (ro_FallbackDelay options)),
          act_UDPDisableDomainUnmapping = ro_UDPDisableDomainUnmapping options,
          act_UDPConnect = ro_UDPConnect options,
          act_UDPTimeout = ro_UDPTimeout options,
          act_TLSFragment = ro_TLSFragment options,
          act_TLSFragmentFallbackDelay = ro_TLSFragmentFallbackDelay options,
          act_TLSRecordFragment = ro_TLSRecordFragment options,
          act_TLSSpoof = spoof,
          act_TLSSpoofMethod = spoofMethod\<rparr>)"

fun sniffers_of :: "string \<Rightarrow> (Sniffer list \<times> Sniffer list) result" where
  "sniffers_of name =
     (if name = ''tls'' then Inr ([TLSClientHello], [])
      else if name = ''http'' then Inr ([HTTPHost], [])
      else if name = ''quic'' then Inr ([], [QUICClientHello])
      else if name = ''dns'' then Inr ([StreamDomainNameQuery], [DomainNameQuery])
      else if name = ''stun'' then Inr ([], [STUNMessage])
      else if name = ''bittorrent'' then Inr ([BitTorrent], [UTP, UDPTracker])
      else if name = ''dtls'' then Inr ([], [DTLSRecord])
      else if name = ''ssh'' then Inr ([SSH], [])
      else if name = ''rdp'' then Inr ([RDP], [])
      else if name = ''ntp'' then Inr ([], [NTP])
      else Inl (ENew (''unknown sniffer: '' @ name)))"

fun sniff_build_loop :: "string list \<Rightarrow> RuleActionSniff \<Rightarrow> RuleActionSniff result" where
  "sniff_build_loop [] r = Inr r"
| "sniff_build_loop (name # names) r =
     res_bind (sniffers_of name) (\<lambda>(streams, packets).
       sniff_build_loop names
         (r\<lparr>StreamSniffers := StreamSniffers r @ streams, PacketSniffers := PacketSniffers r @ packets\<rparr>))"

definition RuleActionSniff_build :: "RuleActionSniff \<Rightarrow> RuleActionSniff result" where
  "RuleActionSniff_build r = sniff_build_loop (SnifferNames_of r) r"

definition hex_uint :: "u32 \<Rightarrow> string" where
  "hex_uint n = (let ds = dropWhile (\<lambda>c. c = CHR ''0'')
       (map (\<lambda>i. hex_char (unat (drop_bit (4 * i) n AND 15))) [7, 6, 5, 4, 3, 2, 1, 0])
     in if ds = [] then ''0'' else ds)"

definition DomainStrategy_String :: "DomainStrategy \<Rightarrow> string result" where
  "DomainStrategy_String s =
     (if s = 0 then Inr [] else if s = 1 then Inr ''prefer_ipv4'' else if s = 2 then Inr ''prefer_ipv6''
      else if s = 3 then Inr ''ipv4_only'' else if s = 4 then Inr ''ipv6_only''
      else Inl (EPanic (''unknown domain strategy: '' @ strconv_FormatUint (unat s))))"

definition DirectActionOptions_Descriptions :: "action_env \<Rightarrow> AbstractDialerOptions \<Rightarrow> string list result" where
  "DirectActionOptions_Descriptions ae d =
     res_bind (if do_DomainStrategy d \<noteq> 0
               then res_bind (DomainStrategy_String (do_DomainStrategy d)) (\<lambda>s. Inr [''domain_strategy='' @ s])
               else Inr []) (\<lambda>strategy. Inr (
       (if do_BindInterface d \<noteq> [] then [''bind_interface='' @ do_BindInterface d] else []) @
       (case do_Inet4BindAddress d of None \<Rightarrow> [] | Some a \<Rightarrow> [''inet4_bind_address='' @ ae_IPString ae a]) @
       (case do_Inet6BindAddress d of None \<Rightarrow> [] | Some a \<Rightarrow> [''inet6_bind_address='' @ ae_IPString ae a]) @
       (if do_RoutingMark d \<noteq> 0 then [''routing_mark=0x'' @ hex_uint (do_RoutingMark d)] else []) @
       (if do_ReuseAddr d then [''reuse_addr''] else []) @
       (if do_ConnectTimeout d \<noteq> 0
        then [''connect_timeout='' @ ae_DurationString ae (do_ConnectTimeout d)] else []) @
       (if do_TCPFastOpen d then [''tcp_fast_open''] else []) @
       (if do_TCPMultiPath d then [''tcp_multi_path''] else []) @
       (case do_UDPFragment d of None \<Rightarrow> []
        | Some b \<Rightarrow> [''udp_fragment='' @ (if b then ''true'' else ''false'')]) @
       strategy @
       (if do_FallbackDelay d \<noteq> 0
        then [''fallback_delay='' @ ae_DurationString ae (do_FallbackDelay d)] else [])))"

fun direct_description :: "string list \<Rightarrow> string" where
  "direct_description [] = []"
| "direct_description [a] = ''('' @ a @ '')''"
| "direct_description [a, b] = ''('' @ a @ '','' @ b @ '')''"
| "direct_description (a # b # _ # _) = ''('' @ a @ '','' @ b @ '',...)''"

definition NewRuleAction :: "action_env \<Rightarrow> RuleAction_options \<Rightarrow> RuleAction option result" where
  "NewRuleAction ae action =
     (if ra_Action action = [] then Inr None
      else if ra_Action action = ''route'' then
        res_bind (newRuleActionRouteOptions ae (rao_Raw (ra_RouteOptions action)))
          (\<lambda>routeOptions. Inr (Some (RuleActionRoute (rao_Outbound (ra_RouteOptions action)) routeOptions)))
      else if ra_Action action = ''route-options'' then
        res_bind (newRuleActionRouteOptions ae (ra_RouteOptionsOptions action))
          (\<lambda>routeOptions. Inr (Some (RuleActionRouteOpts routeOptions)))
      else if ra_Action action = ''bypass'' then
        res_bind (newRuleActionRouteOptions ae (rao_Raw (ra_BypassOptions action)))
          (\<lambda>routeOptions. Inr (Some (RuleActionBypass (rao_Outbound (ra_BypassOptions action)) routeOptions)))
      else if ra_Action action = ''direct'' then
        res_bind (ae_dialer_New ae (ra_DirectOptions action)) (\<lambda>_.
        res_bind (DirectActionOptions_Descriptions ae (ra_DirectOptions action)) (\<lambda>descriptions.
          Inr (Some (RuleActionDirect (direct_description descriptions)))))
      else if ra_Action action = ''reject'' then
        Inr (Some (RuleActionReject (rej_Method (ra_RejectOptions action)) (rej_NoDrop (ra_RejectOptions action))))
      else if ra_Action action = ''hijack-dns'' then Inr (Some RuleActionHijackDNS)
      else if ra_Action action = ''sniff'' then
        res_bind (RuleActionSniff_build
            \<lparr>SnifferNames_of = sn_Sniffer (ra_SniffOptions action), StreamSniffers = [], PacketSniffers = [],
             Sniff_Timeout = sn_Timeout (ra_SniffOptions action), OverrideDestination = False\<rparr>)
          (\<lambda>sniffAction. Inr (Some (RuleActionSniffAct sniffAction)))
      else if ra_Action action = ''resolve'' then
        (let o' = ra_ResolveOptions action in
         Inr (Some (RuleActionResolve (rv_Server o') (rv_Timeout o') (rv_Strategy o') (rv_DisableCache o')
           (rv_DisableOptimisticCache o') (rv_RewriteTTL o')
           (case rv_ClientSubnet o' of None \<Rightarrow> prefix_zero | Some p \<Rightarrow> p))))
      else Inl (EPanic (''unknown rule action: '' @ ra_Action action)))"

definition dns_route_options :: "AbstractDNSRouteActionOptions \<Rightarrow> RuleActionDNSRouteOptions" where
  "dns_route_options o' =
     \<lparr>dns_Strategy = dr_Strategy o', dns_Timeout = dr_Timeout o', dns_DisableCache = dr_DisableCache o',
      dns_DisableOptimisticCache = dr_DisableOptimisticCache o', dns_RewriteTTL = dr_RewriteTTL o',
      dns_ClientSubnet = (case dr_ClientSubnet o' of None \<Rightarrow> prefix_zero | Some p \<Rightarrow> p),
      dns_RemoveClientSubnet = dr_RemoveClientSubnet o'\<rparr>"

definition NewDNSRuleAction :: "DNSRuleAction_options \<Rightarrow> RuleAction option result" where
  "NewDNSRuleAction action =
     (if da_Action action = [] then Inr None
      else if da_Action action = ''route'' then
        Inr (Some (RuleActionDNSRoute (dra_Server (da_RouteOptions action)) (dra_Speculative (da_RouteOptions action))
          (dns_route_options (dra_Abstract (da_RouteOptions action)))))
      else if da_Action action = ''evaluate'' then
        Inr (Some (RuleActionEvaluate (dea_Server (da_EvaluateOptions action)) (dea_Tag (da_EvaluateOptions action))
          (dea_Speculative (da_EvaluateOptions action)) (dns_route_options (dea_Abstract (da_EvaluateOptions action)))))
      else if da_Action action = ''respond'' then Inr (Some RuleActionRespond)
      else if da_Action action = ''route-options'' then
        Inr (Some (RuleActionDNSRouteOpts (dns_route_options (da_RouteOptionsOptions action))))
      else if da_Action action = ''reject'' then
        Inr (Some (RuleActionReject (rej_Method (da_RejectOptions action)) (rej_NoDrop (da_RejectOptions action))))
      else if da_Action action = ''predefined'' then
        (let o' = da_PredefinedOptions action in
         Inr (Some (RuleActionPredefined (case pre_Rcode o' of None \<Rightarrow> RcodeSuccess | Some rc \<Rightarrow> rc)
           (pre_Answer o') (pre_Ns o') (pre_Extra o'))))
      else Inl (EPanic (''unknown rule action: '' @ da_Action action)))"

subsection \<open>Type, description and classification\<close>

fun action_Type :: "RuleAction \<Rightarrow> string" where
  "action_Type (RuleActionRoute _ _) = ''route''"
| "action_Type (RuleActionBypass _ _) = ''bypass''"
| "action_Type (RuleActionRouteOpts _) = ''route-options''"
| "action_Type (RuleActionDNSRoute _ _ _) = ''route''"
| "action_Type (RuleActionEvaluate _ _ _ _) = ''evaluate''"
| "action_Type RuleActionRespond = ''respond''"
| "action_Type (RuleActionDNSRouteOpts _) = ''route-options''"
| "action_Type (RuleActionDirect _) = ''direct''"
| "action_Type (RuleActionReject _ _) = ''reject''"
| "action_Type RuleActionHijackDNS = ''hijack-dns''"
| "action_Type (RuleActionSniffAct _) = ''sniff''"
| "action_Type (RuleActionResolve _ _ _ _ _ _ _) = ''resolve''"
| "action_Type (RuleActionPredefined _ _ _ _) = ''predefined''"

definition IsFinalAction :: "RuleAction \<Rightarrow> bool" where
  "IsFinalAction action =
     (\<not> (action_Type action = ''sniff'' \<or> action_Type action = ''resolve'' \<or> action_Type action = ''evaluate''))"

definition NetworkStrategy_String :: "NetworkStrategy \<Rightarrow> string" where
  "NetworkStrategy_String s =
     (if s = 0 then ''default'' else if s = 1 then ''fallback'' else if s = 2 then ''hybrid''
      else strconv_FormatUint (unat s))"

definition RouteOptions_Descriptions :: "action_env \<Rightarrow> RuleActionRouteOptions \<Rightarrow> string list" where
  "RouteOptions_Descriptions ae r =
     (if ae_SocksaddrIsValid ae (act_OverrideAddress r)
      then [''override-address='' @ ae_AddrString ae (act_OverrideAddress r)] else []) @
     (if act_OverridePort r > 0 then [''override-port='' @ strconv_FormatUint (unat (act_OverridePort r))] else []) @
     (case act_NetworkStrategy r of None \<Rightarrow> []
      | Some st \<Rightarrow> [''network-strategy='' @ NetworkStrategy_String st]) @
     (case act_NetworkType r of None \<Rightarrow> []
      | Some ts \<Rightarrow> [''network-type='' @ strings_Join (map InterfaceType_String ts) '','']) @
     (case act_FallbackNetworkType r of None \<Rightarrow> []
      | Some ts \<Rightarrow> [''fallback-network-type='' @ strings_Join (map InterfaceType_String ts) '','']) @
     (if act_FallbackDelay r > 0
      then [''fallback-delay='' @ ae_DurationString ae (act_FallbackDelay r)] else []) @
     (if act_UDPDisableDomainUnmapping r then [''udp-disable-domain-unmapping''] else []) @
     (if act_UDPConnect r then [''udp-connect''] else []) @
     (if act_UDPTimeout r > 0 then [''udp-timeout''] else []) @
     (if act_TLSFragment r then [''tls-fragment''] else []) @
     (if act_TLSFragmentFallbackDelay r > 0
      then [''tls-fragment-fallback-delay='' @ ae_DurationString ae (act_TLSFragmentFallbackDelay r)] else []) @
     (if act_TLSRecordFragment r then [''tls-record-fragment''] else []) @
     (if act_TLSSpoof r \<noteq> []
      then [''tls-spoof='' @ act_TLSSpoof r, ''tls-spoof-method='' @ Method_String (act_TLSSpoofMethod r)]
      else [])"

definition dns_option_descriptions ::
    "rule_env \<Rightarrow> action_env \<Rightarrow> RuleActionDNSRouteOptions \<Rightarrow> string list" where
  "dns_option_descriptions env ae o' =
     (if dns_DisableCache o' then [''disable-cache''] else []) @
     (if dns_DisableOptimisticCache o' then [''disable-optimistic-cache''] else []) @
     (case dns_RewriteTTL o' of None \<Rightarrow> [] | Some ttl \<Rightarrow> [''rewrite-ttl='' @ strconv_FormatUint (unat ttl)]) @
     (if dns_Timeout o' > 0 then [''timeout='' @ ae_DurationString ae (dns_Timeout o')] else []) @
     (if prefix_IsValid (dns_ClientSubnet o')
      then [''client-subnet='' @ env_PrefixString env (dns_ClientSubnet o')] else []) @
     (if dns_RemoveClientSubnet o' then [''remove-client-subnet''] else [])"

definition formatDNSRouteAction ::
    "rule_env \<Rightarrow> action_env \<Rightarrow> string \<Rightarrow> string \<Rightarrow> bool \<Rightarrow> RuleActionDNSRouteOptions \<Rightarrow> string" where
  "formatDNSRouteAction env ae action server speculative options =
     action @ ''('' @
     strings_Join ([server] @ (if speculative then [''speculative''] else []) @
       dns_option_descriptions env ae options) '','' @ '')''"

definition Sniff_String :: "action_env \<Rightarrow> RuleActionSniff \<Rightarrow> string" where
  "Sniff_String ae r =
     (if length (SnifferNames_of r) = 0 \<and> Sniff_Timeout r = 0 then ''sniff''
      else if length (SnifferNames_of r) > 0 \<and> Sniff_Timeout r = 0
      then ''sniff('' @ strings_Join (SnifferNames_of r) '','' @ '')''
      else if length (SnifferNames_of r) = 0 \<and> Sniff_Timeout r > 0
      then ''sniff('' @ ae_DurationString ae (Sniff_Timeout r) @ '')''
      else ''sniff('' @ strings_Join (SnifferNames_of r) '','' @ '','' @
             ae_DurationString ae (Sniff_Timeout r) @ '')'')"

definition rr_strings :: "rule_env \<Rightarrow> RR option list \<Rightarrow> string list result" where
  "rr_strings env rs = res_mapM (\<lambda>r. case r of None \<Rightarrow> Inl (EPanic ''nil pointer dereference'')
     | Some rr \<Rightarrow> Inr (env_RRString env rr)) rs"

definition RuleActionRoute_String :: "action_env \<Rightarrow> string \<Rightarrow> RuleActionRouteOptions \<Rightarrow> string" where
  "RuleActionRoute_String ae outbound r =
     ''route('' @ strings_Join ([outbound] @ RouteOptions_Descriptions ae r) '','' @ '')''"

definition RuleActionBypass_String :: "action_env \<Rightarrow> string \<Rightarrow> RuleActionRouteOptions \<Rightarrow> string" where
  "RuleActionBypass_String ae outbound r =
     (if outbound = [] then ''bypass()''
      else ''bypass('' @ strings_Join ([outbound] @ RouteOptions_Descriptions ae r) '','' @ '')'')"

definition RuleActionRouteOptions_String :: "action_env \<Rightarrow> RuleActionRouteOptions \<Rightarrow> string" where
  "RuleActionRouteOptions_String ae r = ''route-options('' @ strings_Join (RouteOptions_Descriptions ae r) '','' @ '')''"

definition RuleActionReject_String :: "string \<Rightarrow> string" where
  "RuleActionReject_String method = (if method = ''default'' then ''reject'' else ''reject('' @ method @ '')'')"

definition RuleActionResolve_String ::
    "rule_env \<Rightarrow> action_env \<Rightarrow> string \<Rightarrow> duration \<Rightarrow> DomainStrategy \<Rightarrow> bool \<Rightarrow> bool \<Rightarrow> u32 option \<Rightarrow> Prefix \<Rightarrow> string result" where
  "RuleActionResolve_String env ae server timeout strategy dc doc ttl subnet =
     res_bind (if strategy \<noteq> 0 then res_bind (DomainStrategy_String strategy) (\<lambda>s. Inr [s]) else Inr [])
       (\<lambda>strategies.
         let options =
           (if server \<noteq> [] then [server] else []) @ strategies @
           (if dc then [''disable_cache''] else []) @
           (if doc then [''disable_optimistic_cache''] else []) @
           (case ttl of None \<Rightarrow> [] | Some t \<Rightarrow> [''rewrite_ttl='' @ strconv_FormatUint (unat t)]) @
           (if timeout > 0 then [''timeout='' @ ae_DurationString ae timeout] else []) @
           (if prefix_IsValid subnet then [''client_subnet='' @ env_PrefixString env subnet] else [])
         in Inr (if options = [] then ''resolve'' else ''resolve('' @ strings_Join options '','' @ '')''))"

definition RuleActionPredefined_String ::
    "rule_env \<Rightarrow> int \<Rightarrow> RR option list \<Rightarrow> RR option list \<Rightarrow> RR option list \<Rightarrow> string result" where
  "RuleActionPredefined_String env rcode answer ns extra =
     res_bind (rr_strings env answer) (\<lambda>a.
     res_bind (rr_strings env ns) (\<lambda>n.
     res_bind (rr_strings env extra) (\<lambda>e.
       Inr (''predefined('' @ strings_Join ([env_RcodeToString env rcode] @ a @ n @ e) '','' @ '')''))))"

text \<open>The method \<open>String\<close> of the interface \<open>adapter.RuleAction\<close>.\<close>

fun action_String :: "rule_env \<Rightarrow> action_env \<Rightarrow> RuleAction \<Rightarrow> string result" where
  "action_String env ae (RuleActionRoute outbound r) = Inr (RuleActionRoute_String ae outbound r)"
| "action_String env ae (RuleActionBypass outbound r) = Inr (RuleActionBypass_String ae outbound r)"
| "action_String env ae (RuleActionRouteOpts r) = Inr (RuleActionRouteOptions_String ae r)"
| "action_String env ae (RuleActionDNSRoute server speculative o') =
     Inr (formatDNSRouteAction env ae ''route'' server speculative o')"
| "action_String env ae (RuleActionEvaluate server _ speculative o') =
     Inr (formatDNSRouteAction env ae ''evaluate'' server speculative o')"
| "action_String env ae RuleActionRespond = Inr ''respond''"
| "action_String env ae (RuleActionDNSRouteOpts o') =
     Inr (''route-options('' @ strings_Join (dns_option_descriptions env ae o') '','' @ '')'')"
| "action_String env ae (RuleActionDirect description) = Inr (''direct'' @ description)"
| "action_String env ae (RuleActionReject method _) = Inr (RuleActionReject_String method)"
| "action_String env ae RuleActionHijackDNS = Inr ''hijack-dns''"
| "action_String env ae (RuleActionSniffAct r) = Inr (Sniff_String ae r)"
| "action_String env ae (RuleActionResolve server timeout strategy dc doc ttl subnet) =
     RuleActionResolve_String env ae server timeout strategy dc doc ttl subnet"
| "action_String env ae (RuleActionPredefined rcode answer ns extra) =
     RuleActionPredefined_String env rcode answer ns extra"

subsection \<open>The reject action\<close>

text \<open>
  \<open>RuleActionReject.Error\<close> returns the error of a rejected connection and the new drop counter.
  Times are nanoseconds. The counter keeps the times of the rejections of the last thirty seconds.
\<close>

datatype reject_error = ErrReset | ErrDrop

definition second :: duration where
  "second = 1000000000"

definition RuleActionReject_Error ::
    "string \<Rightarrow> bool \<Rightarrow> duration \<Rightarrow> duration list \<Rightarrow> reject_error option result \<times> duration list" where
  "RuleActionReject_Error method noDrop timeNow dropCounter =
     (if method = ''drop'' then (Inr (Some ErrDrop), dropCounter)
      else if method = ''reply'' then (Inr None, dropCounter)
      else if method \<noteq> ''default'' then (Inl (EPanic (''unknown reject method: '' @ method)), dropCounter)
      else if noDrop then (Inr (Some ErrReset), dropCounter)
      else
        let kept = filter (\<lambda>t. timeNow - t \<le> 30 * second) dropCounter;
            counter = kept @ [timeNow]
        in (Inr (Some (if length counter > 50 then ErrDrop else ErrReset)), counter))"

text \<open>A run of rejections at the given times, from an empty counter: the results in order.\<close>

fun reject_run :: "duration list \<Rightarrow> duration list \<Rightarrow> reject_error option result list \<times> duration list" where
  "reject_run [] counter = ([], counter)"
| "reject_run (t # ts) counter =
     (let (r, counter') = RuleActionReject_Error ''default'' False t counter;
          (rs, counter'') = reject_run ts counter'
      in (r # rs, counter''))"

subsection \<open>Predefined responses\<close>

definition strings_HasSuffix :: "string \<Rightarrow> string \<Rightarrow> bool" where
  "strings_HasSuffix s p \<longleftrightarrow> length p \<le> length s \<and> drop (length s - length p) s = p"

record dns_question =
  q_Name :: string
  q_Qtype :: u16
  q_Qclass :: u16

record dns_request =
  req_Id :: u16
  req_Question :: "dns_question list"

record dns_response =
  resp_Id :: u16
  resp_Response :: bool
  resp_Authoritative :: bool
  resp_RecursionDesired :: bool
  resp_RecursionAvailable :: bool
  resp_Question :: "dns_question list"
  resp_Msg :: dnsMsg

definition rewriteRecord :: "dns_question \<Rightarrow> RR option \<Rightarrow> RR result" where
  "rewriteRecord question it =
     (case it of
        None \<Rightarrow> Inl (EPanic ''nil pointer dereference'')
      | Some (RR name data) \<Rightarrow>
          Inr (if strings_HasPrefix name ''*'' \<and> strings_HasSuffix (q_Name question) (tl name)
               then RR (q_Name question) data else RR name data))"

definition rewriteRecords :: "RR option list \<Rightarrow> dns_question \<Rightarrow> RR list result" where
  "rewriteRecords records question = res_mapM (rewriteRecord question) records"

definition RuleActionPredefined_Response ::
    "int \<Rightarrow> RR option list \<Rightarrow> RR option list \<Rightarrow> RR option list \<Rightarrow> dns_request \<Rightarrow> dns_response result" where
  "RuleActionPredefined_Response rcode answer ns extra request =
     (case req_Question request of
        [] \<Rightarrow> Inl (EPanic ''index out of range'')
      | question # _ \<Rightarrow>
          res_bind (rewriteRecords answer question) (\<lambda>a.
          res_bind (rewriteRecords ns question) (\<lambda>n.
          res_bind (rewriteRecords extra question) (\<lambda>e.
            Inr \<lparr>resp_Id = req_Id request, resp_Response = True, resp_Authoritative = True,
                 resp_RecursionDesired = True, resp_RecursionAvailable = True,
                 resp_Question = req_Question request,
                 resp_Msg = \<lparr>Rcode = rcode, Answer = a, Ns = n, Extra = e\<rparr>\<rparr>))))"

subsection \<open>Lemmas\<close>

lemma ParseMethod_Inr_iff:
  "ParseMethod s = Inr m \<longleftrightarrow> m \<in> {0, 1, 2, 3, 4} \<and> (s = Method_String m \<or> s = [] \<and> m = 0)"
  by (auto simp: ParseMethod_def Method_String_def Method_defs)

lemma NewRuleAction_Type:
  "NewRuleAction ae a = Inr (Some act) \<Longrightarrow> action_Type act = ra_Action a"
  by (auto simp: NewRuleAction_def res_bind_Inr_iff Let_def split: if_splits)

lemma NewDNSRuleAction_Type:
  "NewDNSRuleAction a = Inr (Some act) \<Longrightarrow> action_Type act = da_Action a"
  by (auto simp: NewDNSRuleAction_def Let_def split: if_splits)

lemma sniff_build_loop_Inr_iff:
  "sniff_build_loop names r = Inr r' \<longleftrightarrow>
     (\<exists>ps. res_mapM sniffers_of names = Inr ps \<and>
           r' = r\<lparr>StreamSniffers := StreamSniffers r @ concat (map fst ps),
                  PacketSniffers := PacketSniffers r @ concat (map snd ps)\<rparr>)"
proof (induction names arbitrary: r)
  case (Cons name names)
  show ?case
  proof (cases "sniffers_of name")
    case (Inr p)
    then show ?thesis
      by (cases "res_mapM sniffers_of names"; cases p) (auto simp: Cons.IH simp del: sniffers_of.simps)
  qed (simp del: sniffers_of.simps)
qed auto

text \<open>Counting the rejections of the last thirty seconds.\<close>

abbreviation recent :: "duration \<Rightarrow> duration list \<Rightarrow> duration list" where
  "recent now ts \<equiv> filter (\<lambda>t. now - t \<le> 30 * second) ts"

lemma reject_default:
  "RuleActionReject_Error ''default'' False now c =
     (Inr (Some (if length (recent now c) < 50 then ErrReset else ErrDrop)), recent now c @ [now])"
  by (simp add: RuleActionReject_Error_def Let_def)

lemma recent_recent: "t \<le> now \<Longrightarrow> recent now (recent t ts) = recent now ts"
  by (auto intro!: filter_cong)

lemma second_pos: "0 \<le> second"
  by (simp add: second_def)

text \<open>
  The counter after a run is exactly the recent part of the history, so the decision at every step
  depends only on how many rejections fell into the window.
\<close>

lemma reject_run_append:
  "reject_run (ts @ us) c =
     (let (rs, c') = reject_run ts c; (rs', c'') = reject_run us c' in (rs @ rs', c''))"
  by (induction ts arbitrary: c) (auto simp: Let_def split: prod.splits)

lemma reject_run_counter:
  assumes "sorted (ts @ [t])"
  shows "snd (reject_run (ts @ [t]) []) = recent t (ts @ [t])"
  using assms
proof (induction ts arbitrary: t rule: rev_induct)
  case Nil
  then show ?case using second_pos by (simp add: reject_default)
next
  case (snoc u ts)
  have "snd (reject_run (ts @ [u]) []) = recent u (ts @ [u])"
    using snoc by (simp add: sorted_append)
  moreover have "u \<le> t" using snoc.prems by (simp add: sorted_append)
  moreover have "recent t (ts @ [u, t]) = recent t (ts @ [u]) @ [t]" using second_pos by simp
  ultimately show ?case
    by (subst reject_run_append)
      (auto simp: reject_default recent_recent[of u t "ts @ [u]"] simp del: filter_append filter_filter split: prod.splits)
qed

lemma reject_run_last:
  assumes "sorted (ts @ [t])"
  shows "last (fst (reject_run (ts @ [t]) [])) =
           Inr (Some (if length (recent t ts) < 50 then ErrReset else ErrDrop))"
proof (cases ts rule: rev_cases)
  case Nil
  then show ?thesis by (simp add: reject_default)
next
  case (snoc us u)
  have s: "sorted (us @ [u])" and "u \<le> t" using assms snoc by (auto simp: sorted_append)
  have "snd (reject_run ts []) = recent u ts" using reject_run_counter[OF s] snoc by simp
  then show ?thesis
    using \<open>u \<le> t\<close> by (subst reject_run_append)
      (auto simp: reject_default recent_recent simp del: filter_filter split: prod.splits)
qed

lemma rewriteRecords_Inr_iff:
  "rewriteRecords rs q = Inr xs \<longleftrightarrow>
     None \<notin> set rs \<and> xs = map (\<lambda>r. projr (rewriteRecord q r)) rs"
proof (induction rs arbitrary: xs)
  case (Cons r rs)
  then show ?case
    by (cases r) (auto simp: rewriteRecords_def rewriteRecord_def res_bind_Inr_iff split: RR.splits)
qed (auto simp: rewriteRecords_def)

end
