(* ===== verification/RuleMatch.thy ===== *)
theory RuleMatch
  imports RuleActions
begin

text \<open>
  The rule engine (\<open>route/rule/match_state.go\<close>, \<open>rule_abstract.go\<close>, \<open>rule_item_rule_set.go\<close>, the
  matching methods of \<open>rule_set_local.go\<close>/\<open>rule_set_remote.go\<close> and of \<open>rule_dns.go\<close>). A rule is a
  value of \<open>Rule\<close>, one constructor per Go struct; the embedded \<open>abstractDefaultRule\<close> is a record.

  A \<open>Match\<close> method mutates the metadata it is given, so it is a function from a context to a result
  and a context. The rule sets a rule refers to are reached through the interface record
  \<open>RuleSetI\<close> (the methods \<open>Match\<close>, \<open>mergeableRule\<close> and \<open>Metadata\<close>), a function of their tags. The
  rules of a rule set are headless rules, which never refer to rule sets themselves.
\<close>

subsection \<open>Group states\<close>

type_synonym ruleMatchState = u8

definition ruleMatchSourceAddress :: ruleMatchState where "ruleMatchSourceAddress = 1"
definition ruleMatchSourcePort :: ruleMatchState where "ruleMatchSourcePort = 2"
definition ruleMatchDestinationAddress :: ruleMatchState where "ruleMatchDestinationAddress = 4"
definition ruleMatchDestinationPort :: ruleMatchState where "ruleMatchDestinationPort = 8"

definition and_not :: "u8 \<Rightarrow> u8 \<Rightarrow> u8" where
  "and_not a b = a AND NOT b"

definition state_has :: "ruleMatchState \<Rightarrow> ruleMatchState \<Rightarrow> bool" where
  "state_has s target \<longleftrightarrow> s AND target \<noteq> 0"

record ruleGroupMatch =
  required :: ruleMatchState
  satisfied :: ruleMatchState

definition group_done :: "ruleGroupMatch \<Rightarrow> bool" where
  "group_done g \<longleftrightarrow> and_not (required g) (satisfied g) = 0"

definition mergeWith :: "ruleGroupMatch \<Rightarrow> ruleGroupMatch \<Rightarrow> ruleGroupMatch" where
  "mergeWith g other =
     \<lparr>required = required g OR required other, satisfied = satisfied g OR satisfied other\<rparr>"

record ruleMatchSnapshot =
  snap_ipCidrMatchSource :: bool
  snap_ipCidrAcceptEmpty :: bool
  snap_deferredIPCIDRMatchGroups :: u8

definition snapshotRuleMatch :: "InboundContext \<Rightarrow> ruleMatchSnapshot" where
  "snapshotRuleMatch metadata =
     \<lparr>snap_ipCidrMatchSource = IPCIDRMatchSource metadata,
      snap_ipCidrAcceptEmpty = IPCIDRAcceptEmpty metadata,
      snap_deferredIPCIDRMatchGroups = DeferredIPCIDRMatchGroups metadata\<rparr>"

definition restore :: "ruleMatchSnapshot \<Rightarrow> InboundContext \<Rightarrow> InboundContext" where
  "restore s metadata =
     metadata\<lparr>IPCIDRMatchSource := snap_ipCidrMatchSource s,
              IPCIDRAcceptEmpty := snap_ipCidrAcceptEmpty s,
              DeferredIPCIDRMatchGroups := snap_deferredIPCIDRMatchGroups s\<rparr>"

subsection \<open>Rules\<close>

type_synonym ctx_matcher = "InboundContext \<Rightarrow> bool \<times> InboundContext"

record RuleSetItem =
  tagList :: "string list"
  setList :: "string list"
  ipCidrMatchSource :: bool
  ipCidrAcceptEmpty :: bool

text \<open>\<open>allItems\<close> lists the items of all groups and the rule-set item.\<close>

datatype item_ref = ItemRef RuleItem | RuleSetItemRef

record abstractDefaultRule =
  items :: "RuleItem list"
  sourceAddressItems :: "RuleItem list"
  sourcePortItems :: "RuleItem list"
  destinationAddressItems :: "RuleItem list"
  destinationIPCIDRItems :: "RuleItem list"
  destinationPortItems :: "RuleItem list"
  allItems :: "item_ref list"
  ruleSetItem :: "RuleSetItem option"
  invert :: bool
  action :: "RuleAction option"

datatype (plugins only: size) Rule =
    DefaultHeadlessRule abstractDefaultRule
  | LogicalHeadlessRule "Rule list" string bool
  | DefaultRule abstractDefaultRule
  | LogicalRule "Rule list" string bool "RuleAction option"
  | DefaultDNSRule abstractDefaultRule bool string bool
  | LogicalDNSRule "Rule list" string bool "RuleAction option" "string list" bool bool

record RuleSetMetadata =
  ContainsProcessRule :: bool
  ContainsWIFIRule :: bool
  ContainsIPCIDRRule :: bool
  ContainsDNSQueryTypeRule :: bool
  ContainsNonIPCIDRRule :: bool

record RuleSetI =
  rs_Match :: ctx_matcher
  rs_mergeableRule :: "abstractDefaultRule option"
  rs_Metadata :: RuleSetMetadata

subsection \<open>Default rules\<close>

definition matchAnyItem :: "rule_env \<Rightarrow> RuleItem list \<Rightarrow> InboundContext \<Rightarrow> bool" where
  "matchAnyItem env its metadata = list_ex (\<lambda>it. item_Match env it metadata) its"

definition destinationIPCIDRMatchesSource :: "abstractDefaultRule \<Rightarrow> InboundContext \<Rightarrow> bool" where
  "destinationIPCIDRMatchesSource r metadata \<longleftrightarrow>
     IPCIDRMatchSource metadata \<and> length (destinationIPCIDRItems r) > 0"

definition destinationIPCIDRMatchesDestination :: "abstractDefaultRule \<Rightarrow> InboundContext \<Rightarrow> bool" where
  "destinationIPCIDRMatchesDestination r metadata \<longleftrightarrow>
     \<not> IgnoreDestinationIPCIDRMatch metadata \<and> \<not> IPCIDRMatchSource metadata \<and>
     length (destinationIPCIDRItems r) > 0"

text \<open>
  One step of \<open>evaluateGroups\<close>: when the condition of a group holds, the group is required, and it
  is satisfied when the match succeeds.
\<close>

definition group_step :: "bool \<Rightarrow> ruleMatchState \<Rightarrow> (ruleGroupMatch \<Rightarrow> bool) \<Rightarrow> ruleGroupMatch \<Rightarrow> ruleGroupMatch" where
  "group_step cond grp matched g =
     (if cond then
        let g' = g\<lparr>required := required g OR grp\<rparr> in
        if matched g' then g'\<lparr>satisfied := satisfied g' OR grp\<rparr> else g'
      else g)"

definition evaluateGroups ::
    "rule_env \<Rightarrow> abstractDefaultRule \<Rightarrow> InboundContext \<Rightarrow> ruleGroupMatch \<times> InboundContext" where
  "evaluateGroups env r metadata =
     (let g0 = \<lparr>required = 0, satisfied = 0\<rparr>;
          g1 = group_step (length (sourceAddressItems r) > 0) ruleMatchSourceAddress
                 (\<lambda>_. matchAnyItem env (sourceAddressItems r) metadata) g0;
          g2 = group_step (destinationIPCIDRMatchesSource r metadata) ruleMatchSourceAddress
                 (\<lambda>g. \<not> state_has (satisfied g) ruleMatchSourceAddress \<and>
                      matchAnyItem env (destinationIPCIDRItems r) metadata) g1;
          g3 = group_step (length (sourcePortItems r) > 0) ruleMatchSourcePort
                 (\<lambda>_. matchAnyItem env (sourcePortItems r) metadata) g2;
          g4 = group_step (length (destinationAddressItems r) > 0) ruleMatchDestinationAddress
                 (\<lambda>_. matchAnyItem env (destinationAddressItems r) metadata) g3;
          g5 = group_step (destinationIPCIDRMatchesDestination r metadata) ruleMatchDestinationAddress
                 (\<lambda>g. \<not> state_has (satisfied g) ruleMatchDestinationAddress \<and>
                      matchAnyItem env (destinationIPCIDRItems r) metadata) g4;
          g6 = group_step (length (destinationPortItems r) > 0) ruleMatchDestinationPort
                 (\<lambda>_. matchAnyItem env (destinationPortItems r) metadata) g5
      in (g6,
          if IgnoreDestinationIPCIDRMatch metadata \<and> \<not> IPCIDRMatchSource metadata \<and>
             length (destinationIPCIDRItems r) > 0 \<and> length (destinationAddressItems r) = 0
          then metadata\<lparr>DeferredIPCIDRMatchGroups :=
                 DeferredIPCIDRMatchGroups metadata OR ruleMatchDestinationAddress\<rparr>
          else metadata))"

definition evaluateForMerge ::
    "rule_env \<Rightarrow> abstractDefaultRule \<Rightarrow> InboundContext \<Rightarrow> (ruleGroupMatch \<times> bool) \<times> InboundContext" where
  "evaluateForMerge env r metadata =
     (let (groups, metadata') = evaluateGroups env r metadata in
      if list_ex (\<lambda>item. \<not> item_Match env item metadata') (items r)
      then ((\<lparr>required = 0, satisfied = 0\<rparr>, False), metadata')
      else ((groups, True), metadata'))"

subsection \<open>Rule-set items\<close>

definition prepareNestedMatch :: "RuleSetItem \<Rightarrow> InboundContext \<Rightarrow> InboundContext" where
  "prepareNestedMatch r metadata =
     (ResetRuleMatchCache metadata)\<lparr>IPCIDRMatchSource := ipCidrMatchSource r,
                                    IPCIDRAcceptEmpty := ipCidrAcceptEmpty r\<rparr>"

fun RuleSetItem_Match_loop ::
    "(string \<Rightarrow> RuleSetI) \<Rightarrow> RuleSetItem \<Rightarrow> ruleMatchSnapshot \<Rightarrow> string list \<Rightarrow> ctx_matcher" where
  "RuleSetItem_Match_loop sets r snapshot [] metadata = (False, restore snapshot metadata)"
| "RuleSetItem_Match_loop sets r snapshot (ruleSet # rest) metadata =
     (let (matched, metadata') = rs_Match (sets ruleSet) (prepareNestedMatch r metadata) in
      if matched then (True, restore snapshot metadata')
      else RuleSetItem_Match_loop sets r snapshot rest metadata')"

definition RuleSetItem_Match :: "(string \<Rightarrow> RuleSetI) \<Rightarrow> RuleSetItem \<Rightarrow> ctx_matcher" where
  "RuleSetItem_Match sets r metadata =
     RuleSetItem_Match_loop sets r (snapshotRuleMatch metadata) (setList r) metadata"

definition finish_nested ::
    "ruleMatchSnapshot \<Rightarrow> bool \<Rightarrow> u8 \<Rightarrow> InboundContext \<Rightarrow> bool \<times> InboundContext" where
  "finish_nested snapshot matched deferredGroups metadata =
     (let metadata' = restore snapshot metadata in
      (matched,
       if matched
       then metadata'\<lparr>DeferredIPCIDRMatchGroups := DeferredIPCIDRMatchGroups metadata' OR deferredGroups\<rparr>
       else metadata'))"

fun outer_groups_loop ::
    "rule_env \<Rightarrow> (string \<Rightarrow> RuleSetI) \<Rightarrow> RuleSetItem \<Rightarrow> ruleGroupMatch \<Rightarrow> ruleMatchSnapshot \<Rightarrow>
     string list \<Rightarrow> bool \<Rightarrow> u8 \<Rightarrow> ctx_matcher" where
  "outer_groups_loop env sets r outerGroups snapshot [] matched deferredGroups metadata =
     finish_nested snapshot matched deferredGroups metadata"
| "outer_groups_loop env sets r outerGroups snapshot (ruleSet # rest) matched deferredGroups metadata =
     (let md = prepareNestedMatch r metadata in
      case rs_mergeableRule (sets ruleSet) of
        Some branch \<Rightarrow>
          (let ((branchGroups, branchMatched), md1) = evaluateForMerge env branch md;
               merged = mergeWith outerGroups branchGroups;
               branchDeferredGroups = and_not (DeferredIPCIDRMatchGroups md1) (satisfied merged)
           in if branchMatched \<and> group_done merged then
                if branchDeferredGroups = 0 then
                  (let md2 = restore snapshot md1 in
                   (True, md2\<lparr>DeferredIPCIDRMatchGroups :=
                            and_not (DeferredIPCIDRMatchGroups md2) (satisfied merged)\<rparr>))
                else outer_groups_loop env sets r outerGroups snapshot rest True
                       (deferredGroups OR branchDeferredGroups) md1
              else outer_groups_loop env sets r outerGroups snapshot rest matched deferredGroups md1)
      | None \<Rightarrow>
          if group_done outerGroups then
            (let (m, md1) = rs_Match (sets ruleSet) md in
             if m then
               if DeferredIPCIDRMatchGroups md1 = 0 then (True, restore snapshot md1)
               else outer_groups_loop env sets r outerGroups snapshot rest True
                      (deferredGroups OR DeferredIPCIDRMatchGroups md1) md1
             else outer_groups_loop env sets r outerGroups snapshot rest matched deferredGroups md1)
          else outer_groups_loop env sets r outerGroups snapshot rest matched deferredGroups md)"

definition matchWithOuterGroups ::
    "rule_env \<Rightarrow> (string \<Rightarrow> RuleSetI) \<Rightarrow> RuleSetItem \<Rightarrow> ruleGroupMatch \<Rightarrow> ctx_matcher" where
  "matchWithOuterGroups env sets r outerGroups metadata =
     outer_groups_loop env sets r outerGroups (snapshotRuleMatch metadata) (setList r) False 0 metadata"

definition ContainsDestinationIPCIDRRule :: "(string \<Rightarrow> RuleSetI) \<Rightarrow> RuleSetItem \<Rightarrow> bool" where
  "ContainsDestinationIPCIDRRule sets r =
     (if ipCidrMatchSource r then False
      else list_ex (\<lambda>ruleSet. ContainsIPCIDRRule (rs_Metadata (sets ruleSet))) (setList r))"

definition NewRuleSetItem :: "string list \<Rightarrow> bool \<Rightarrow> bool \<Rightarrow> RuleSetItem" where
  "NewRuleSetItem tags matchSource acceptEmpty =
     \<lparr>tagList = tags, setList = [], ipCidrMatchSource = matchSource, ipCidrAcceptEmpty = acceptEmpty\<rparr>"

definition RuleSetItem_String :: "RuleSetItem \<Rightarrow> string" where
  "RuleSetItem_String r = describe_list ''rule_set='' (tagList r)"

subsection \<open>Matching a default rule\<close>

definition matchInner :: "rule_env \<Rightarrow> (string \<Rightarrow> RuleSetI) \<Rightarrow> abstractDefaultRule \<Rightarrow> ctx_matcher" where
  "matchInner env sets r metadata =
     (let (groups, md) = evaluateGroups env r metadata in
      if list_ex (\<lambda>item. \<not> item_Match env item md) (items r) then (False, md)
      else
        let (matched, md') =
          (case ruleSetItem r of
             Some item \<Rightarrow> matchWithOuterGroups env sets item groups md
           | None \<Rightarrow> (group_done groups, md))
        in (matched,
            if matched
            then md'\<lparr>DeferredIPCIDRMatchGroups :=
                   and_not (DeferredIPCIDRMatchGroups md') (satisfied groups)\<rparr>
            else md'))"

definition abstractDefaultRule_Match ::
    "rule_env \<Rightarrow> (string \<Rightarrow> RuleSetI) \<Rightarrow> abstractDefaultRule \<Rightarrow> ctx_matcher" where
  "abstractDefaultRule_Match env sets r metadata =
     (if length (allItems r) = 0 then (True, metadata)
      else
        let (matched, md) = matchInner env sets r metadata in
        if invert r then
          if \<not> matched then (True, md\<lparr>DeferredIPCIDRMatchGroups := 0\<rparr>)
          else (DeferredIPCIDRMatchGroups md \<noteq> 0, md)
        else (matched, md))"

subsection \<open>Logical rules\<close>

fun logical_and_loop :: "ctx_matcher list \<Rightarrow> u8 \<Rightarrow> InboundContext \<Rightarrow> (bool \<times> u8) \<times> InboundContext" where
  "logical_and_loop [] deferredGroups metadata = ((True, deferredGroups), metadata)"
| "logical_and_loop (rule # rules) deferredGroups metadata =
     (let (m, md) = rule (ResetRuleCache metadata) in
      if \<not> m then ((False, 0), md)
      else logical_and_loop rules (deferredGroups OR DeferredIPCIDRMatchGroups md) md)"

fun logical_or_loop ::
    "ctx_matcher list \<Rightarrow> bool \<Rightarrow> u8 \<Rightarrow> InboundContext \<Rightarrow> (bool \<times> u8) \<times> InboundContext" where
  "logical_or_loop [] matched deferredGroups metadata = ((matched, deferredGroups), metadata)"
| "logical_or_loop (rule # rules) matched deferredGroups metadata =
     (let (m, md) = rule (ResetRuleCache metadata) in
      if m then
        if DeferredIPCIDRMatchGroups md = 0 then ((True, 0), md)
        else logical_or_loop rules True (deferredGroups OR DeferredIPCIDRMatchGroups md) md
      else logical_or_loop rules matched deferredGroups md)"

definition abstractLogicalRule_Match :: "ctx_matcher list \<Rightarrow> string \<Rightarrow> bool \<Rightarrow> ctx_matcher" where
  "abstractLogicalRule_Match rules mode invert' metadata =
     (let snapshot = snapshotRuleMatch metadata;
          ((matched, deferredGroups), md) =
            (if mode = ''and'' then logical_and_loop rules 0 metadata
             else logical_or_loop rules False 0 metadata);
          md1 = snd (finish_nested snapshot matched deferredGroups md)
      in (if invert' then (if \<not> matched then True else deferredGroups \<noteq> 0) else matched, md1))"

subsection \<open>DNS rules and the dispatch of \<open>Match\<close>\<close>

text \<open>
  A DNS rule with \<open>match_response\<close> works on a copy of the metadata: what the match changes there is
  dropped.
\<close>

definition matchForMatch ::
    "rule_env \<Rightarrow> (string \<Rightarrow> RuleSetI) \<Rightarrow> abstractDefaultRule \<Rightarrow> bool \<Rightarrow> string \<Rightarrow> ctx_matcher" where
  "matchForMatch env sets r matchResponse matchResponseTag metadata =
     (if matchResponse then
        let response = (if matchResponseTag \<noteq> [] then map_of (NamedDNSResponses metadata) matchResponseTag
                        else DNSResponse metadata) in
        (case response of
           None \<Rightarrow> (invert r, metadata)
         | Some _ \<Rightarrow>
             (fst (abstractDefaultRule_Match env sets r
                (metadata\<lparr>DNSResponse := response, DestinationAddressMatchFromResponse := True\<rparr>)),
              metadata))
      else abstractDefaultRule_Match env sets r metadata)"

fun rule_Match :: "rule_env \<Rightarrow> (string \<Rightarrow> RuleSetI) \<Rightarrow> Rule \<Rightarrow> ctx_matcher" where
  "rule_Match env sets (DefaultHeadlessRule r) metadata = abstractDefaultRule_Match env sets r metadata"
| "rule_Match env sets (LogicalHeadlessRule rules mode invert') metadata =
     abstractLogicalRule_Match (map (\<lambda>rule md. rule_Match env sets rule md) rules) mode invert' metadata"
| "rule_Match env sets (DefaultRule r) metadata = abstractDefaultRule_Match env sets r metadata"
| "rule_Match env sets (LogicalRule rules mode invert' _) metadata =
     abstractLogicalRule_Match (map (\<lambda>rule md. rule_Match env sets rule md) rules) mode invert' metadata"
| "rule_Match env sets (DefaultDNSRule r matchResponse tag _) metadata =
     matchForMatch env sets r matchResponse tag metadata"
| "rule_Match env sets (LogicalDNSRule rules mode invert' _ _ _ _) metadata =
     abstractLogicalRule_Match (map (\<lambda>rule md. rule_Match env sets rule md) rules) mode invert' metadata"

subsection \<open>Rule sets\<close>

fun mergeableRuleIn :: "Rule list \<Rightarrow> abstractDefaultRule option" where
  "mergeableRuleIn [DefaultHeadlessRule rule] =
     (if invert rule \<or> ruleSetItem rule \<noteq> None then None else Some rule)"
| "mergeableRuleIn _ = None"

fun any_headless_loop :: "ctx_matcher list \<Rightarrow> ruleMatchSnapshot \<Rightarrow> bool \<Rightarrow> u8 \<Rightarrow> ctx_matcher" where
  "any_headless_loop [] snapshot matched deferredGroups metadata =
     finish_nested snapshot matched deferredGroups metadata"
| "any_headless_loop (rule # rules) snapshot matched deferredGroups metadata =
     (let (m, md) = rule (ResetRuleMatchCache metadata) in
      if m then
        if DeferredIPCIDRMatchGroups md = 0 then (True, restore snapshot md)
        else any_headless_loop rules snapshot True (deferredGroups OR DeferredIPCIDRMatchGroups md) md
      else any_headless_loop rules snapshot matched deferredGroups md)"

definition matchAnyHeadlessRule :: "ctx_matcher list \<Rightarrow> ctx_matcher" where
  "matchAnyHeadlessRule rules metadata =
     any_headless_loop rules (snapshotRuleMatch metadata) False 0 metadata"

text \<open>
  The state that local and remote rule sets share. \<open>RuleSet_iface\<close> is the interface value of a rule
  set in a given state, \<open>router_sets\<close> the rule sets of the router by tag. The rules of a set are
  headless rules and do not refer to rule sets, hence \<open>no_sets\<close> for them.
\<close>

record RuleSetState =
  rst_tag :: string
  rst_rules :: "Rule list"
  rst_metadata :: RuleSetMetadata
  rst_fileFormat :: string
  rst_callbacks :: "nat list"
  rst_refs :: int

definition no_metadata :: RuleSetMetadata where
  "no_metadata =
     \<lparr>ContainsProcessRule = False, ContainsWIFIRule = False, ContainsIPCIDRRule = False,
      ContainsDNSQueryTypeRule = False, ContainsNonIPCIDRRule = False\<rparr>"

definition no_sets :: "string \<Rightarrow> RuleSetI" where
  "no_sets tag = \<lparr>rs_Match = \<lambda>md. (False, md), rs_mergeableRule = None, rs_Metadata = no_metadata\<rparr>"

definition RuleSet_Match :: "rule_env \<Rightarrow> RuleSetState \<Rightarrow> ctx_matcher" where
  "RuleSet_Match env s metadata = matchAnyHeadlessRule (map (rule_Match env no_sets) (rst_rules s)) metadata"

definition RuleSet_mergeableRule :: "RuleSetState \<Rightarrow> abstractDefaultRule option" where
  "RuleSet_mergeableRule s = mergeableRuleIn (rst_rules s)"

definition RuleSet_iface :: "rule_env \<Rightarrow> RuleSetState \<Rightarrow> RuleSetI" where
  "RuleSet_iface env s =
     \<lparr>rs_Match = RuleSet_Match env s, rs_mergeableRule = RuleSet_mergeableRule s, rs_Metadata = rst_metadata s\<rparr>"

type_synonym rule_set_store = "string \<rightharpoonup> RuleSetState"

definition router_sets :: "rule_env \<Rightarrow> rule_set_store \<Rightarrow> string \<Rightarrow> RuleSetI" where
  "router_sets env store tag =
     (case store tag of None \<Rightarrow> no_sets tag | Some s \<Rightarrow> RuleSet_iface env s)"

subsection \<open>Descriptions\<close>

definition ref_String :: "rule_env \<Rightarrow> abstractDefaultRule \<Rightarrow> item_ref \<Rightarrow> string" where
  "ref_String env r ref =
     (case ref of
        ItemRef item \<Rightarrow> item_String env item
      | RuleSetItemRef \<Rightarrow> (case ruleSetItem r of None \<Rightarrow> [] | Some item \<Rightarrow> RuleSetItem_String item))"

definition abstractDefaultRule_String :: "rule_env \<Rightarrow> abstractDefaultRule \<Rightarrow> string" where
  "abstractDefaultRule_String env r =
     (let body = strings_Join (map (ref_String env r) (allItems r)) '' '' in
      if \<not> invert r then body else ''!('' @ body @ '')'')"

definition logical_op :: "string \<Rightarrow> string" where
  "logical_op mode = (if mode = ''and'' then ''&&'' else if mode = ''or'' then ''||'' else [])"

definition abstractLogicalRule_String :: "string list \<Rightarrow> string \<Rightarrow> bool \<Rightarrow> string" where
  "abstractLogicalRule_String rules mode invert' =
     (let body = strings_Join rules ('' '' @ logical_op mode @ '' '') in
      if \<not> invert' then body else ''!('' @ body @ '')'')"

fun rule_String :: "rule_env \<Rightarrow> Rule \<Rightarrow> string" where
  "rule_String env (DefaultHeadlessRule r) = abstractDefaultRule_String env r"
| "rule_String env (LogicalHeadlessRule rules mode invert') =
     abstractLogicalRule_String (map (rule_String env) rules) mode invert'"
| "rule_String env (DefaultRule r) = abstractDefaultRule_String env r"
| "rule_String env (LogicalRule rules mode invert' _) =
     abstractLogicalRule_String (map (rule_String env) rules) mode invert'"
| "rule_String env (DefaultDNSRule r _ _ _) = abstractDefaultRule_String env r"
| "rule_String env (LogicalDNSRule rules mode invert' _ _ _ _) =
     abstractLogicalRule_String (map (rule_String env) rules) mode invert'"

definition RuleSet_String :: "rule_env \<Rightarrow> RuleSetState \<Rightarrow> string" where
  "RuleSet_String env s = strings_Join (map (rule_String env) (rst_rules s)) '' ''"

fun rule_Type :: "Rule \<Rightarrow> string" where
  "rule_Type (DefaultHeadlessRule _) = ''default''"
| "rule_Type (LogicalHeadlessRule _ _ _) = ''logical''"
| "rule_Type (DefaultRule _) = ''default''"
| "rule_Type (LogicalRule _ _ _ _) = ''logical''"
| "rule_Type (DefaultDNSRule _ _ _ _) = ''default''"
| "rule_Type (LogicalDNSRule _ _ _ _ _ _ _) = ''logical''"

fun rule_Action :: "Rule \<Rightarrow> RuleAction option" where
  "rule_Action (DefaultHeadlessRule r) = action r"
| "rule_Action (LogicalHeadlessRule _ _ _) = None"
| "rule_Action (DefaultRule r) = action r"
| "rule_Action (LogicalRule _ _ _ a) = a"
| "rule_Action (DefaultDNSRule r _ _ _) = action r"
| "rule_Action (LogicalDNSRule _ _ _ a _ _ _) = a"

end
