(* ===== verification/RuleSemantics.thy ===== *)
theory RuleSemantics
  imports RuleMatch
begin

text \<open>
  The meaning of rule matching. A \<open>Match\<close> call leaves the metadata as it was up to the rule cache
  (the frame), so every sub-rule of a logical rule and every branch of a rule set sees the same
  connection.
\<close>

subsection \<open>Contexts up to the rule cache\<close>

definition match_frame :: "ctx_matcher \<Rightarrow> bool" where
  "match_frame m \<longleftrightarrow> (\<forall>md. ResetRuleMatchCache (snd (m md)) = ResetRuleMatchCache md)"

lemmas ctx_defs = ResetRuleCache_def ResetRuleMatchCache_def restore_def snapshotRuleMatch_def
  prepareNestedMatch_def

lemma ResetRuleMatchCache_idem [simp]:
  "ResetRuleMatchCache (ResetRuleMatchCache md) = ResetRuleMatchCache md"
  by (simp add: ctx_defs)

lemma ResetRuleCache_idem [simp]: "ResetRuleCache (ResetRuleCache md) = ResetRuleCache md"
  by (simp add: ctx_defs)

lemma ResetRuleMatchCache_deferred [simp]:
  "ResetRuleMatchCache (md\<lparr>DeferredIPCIDRMatchGroups := x\<rparr>) = ResetRuleMatchCache md"
  by (simp add: ctx_defs)

lemma Reset_restore_snapshot:
  "ResetRuleMatchCache (restore (snapshotRuleMatch md) x) =
     (ResetRuleCache x)\<lparr>IPCIDRMatchSource := IPCIDRMatchSource md, IPCIDRAcceptEmpty := IPCIDRAcceptEmpty md\<rparr>"
  by (simp add: ctx_defs)

lemma Reset_as_cache:
  "ResetRuleMatchCache md =
     (ResetRuleCache md)\<lparr>IPCIDRMatchSource := IPCIDRMatchSource md, IPCIDRAcceptEmpty := IPCIDRAcceptEmpty md\<rparr>"
  by (simp add: ctx_defs)

lemma Cache_as_Reset:
  "ResetRuleCache md = (ResetRuleMatchCache md)\<lparr>IPCIDRMatchSource := False, IPCIDRAcceptEmpty := False\<rparr>"
  by (simp add: ctx_defs)

lemma Reset_MatchCache_imp_Cache:
  "ResetRuleMatchCache x = ResetRuleMatchCache y \<Longrightarrow> ResetRuleCache x = ResetRuleCache y"
  by (simp add: Cache_as_Reset)

lemma ResetRuleCache_MatchCache [simp]:
  "ResetRuleCache (ResetRuleMatchCache md) = ResetRuleCache md"
  "ResetRuleMatchCache (ResetRuleCache md) = ResetRuleCache md"
  "ResetRuleCache (prepareNestedMatch r md) = ResetRuleCache md"
  "ResetRuleCache (md\<lparr>DeferredIPCIDRMatchGroups := x\<rparr>) = ResetRuleCache md"
  by (simp_all add: ctx_defs)

lemma prepareNestedMatch_cong:
  "ResetRuleCache x = ResetRuleCache y \<Longrightarrow> prepareNestedMatch r x = prepareNestedMatch r y"
  unfolding prepareNestedMatch_def Reset_as_cache by simp

lemma prepareNestedMatch_simps [simp]:
  "DeferredIPCIDRMatchGroups (prepareNestedMatch r md) = 0"
  "IPCIDRMatchSource (prepareNestedMatch r md) = ipCidrMatchSource r"
  "IPCIDRAcceptEmpty (prepareNestedMatch r md) = ipCidrAcceptEmpty r"
  "IgnoreDestinationIPCIDRMatch (prepareNestedMatch r md) = IgnoreDestinationIPCIDRMatch md"
  by (simp_all add: ctx_defs)

lemma Reset_simps [simp]:
  "DeferredIPCIDRMatchGroups (ResetRuleMatchCache md) = 0"
  "DeferredIPCIDRMatchGroups (ResetRuleCache md) = 0"
  "IgnoreDestinationIPCIDRMatch (ResetRuleMatchCache md) = IgnoreDestinationIPCIDRMatch md"
  "IgnoreDestinationIPCIDRMatch (ResetRuleCache md) = IgnoreDestinationIPCIDRMatch md"
  by (simp_all add: ctx_defs)

lemma restore_simps [simp]:
  "DeferredIPCIDRMatchGroups (restore (snapshotRuleMatch md) x) = DeferredIPCIDRMatchGroups md"
  by (simp add: ctx_defs)

lemma Reset_restore_eq:
  "ResetRuleCache x = ResetRuleCache md \<Longrightarrow>
     ResetRuleMatchCache (restore (snapshotRuleMatch md) x) = ResetRuleMatchCache md"
  by (simp only: Reset_restore_snapshot Reset_as_cache[of md])

lemma finish_nested_frame:
  "ResetRuleCache x = ResetRuleCache md \<Longrightarrow>
     ResetRuleMatchCache (snd (finish_nested (snapshotRuleMatch md) b d x)) = ResetRuleMatchCache md"
  by (simp add: finish_nested_def Let_def Reset_restore_eq)

lemma match_frameD: "match_frame m \<Longrightarrow> m md = (b, md') \<Longrightarrow> ResetRuleMatchCache md' = ResetRuleMatchCache md"
  unfolding match_frame_def by (metis snd_conv)

lemma match_frame_cache: "match_frame m \<Longrightarrow> m md = (b, md') \<Longrightarrow> ResetRuleCache md' = ResetRuleCache md"
  by (rule Reset_MatchCache_imp_Cache) (rule match_frameD)

subsection \<open>Frames of the loops\<close>

lemma logical_and_loop_frame:
  "list_all match_frame ms \<Longrightarrow> ResetRuleCache (snd (logical_and_loop ms d md)) = ResetRuleCache md"
proof (induction ms arbitrary: d md)
  case (Cons m ms)
  obtain b' md' where m: "m (ResetRuleCache md) = (b', md')" by fastforce
  then have "ResetRuleCache md' = ResetRuleCache md" using Cons.prems match_frame_cache[of m "ResetRuleCache md"] by simp
  with m Cons show ?case by simp
qed simp

lemma logical_or_loop_frame:
  "list_all match_frame ms \<Longrightarrow> ResetRuleCache (snd (logical_or_loop ms b d md)) = ResetRuleCache md"
proof (induction ms arbitrary: b d md)
  case (Cons m ms)
  obtain b' md' where m: "m (ResetRuleCache md) = (b', md')" by fastforce
  then have "ResetRuleCache md' = ResetRuleCache md" using Cons.prems match_frame_cache[of m "ResetRuleCache md"] by simp
  with m Cons show ?case by simp
qed simp

lemma logical_frame:
  assumes "list_all match_frame ms"
  shows "match_frame (abstractLogicalRule_Match ms mode inv')"
  unfolding match_frame_def abstractLogicalRule_Match_def Let_def
  using logical_and_loop_frame[OF assms] logical_or_loop_frame[OF assms]
  by (auto split: prod.splits intro!: finish_nested_frame) (metis snd_conv)+

lemma any_headless_loop_frame:
  "list_all match_frame ms \<Longrightarrow> ResetRuleCache x = ResetRuleCache md \<Longrightarrow>
     ResetRuleMatchCache (snd (any_headless_loop ms (snapshotRuleMatch md) b d x)) = ResetRuleMatchCache md"
proof (induction ms arbitrary: b d x)
  case Nil
  then show ?case by (simp add: finish_nested_frame)
next
  case (Cons m ms)
  obtain b' x' where m: "m (ResetRuleMatchCache x) = (b', x')" by fastforce
  then have "ResetRuleCache x' = ResetRuleCache md" using Cons.prems match_frame_cache[of m "ResetRuleMatchCache x"] by simp
  with m Cons show ?case by (simp add: Reset_restore_eq)
qed

lemma matchAnyHeadlessRule_frame:
  "list_all match_frame ms \<Longrightarrow> match_frame (matchAnyHeadlessRule ms)"
  by (simp add: match_frame_def matchAnyHeadlessRule_def any_headless_loop_frame)

lemma evaluateGroups_frame:
  "ResetRuleMatchCache (snd (evaluateGroups env r md)) = ResetRuleMatchCache md"
  by (simp add: evaluateGroups_def Let_def)

lemma evaluateForMerge_frame:
  "ResetRuleMatchCache (snd (evaluateForMerge env r md)) = ResetRuleMatchCache md"
  using evaluateGroups_frame[of env r md] by (auto simp: evaluateForMerge_def split: prod.splits)

subsection \<open>The contract of rule sets\<close>

text \<open>
  What the rule engine relies on when it asks a rule set: the call changes nothing but the rule
  cache.
\<close>

locale rule_set_provider =
  fixes sets :: "string \<Rightarrow> RuleSetI"
  assumes set_frame: "match_frame (rs_Match (sets tag))"
begin

lemma outer_groups_loop_frame:
  "ResetRuleCache x = ResetRuleCache md \<Longrightarrow>
     ResetRuleMatchCache (snd (outer_groups_loop env sets r g (snapshotRuleMatch md) tags b d x)) =
     ResetRuleMatchCache md"
proof (induction tags arbitrary: b d x)
  case Nil
  then show ?case by (simp add: finish_nested_frame)
next
  case (Cons tag tags)
  let ?n = "prepareNestedMatch r x"
  show ?case
  proof (cases "rs_mergeableRule (sets tag)")
    case None
    obtain b' x' where m: "rs_Match (sets tag) ?n = (b', x')" by fastforce
    then have "ResetRuleCache x' = ResetRuleCache md"
      using Cons.prems match_frame_cache[OF set_frame, of tag ?n] by simp
    with m None Cons show ?thesis by (simp add: Reset_restore_eq Let_def)
  next
    case (Some branch)
    obtain bg bm x' where e: "evaluateForMerge env branch ?n = ((bg, bm), x')" by (metis prod.exhaust)
    then have "ResetRuleCache x' = ResetRuleCache md"
      using Cons.prems evaluateForMerge_frame[of env branch ?n]
      by (auto dest: Reset_MatchCache_imp_Cache)
    with e Some Cons show ?thesis by (simp add: Reset_restore_eq Let_def)
  qed
qed

lemma matchInner_frame: "match_frame (matchInner env sets r)"
  unfolding match_frame_def
proof
  fix md
  obtain g md' where g: "evaluateGroups env r md = (g, md')" by fastforce
  then have f: "ResetRuleMatchCache md' = ResetRuleMatchCache md"
    using evaluateGroups_frame[of env r md] by simp
  have "ResetRuleMatchCache (snd (matchWithOuterGroups env sets item g md')) = ResetRuleMatchCache md" for item
    using outer_groups_loop_frame[of md' md'] f by (simp add: matchWithOuterGroups_def)
  then show "ResetRuleMatchCache (snd (matchInner env sets r md)) = ResetRuleMatchCache md"
    using f g by (auto simp: matchInner_def Let_def split: prod.splits option.splits) (metis snd_conv)+
qed

lemma abstractDefaultRule_Match_frame: "match_frame (abstractDefaultRule_Match env sets r)"
  using matchInner_frame unfolding match_frame_def abstractDefaultRule_Match_def
  by (auto simp: Let_def split: prod.splits) (metis snd_conv)+

lemma matchForMatch_frame: "match_frame (matchForMatch env sets r mr tag)"
  using abstractDefaultRule_Match_frame unfolding match_frame_def matchForMatch_def
  by (auto simp: Let_def split: option.splits)

lemma rule_Match_frame: "match_frame (rule_Match env sets rule)"
proof (induction rule)
  case (DefaultHeadlessRule r)
  then show ?case using abstractDefaultRule_Match_frame by (simp add: match_frame_def)
next
  case (LogicalHeadlessRule rules mode inv')
  then have "list_all match_frame (map (rule_Match env sets) rules)" by (simp add: list_all_iff)
  then show ?case using logical_frame by (simp add: match_frame_def)
next
  case (DefaultRule r)
  then show ?case using abstractDefaultRule_Match_frame by (simp add: match_frame_def)
next
  case (LogicalRule rules mode inv' a)
  then have "list_all match_frame (map (rule_Match env sets) rules)" by (simp add: list_all_iff)
  then show ?case using logical_frame by (simp add: match_frame_def)
next
  case (DefaultDNSRule r mr tag race)
  then show ?case using matchForMatch_frame by (simp add: match_frame_def)
next
  case (LogicalDNSRule rules mode inv' a tags anon race)
  then have "list_all match_frame (map (rule_Match env sets) rules)" by (simp add: list_all_iff)
  then show ?case using logical_frame by (simp add: match_frame_def)
qed

end

text \<open>The rule sets of the router keep the contract.\<close>

interpretation no_sets: rule_set_provider no_sets
  by unfold_locales (simp add: match_frame_def no_sets_def)

lemma RuleSet_Match_frame: "match_frame (RuleSet_Match env s)"
  using matchAnyHeadlessRule_frame[of "map (rule_Match env no_sets) (rst_rules s)"]
    no_sets.rule_Match_frame
  by (simp add: match_frame_def RuleSet_Match_def list_all_iff)

interpretation router: rule_set_provider "router_sets env store" for env store
  by unfold_locales
    (auto simp: router_sets_def RuleSet_iface_def RuleSet_Match_frame no_sets.set_frame split: option.splits)

subsection \<open>Three-valued verdicts\<close>

text \<open>
  While the destination addresses are not known yet (\<open>IgnoreDestinationIPCIDRMatch\<close>) a match can be
  pending on them; \<open>DeferredIPCIDRMatchGroups\<close> says so. The outcome of a match is therefore a value
  of Kleene's logic: the order of the truth values is false, unknown, true; conjunction is the
  minimum and disjunction the maximum.
\<close>

datatype verdict = VFalse | VUnknown | VTrue

fun verdict_rank :: "verdict \<Rightarrow> nat" where
  "verdict_rank VFalse = 0"
| "verdict_rank VUnknown = 1"
| "verdict_rank VTrue = 2"

instantiation verdict :: linorder
begin

definition less_eq_verdict :: "verdict \<Rightarrow> verdict \<Rightarrow> bool" where
  "less_eq_verdict a b \<longleftrightarrow> verdict_rank a \<le> verdict_rank b"

definition less_verdict :: "verdict \<Rightarrow> verdict \<Rightarrow> bool" where
  "less_verdict a b \<longleftrightarrow> verdict_rank a < verdict_rank b"

instance
proof
  fix x y z :: verdict
  show "x < y \<longleftrightarrow> x \<le> y \<and> \<not> y \<le> x" by (auto simp: less_eq_verdict_def less_verdict_def)
  show "x \<le> x" by (simp add: less_eq_verdict_def)
  show "x \<le> y \<Longrightarrow> y \<le> z \<Longrightarrow> x \<le> z" by (simp add: less_eq_verdict_def)
  show "x \<le> y \<Longrightarrow> y \<le> x \<Longrightarrow> x = y" by (cases x; cases y) (auto simp: less_eq_verdict_def)
  show "x \<le> y \<or> y \<le> x" by (auto simp: less_eq_verdict_def)
qed

end

fun v_not :: "verdict \<Rightarrow> verdict" where
  "v_not VFalse = VTrue"
| "v_not VUnknown = VUnknown"
| "v_not VTrue = VFalse"

definition v_and :: "verdict list \<Rightarrow> verdict" where
  "v_and vs = foldr min vs VTrue"

definition v_or :: "verdict list \<Rightarrow> verdict" where
  "v_or vs = foldr max vs VFalse"

definition v_invert :: "bool \<Rightarrow> verdict \<Rightarrow> verdict" where
  "v_invert b v = (if b then v_not v else v)"

definition verdict_of :: "bool \<times> InboundContext \<Rightarrow> verdict" where
  "verdict_of p = (if \<not> fst p then VFalse else if DeferredIPCIDRMatchGroups (snd p) = 0 then VTrue else VUnknown)"

lemma verdict_minmax [simp]:
  "min VFalse v = VFalse" "min v VFalse = VFalse" "min VTrue v = v" "min v VTrue = v"
  "max VFalse v = v" "max v VFalse = v" "max VTrue v = VTrue" "max v VTrue = VTrue"
  "min VUnknown VUnknown = VUnknown" "max VUnknown VUnknown = VUnknown"
  by (cases v; simp add: min_def max_def less_eq_verdict_def)+

lemma v_and_simps [simp]: "v_and [] = VTrue" "v_and (v # vs) = min v (v_and vs)"
  by (simp_all add: v_and_def)

lemma v_or_simps [simp]: "v_or [] = VFalse" "v_or (v # vs) = max v (v_or vs)"
  by (simp_all add: v_or_def)

lemma v_not_v_and: "v_not (v_and vs) = v_or (map v_not vs)"
proof (induction vs)
  case (Cons v vs)
  then show ?case by (cases v; cases "v_and vs") auto
qed simp

text \<open>The deferred groups an intermediate state of the loops stands for.\<close>

definition acc_verdict :: "bool \<Rightarrow> u8 \<Rightarrow> verdict" where
  "acc_verdict matched d = (if \<not> matched then VFalse else if d = 0 then VTrue else VUnknown)"

lemma or_eq_0_u8: "(a::u8) OR b = 0 \<longleftrightarrow> a = 0 \<and> b = 0"
  by (auto simp: bit_eq_iff bit_or_iff)

lemma verdict_of_acc [simp]: "verdict_of (b, md) = acc_verdict b (DeferredIPCIDRMatchGroups md)"
  by (simp add: verdict_of_def acc_verdict_def)

lemma acc_verdict_simps [simp]:
  "acc_verdict False d = VFalse"
  "acc_verdict b 0 = (if b then VTrue else VFalse)"
  "d \<noteq> 0 \<Longrightarrow> acc_verdict True d = VUnknown"
  by (auto simp: acc_verdict_def)

lemma acc_verdict_or: "acc_verdict True (d OR e) = min (acc_verdict True d) (acc_verdict True e)"
  by (simp add: acc_verdict_def or_eq_0_u8)

lemma max_unknown: "max VUnknown (max VUnknown v) = max VUnknown v"
  by (cases v) auto

lemma logical_and_loop_verdict:
  assumes "list_all match_frame ms"
  shows "acc_verdict (fst (fst (logical_and_loop ms d md))) (snd (fst (logical_and_loop ms d md))) =
           min (acc_verdict True d) (v_and (map (\<lambda>m. verdict_of (m (ResetRuleCache md))) ms))"
  using assms
proof (induction ms arbitrary: d md)
  case (Cons m ms)
  obtain b md' where m: "m (ResetRuleCache md) = (b, md')" by fastforce
  then have f: "ResetRuleCache md' = ResetRuleCache md"
    using Cons.prems match_frame_cache[of m "ResetRuleCache md"] by simp
  show ?case
    using Cons m f by (cases b) (simp_all add: acc_verdict_or min.assoc)
qed simp

lemma logical_or_loop_verdict:
  assumes "list_all match_frame ms" "b \<longrightarrow> d \<noteq> 0"
  shows "acc_verdict (fst (fst (logical_or_loop ms b d md))) (snd (fst (logical_or_loop ms b d md))) =
           max (acc_verdict b d) (v_or (map (\<lambda>m. verdict_of (m (ResetRuleCache md))) ms))"
  using assms
proof (induction ms arbitrary: b d md)
  case (Cons m ms)
  obtain b' md' where m: "m (ResetRuleCache md) = (b', md')" by fastforce
  then have f: "ResetRuleCache md' = ResetRuleCache md"
    using Cons.prems match_frame_cache[of m "ResetRuleCache md"] by simp
  show ?case
    using Cons.prems Cons.IH[of True "d OR DeferredIPCIDRMatchGroups md'" md'] Cons.IH[of b d md'] m f
    by (cases b'; cases b; cases "DeferredIPCIDRMatchGroups md' = 0")
       (simp_all add: or_eq_0_u8 max_unknown)
qed simp

lemma finish_nested_verdict:
  "DeferredIPCIDRMatchGroups md = 0 \<Longrightarrow>
     verdict_of (finish_nested (snapshotRuleMatch md) b d x) = acc_verdict b d"
  by (auto simp: verdict_of_def finish_nested_def acc_verdict_def Let_def)

lemma finish_nested_deferred:
  "DeferredIPCIDRMatchGroups (snd (finish_nested (snapshotRuleMatch md) b d x)) =
     (if b then DeferredIPCIDRMatchGroups md OR d else DeferredIPCIDRMatchGroups md)"
  by (auto simp: finish_nested_def Let_def)

text \<open>A logical rule computes Kleene's conjunction or disjunction of its sub-rules, negated when inverted.\<close>

lemma logical_verdict:
  assumes "list_all match_frame ms" "DeferredIPCIDRMatchGroups md = 0"
  shows "verdict_of (abstractLogicalRule_Match ms mode inv' md) =
           v_invert inv' ((if mode = ''and'' then v_and else v_or)
             (map (\<lambda>m. verdict_of (m (ResetRuleCache md))) ms))"
proof -
  let ?vs = "map (\<lambda>m. verdict_of (m (ResetRuleCache md))) ms"
  let ?v = "(if mode = ''and'' then v_and else v_or) ?vs"
  obtain b d md' where l: "(if mode = ''and'' then logical_and_loop ms 0 md
      else logical_or_loop ms False 0 md) = ((b, d), md')" by (metis prod.exhaust)
  have "acc_verdict b d = ?v"
    using logical_and_loop_verdict[OF assms(1), of 0 md] logical_or_loop_verdict[OF assms(1), of False 0 md] l
    by (auto simp: acc_verdict_def split: if_splits)
  then show ?thesis
    using l assms(2)
    by (auto simp: abstractLogicalRule_Match_def verdict_of_def finish_nested_deferred acc_verdict_def
        v_invert_def Let_def split: if_splits)
qed

lemma any_headless_loop_verdict:
  assumes "list_all match_frame ms" "b \<longrightarrow> d \<noteq> 0" "DeferredIPCIDRMatchGroups md = 0"
    "ResetRuleMatchCache x = ResetRuleMatchCache md"
  shows "verdict_of (any_headless_loop ms (snapshotRuleMatch md) b d x) =
           max (acc_verdict b d) (v_or (map (\<lambda>m. verdict_of (m (ResetRuleMatchCache md))) ms))"
  using assms
proof (induction ms arbitrary: b d x)
  case Nil
  then show ?case by (simp add: finish_nested_verdict)
next
  case (Cons m ms)
  obtain b' md' where m: "m (ResetRuleMatchCache md) = (b', md')" by fastforce
  then have f: "ResetRuleMatchCache md' = ResetRuleMatchCache md"
    using Cons.prems match_frameD[of m "ResetRuleMatchCache md"] by simp
  show ?case
    using Cons.prems Cons.IH[of True "d OR DeferredIPCIDRMatchGroups md'" md'] Cons.IH[of b d md'] m f
    by (cases b'; cases b; cases "DeferredIPCIDRMatchGroups md' = 0")
       (simp_all add: or_eq_0_u8 max_unknown)
qed

lemma matchAnyHeadlessRule_verdict:
  "list_all match_frame ms \<Longrightarrow> DeferredIPCIDRMatchGroups md = 0 \<Longrightarrow>
     verdict_of (matchAnyHeadlessRule ms md) = v_or (map (\<lambda>m. verdict_of (m (ResetRuleMatchCache md))) ms)"
  by (simp add: matchAnyHeadlessRule_def any_headless_loop_verdict)

subsection \<open>The groups of a default rule\<close>

text \<open>
  The items of the four groups, by the number of the group's bit: source address, source port,
  destination address, destination port. The destination IP CIDR items count as source address items
  under \<open>rule_set_ip_cidr_match_source\<close>, as destination address items otherwise, and not at all while
  they are ignored.
\<close>

definition group_items :: "abstractDefaultRule \<Rightarrow> InboundContext \<Rightarrow> nat \<Rightarrow> RuleItem list" where
  "group_items r md n =
     (if n = 0 then sourceAddressItems r @ (if IPCIDRMatchSource md then destinationIPCIDRItems r else [])
      else if n = 1 then sourcePortItems r
      else if n = 2 then destinationAddressItems r @
        (if \<not> IgnoreDestinationIPCIDRMatch md \<and> \<not> IPCIDRMatchSource md then destinationIPCIDRItems r else [])
      else if n = 3 then destinationPortItems r
      else [])"

definition group_ok :: "rule_env \<Rightarrow> abstractDefaultRule \<Rightarrow> InboundContext \<Rightarrow> nat \<Rightarrow> bool" where
  "group_ok env r md n \<longleftrightarrow> group_items r md n = [] \<or> matchAnyItem env (group_items r md n) md"

definition defers :: "abstractDefaultRule \<Rightarrow> InboundContext \<Rightarrow> bool" where
  "defers r md \<longleftrightarrow> IgnoreDestinationIPCIDRMatch md \<and> \<not> IPCIDRMatchSource md \<and>
     destinationIPCIDRItems r \<noteq> [] \<and> destinationAddressItems r = []"

lemmas ruleMatch_defs = ruleMatchSourceAddress_def ruleMatchSourcePort_def
  ruleMatchDestinationAddress_def ruleMatchDestinationPort_def

lemma ruleMatch_exp:
  "ruleMatchSourceAddress = 2 ^ 0" "ruleMatchSourcePort = 2 ^ 1"
  "ruleMatchDestinationAddress = 2 ^ 2" "ruleMatchDestinationPort = 2 ^ 3"
  by (simp_all add: ruleMatch_defs)

lemma bit_ruleMatch [simp]:
  "bit ruleMatchSourceAddress n \<longleftrightarrow> n = 0"
  "bit ruleMatchSourcePort n \<longleftrightarrow> n = 1"
  "bit ruleMatchDestinationAddress n \<longleftrightarrow> n = 2"
  "bit ruleMatchDestinationPort n \<longleftrightarrow> n = 3"
  by (auto simp only: ruleMatch_exp bit_exp_iff) simp_all

lemma and_not_0_iff: "and_not a b = 0 \<longleftrightarrow> (\<forall>n. bit a n \<longrightarrow> bit b n)"
  using bit_imp_le_length[of a] by (auto simp: and_not_def bit_eq_iff bit_and_iff bit_not_iff)

lemma bit_and_not: "bit (and_not a b) n \<longleftrightarrow> bit a n \<and> \<not> bit b n"
  by (auto simp: and_not_def bit_and_iff bit_not_iff dest: bit_imp_possible_bit)

lemma group_done_iff: "group_done g \<longleftrightarrow> (\<forall>n. bit (required g) n \<longrightarrow> bit (satisfied g) n)"
  by (simp add: group_done_def and_not_0_iff)

lemma and_eq_0_u8: "(a::u8) AND b = 0 \<longleftrightarrow> (\<forall>n. bit a n \<longrightarrow> \<not> bit b n)"
  using bit_imp_le_length[of a] by (auto simp: bit_eq_iff bit_and_iff)

lemma state_has_iff:
  "state_has s ruleMatchSourceAddress \<longleftrightarrow> bit s 0"
  "state_has s ruleMatchDestinationAddress \<longleftrightarrow> bit s 2"
  using bit_imp_le_length[of s] by (auto simp: state_has_def and_eq_0_u8)

lemma bit_group_step:
  "bit (required (group_step c w m g)) n \<longleftrightarrow> bit (required g) n \<or> c \<and> bit w n"
  "bit (satisfied (group_step c w m g)) n \<longleftrightarrow>
     bit (satisfied g) n \<or> c \<and> m (g\<lparr>required := required g OR w\<rparr>) \<and> bit w n"
  by (auto simp: group_step_def Let_def bit_or_iff)

lemma matchAnyItem_append [simp]:
  "matchAnyItem env (xs @ ys) md \<longleftrightarrow> matchAnyItem env xs md \<or> matchAnyItem env ys md"
  "\<not> matchAnyItem env [] md"
  by (simp_all add: matchAnyItem_def)

lemma evaluateGroups_required:
  "bit (required (fst (evaluateGroups env r md))) n \<longleftrightarrow> group_items r md n \<noteq> []"
  by (auto simp: evaluateGroups_def Let_def bit_group_step group_items_def
      destinationIPCIDRMatchesSource_def destinationIPCIDRMatchesDestination_def)

lemma evaluateGroups_satisfied:
  "bit (satisfied (fst (evaluateGroups env r md))) n \<longleftrightarrow> matchAnyItem env (group_items r md n) md"
  by (auto simp: evaluateGroups_def Let_def bit_group_step group_items_def state_has_iff
      destinationIPCIDRMatchesSource_def destinationIPCIDRMatchesDestination_def)

lemma evaluateGroups_done:
  "group_done (fst (evaluateGroups env r md)) \<longleftrightarrow> (\<forall>n < 4. group_ok env r md n)"
proof -
  have "4 \<le> n \<Longrightarrow> group_items r md n = []" for n by (simp add: group_items_def)
  then show ?thesis
    unfolding group_done_iff evaluateGroups_required evaluateGroups_satisfied group_ok_def
    by (meson not_less)
qed

lemma evaluateGroups_deferred:
  "snd (evaluateGroups env r md) =
     (if defers r md
      then md\<lparr>DeferredIPCIDRMatchGroups := DeferredIPCIDRMatchGroups md OR ruleMatchDestinationAddress\<rparr>
      else md)"
  by (auto simp: evaluateGroups_def Let_def defers_def)

end
