(* ===== verification/RuleFormula.thy ===== *)
theory RuleFormula
  imports RuleSemantics
begin

text \<open>
  The documented meaning of a default rule (\<open>docs/configuration/route/rule.md\<close>): the groups of
  fields are conjoined, the fields of a group are disjoined, the remaining fields all have to match;
  a rule set with a single default rule without \<open>invert\<close> is merged into the outer rule, any other
  rule set is one more condition; different rule sets are alternatives. \<open>rule_formula\<close> states this
  without loops, bit masks or mutation, and the lemmas show that the code computes it when the
  destination addresses are not ignored.
\<close>

subsection \<open>Matches that leave nothing pending\<close>

definition settled :: "ctx_matcher \<Rightarrow> bool" where
  "settled m \<longleftrightarrow> (\<forall>md. \<not> IgnoreDestinationIPCIDRMatch md \<longrightarrow> DeferredIPCIDRMatchGroups md = 0 \<longrightarrow>
     DeferredIPCIDRMatchGroups (snd (m md)) = 0)"

lemma settledD:
  "settled m \<Longrightarrow> m md = (b, md') \<Longrightarrow> \<not> IgnoreDestinationIPCIDRMatch md \<Longrightarrow>
     DeferredIPCIDRMatchGroups md = 0 \<Longrightarrow> DeferredIPCIDRMatchGroups md' = 0"
  unfolding settled_def by (metis snd_conv)

lemma Ignore_Reset: "ResetRuleCache x = ResetRuleCache y \<Longrightarrow>
    IgnoreDestinationIPCIDRMatch x = IgnoreDestinationIPCIDRMatch y"
  by (metis Reset_simps(4))

lemma logical_and_loop_settled:
  "list_all match_frame ms \<Longrightarrow> list_all settled ms \<Longrightarrow> \<not> IgnoreDestinationIPCIDRMatch md \<Longrightarrow>
     snd (fst (logical_and_loop ms 0 md)) = 0"
proof (induction ms arbitrary: md)
  case (Cons m ms)
  obtain b md' where m: "m (ResetRuleCache md) = (b, md')" by fastforce
  then have "ResetRuleCache md' = ResetRuleCache md" and d: "DeferredIPCIDRMatchGroups md' = 0"
    using Cons.prems match_frame_cache[of m "ResetRuleCache md"] settledD[of m "ResetRuleCache md"] by auto
  with Cons m Ignore_Reset[of md' md] show ?case by simp
qed simp

lemma logical_or_loop_settled:
  "list_all match_frame ms \<Longrightarrow> list_all settled ms \<Longrightarrow> \<not> IgnoreDestinationIPCIDRMatch md \<Longrightarrow>
     snd (fst (logical_or_loop ms False 0 md)) = 0"
proof (induction ms arbitrary: md)
  case (Cons m ms)
  obtain b md' where m: "m (ResetRuleCache md) = (b, md')" by fastforce
  then have "ResetRuleCache md' = ResetRuleCache md" and d: "DeferredIPCIDRMatchGroups md' = 0"
    using Cons.prems match_frame_cache[of m "ResetRuleCache md"] settledD[of m "ResetRuleCache md"] by auto
  with Cons m Ignore_Reset[of md' md] show ?case by simp
qed simp

lemma logical_settled:
  assumes "list_all match_frame ms" "list_all settled ms"
  shows "settled (abstractLogicalRule_Match ms mode inv')"
  unfolding settled_def abstractLogicalRule_Match_def Let_def
  using logical_and_loop_settled[OF assms] logical_or_loop_settled[OF assms]
  by (auto simp: finish_nested_deferred split: prod.splits) (metis fst_conv snd_conv)+

lemma any_headless_loop_settled:
  "list_all match_frame ms \<Longrightarrow> list_all settled ms \<Longrightarrow> \<not> IgnoreDestinationIPCIDRMatch md \<Longrightarrow>
     DeferredIPCIDRMatchGroups md = 0 \<Longrightarrow> ResetRuleCache x = ResetRuleCache md \<Longrightarrow>
     DeferredIPCIDRMatchGroups (snd (any_headless_loop ms (snapshotRuleMatch md) False 0 x)) = 0"
proof (induction ms arbitrary: x)
  case Nil
  then show ?case by (simp add: finish_nested_deferred)
next
  case (Cons m ms)
  obtain b x' where m: "m (ResetRuleMatchCache x) = (b, x')" by fastforce
  then have "ResetRuleCache x' = ResetRuleCache md" and "DeferredIPCIDRMatchGroups x' = 0"
    using Cons.prems match_frame_cache[of m "ResetRuleMatchCache x"] settledD[of m "ResetRuleMatchCache x"]
      Ignore_Reset[of x md] by auto
  with Cons m show ?case by simp
qed

lemma matchAnyHeadlessRule_settled:
  "list_all match_frame ms \<Longrightarrow> list_all settled ms \<Longrightarrow> settled (matchAnyHeadlessRule ms)"
  by (simp add: settled_def matchAnyHeadlessRule_def any_headless_loop_settled)

lemma evaluateGroups_settled:
  "\<not> IgnoreDestinationIPCIDRMatch md \<Longrightarrow> snd (evaluateGroups env r md) = md"
  by (simp add: evaluateGroups_deferred defers_def)

lemma evaluateForMerge_settled:
  "\<not> IgnoreDestinationIPCIDRMatch md \<Longrightarrow>
     evaluateForMerge env r md =
       (if list_all (\<lambda>it. item_Match env it md) (items r)
        then ((fst (evaluateGroups env r md), True), md)
        else ((\<lparr>required = 0, satisfied = 0\<rparr>, False), md))"
  using evaluateGroups_settled[of md env r]
  by (auto simp: evaluateForMerge_def list_all_iff list_ex_iff split: prod.splits)

subsection \<open>Alternatives of a rule-set item\<close>

text \<open>The condition a rule set contributes, in the context \<open>n\<close> prepared for it.\<close>

definition branch_ok ::
    "rule_env \<Rightarrow> (string \<Rightarrow> RuleSetI) \<Rightarrow> ruleGroupMatch \<Rightarrow> InboundContext \<Rightarrow> string \<Rightarrow> bool" where
  "branch_ok env sets g n tag \<longleftrightarrow>
     (case rs_mergeableRule (sets tag) of
        Some b \<Rightarrow> list_all (\<lambda>it. item_Match env it n) (items b) \<and>
                  group_done (mergeWith g (fst (evaluateGroups env b n)))
      | None \<Rightarrow> group_done g \<and> fst (rs_Match (sets tag) n))"

text \<open>
  The documented formula. \<open>merged_ok\<close> is the condition on one group of a rule into which the branch
  \<open>b\<close> is merged.
\<close>

definition merged_ok ::
    "rule_env \<Rightarrow> abstractDefaultRule \<Rightarrow> InboundContext \<Rightarrow> abstractDefaultRule \<Rightarrow> InboundContext \<Rightarrow> nat \<Rightarrow> bool" where
  "merged_ok env r md b n k \<longleftrightarrow>
     group_items r md k = [] \<and> group_items b n k = [] \<or>
     matchAnyItem env (group_items r md k) md \<or> matchAnyItem env (group_items b n k) n"

definition set_formula ::
    "rule_env \<Rightarrow> (string \<Rightarrow> RuleSetI) \<Rightarrow> abstractDefaultRule \<Rightarrow> InboundContext \<Rightarrow> InboundContext \<Rightarrow> string \<Rightarrow> bool" where
  "set_formula env sets r md n tag \<longleftrightarrow>
     (case rs_mergeableRule (sets tag) of
        Some b \<Rightarrow> list_all (\<lambda>it. item_Match env it n) (items b) \<and> list_all (merged_ok env r md b n) [0..<4]
      | None \<Rightarrow> list_all (group_ok env r md) [0..<4] \<and> fst (rs_Match (sets tag) n))"

definition rule_formula ::
    "rule_env \<Rightarrow> (string \<Rightarrow> RuleSetI) \<Rightarrow> abstractDefaultRule \<Rightarrow> InboundContext \<Rightarrow> bool" where
  "rule_formula env sets r md \<longleftrightarrow>
     list_all (\<lambda>it. item_Match env it md) (items r) \<and>
     (case ruleSetItem r of
        None \<Rightarrow> list_all (group_ok env r md) [0..<4]
      | Some item \<Rightarrow> list_ex (set_formula env sets r md (prepareNestedMatch item md)) (setList item))"

lemma group_items_beyond: "4 \<le> k \<Longrightarrow> group_items r md k = []"
  by (simp add: group_items_def)

lemma groups_done_iff:
  "group_done (fst (evaluateGroups env r md)) \<longleftrightarrow> list_all (group_ok env r md) [0..<4]"
  by (auto simp: evaluateGroups_done list_all_iff)

lemma merged_done_iff:
  "group_done (mergeWith (fst (evaluateGroups env r md)) (fst (evaluateGroups env b n))) \<longleftrightarrow>
     list_all (merged_ok env r md b n) [0..<4]"
  by (force simp: group_done_iff mergeWith_def bit_or_iff evaluateGroups_required evaluateGroups_satisfied
      merged_ok_def list_all_iff group_items_beyond not_less)

lemma branch_ok_formula:
  "branch_ok env sets (fst (evaluateGroups env r md)) n tag = set_formula env sets r md n tag"
  by (simp add: branch_ok_def set_formula_def groups_done_iff merged_done_iff split: option.splits)

text \<open>A provider whose rule sets leave nothing pending either.\<close>

locale settled_rule_sets = rule_set_provider +
  assumes set_settled: "settled (rs_Match (sets tag))"
begin

lemma outer_groups_loop_settled:
  assumes "\<not> IgnoreDestinationIPCIDRMatch md" "DeferredIPCIDRMatchGroups md = 0"
    "ResetRuleCache x = ResetRuleCache md"
  shows "fst (outer_groups_loop env sets r g (snapshotRuleMatch md) tags False 0 x) \<longleftrightarrow>
           list_ex (branch_ok env sets g (prepareNestedMatch r md)) tags"
    and "DeferredIPCIDRMatchGroups (snd (outer_groups_loop env sets r g (snapshotRuleMatch md) tags False 0 x)) = 0"
  using assms
proof (induction tags arbitrary: x)
  case Nil
  {
    case 1
    show ?case by (simp add: finish_nested_def Let_def)
  next
    case 2
    then show ?case by (simp add: finish_nested_deferred)
  }
next
  case (Cons tag tags)
  let ?n = "prepareNestedMatch r md"
  have n: "prepareNestedMatch r x = ?n" if "ResetRuleCache x = ResetRuleCache md" for x
    using that by (rule prepareNestedMatch_cong)
  obtain b y where m: "rs_Match (sets tag) ?n = (b, y)" by fastforce
  {
    case 1
    have y: "ResetRuleCache y = ResetRuleCache md" "DeferredIPCIDRMatchGroups y = 0"
      using match_frame_cache[OF set_frame m] settledD[OF set_settled m] 1 by auto
    show ?case
      using 1 Cons.IH(1) m y n[of x]
      by (auto simp: Let_def branch_ok_def evaluateForMerge_settled and_not_def split: option.splits)
  next
    case 2
    have y: "ResetRuleCache y = ResetRuleCache md" "DeferredIPCIDRMatchGroups y = 0"
      using match_frame_cache[OF set_frame m] settledD[OF set_settled m] 2 by auto
    show ?case
      using 2 Cons.IH(2) m y n[of x]
      by (auto simp: Let_def evaluateForMerge_settled and_not_def split: option.splits)
  }
qed

lemma matchInner_formula:
  assumes "\<not> IgnoreDestinationIPCIDRMatch md" "DeferredIPCIDRMatchGroups md = 0"
  shows "fst (matchInner env sets r md) = rule_formula env sets r md"
    and "DeferredIPCIDRMatchGroups (snd (matchInner env sets r md)) = 0"
proof -
  obtain g where g: "evaluateGroups env r md = (g, md)"
    using evaluateGroups_settled[OF assms(1), of env r] by (metis prod.collapse)
  have f: "group_done g = list_all (group_ok env r md) [0..<4]"
    "branch_ok env sets g n tag = set_formula env sets r md n tag" for n tag
    using groups_done_iff[of env r md] branch_ok_formula[of env sets r md n tag] g by simp_all
  have m: "fst (matchWithOuterGroups env sets item g md) =
        list_ex (set_formula env sets r md (prepareNestedMatch item md)) (setList item)"
    "DeferredIPCIDRMatchGroups (snd (matchWithOuterGroups env sets item g md)) = 0" for item
    using outer_groups_loop_settled[OF assms refl] by (simp_all add: matchWithOuterGroups_def f list_ex_iff)
  have i: "list_ex (\<lambda>it. \<not> item_Match env it md) (items r) \<longleftrightarrow> \<not> list_all (\<lambda>it. item_Match env it md) (items r)"
    by (simp add: list_ex_iff list_all_iff)
  show "fst (matchInner env sets r md) = rule_formula env sets r md"
    using g m(1) by (simp add: matchInner_def rule_formula_def f i Let_def case_prod_beta split: option.splits)
  show "DeferredIPCIDRMatchGroups (snd (matchInner env sets r md)) = 0"
    using g m(2) assms(2)
    by (auto simp: matchInner_def i Let_def case_prod_beta and_not_def split: option.splits)
qed

lemma default_formula:
  assumes "\<not> IgnoreDestinationIPCIDRMatch md" "DeferredIPCIDRMatchGroups md = 0"
  shows "fst (abstractDefaultRule_Match env sets r md) \<longleftrightarrow>
           allItems r = [] \<or> (if invert r then \<not> rule_formula env sets r md else rule_formula env sets r md)"
    and "DeferredIPCIDRMatchGroups (snd (abstractDefaultRule_Match env sets r md)) = 0"
  using matchInner_formula[OF assms, of env r] assms
  by (auto simp: abstractDefaultRule_Match_def Let_def split: prod.splits)

lemma default_settled: "settled (abstractDefaultRule_Match env sets r)"
  by (simp add: settled_def default_formula)

lemma matchForMatch_settled: "settled (matchForMatch env sets r mr tag)"
  by (auto simp: settled_def matchForMatch_def default_formula Let_def split: option.splits)

lemma rule_Match_settled: "settled (rule_Match env sets rule)"
proof (induction rule)
  case (DefaultHeadlessRule r)
  then show ?case using default_settled by (simp add: settled_def)
next
  case (LogicalHeadlessRule rules mode inv')
  then show ?case using logical_settled[of "map (rule_Match env sets) rules" mode inv'] rule_Match_frame
    by (simp add: settled_def list_all_iff)
next
  case (DefaultRule r)
  then show ?case using default_settled by (simp add: settled_def)
next
  case (LogicalRule rules mode inv' a)
  then show ?case using logical_settled[of "map (rule_Match env sets) rules" mode inv'] rule_Match_frame
    by (simp add: settled_def list_all_iff)
next
  case (DefaultDNSRule r mr tag race)
  then show ?case using matchForMatch_settled by (simp add: settled_def)
next
  case (LogicalDNSRule rules mode inv' a tags anon race)
  then show ?case using logical_settled[of "map (rule_Match env sets) rules" mode inv'] rule_Match_frame
    by (simp add: settled_def list_all_iff)
qed

end

interpretation settled_none: settled_rule_sets no_sets
  by unfold_locales (simp add: settled_def no_sets_def)

lemma RuleSet_Match_settled: "settled (RuleSet_Match env s)"
  using matchAnyHeadlessRule_settled[of "map (rule_Match env no_sets) (rst_rules s)"]
    no_sets.rule_Match_frame settled_none.rule_Match_settled
  by (simp add: settled_def RuleSet_Match_def list_all_iff)

interpretation settled_router: settled_rule_sets "router_sets env store" for env store
  by unfold_locales
    (auto simp: router_sets_def RuleSet_iface_def RuleSet_Match_settled settled_none.set_settled split: option.splits)

end
