(* ===== verification/Samples.thy ===== *)
theory Samples
  imports RuleFormula
begin

text \<open>
  Concrete environments and rules that the witnesses of the properties evaluate: an environment in
  which every external function is a simple total function, and a few small rules and rule sets.
\<close>

definition sample_env :: rule_env where
  "sample_env =
     \<lparr>env_AddrFromIP = (\<lambda>bs. if length bs = 4 then Addr4 (word_rcat bs) else AddrInvalid),
      env_IsIP = (\<lambda>s. addr_IsValid (sock_Addr s)),
      env_IsIPv6 = (\<lambda>s. addr_Is6 (sock_Addr s)),
      env_IsPublicAddr = (\<lambda>a. True),
      env_CanonicalName = (\<lambda>s. s @ ''.''),
      env_IsDuplicate = (\<lambda>a b. a = b),
      env_NewMatcher = (\<lambda>ds ss d. d \<in> set ds),
      env_NewAdGuardMatcher = (\<lambda>ls d. d \<in> set ls),
      env_regexp_Compile = (\<lambda>s. Inr (\<lambda>d. d = s)),
      env_ParsePrefix = (\<lambda>s. Inl (ENew s)),
      env_ParseAddr = (\<lambda>s. Inl (ENew s)),
      env_IPSet = (\<lambda>ps. Inr (\<lambda>a. Inr a \<in> set ps)),
      env_ParseMAC = (\<lambda>s. None),
      env_PrefixString = (\<lambda>p. ''prefix''),
      env_RRString = rr_Name,
      env_RcodeToString = (\<lambda>i. ''RCODE''),
      env_TypeToString = (\<lambda>t. None),
      env_IsAndroid = False,
      env_WIFIState_SSID = [],
      env_WIFIState_BSSID = [],
      env_DefaultNetworkInterface = None,
      env_NetworkInterfaces = [],
      env_Interfaces = [],
      env_InterfaceMonitor = None,
      env_ClashMode = ''rule''\<rparr>"

definition empty_rule :: abstractDefaultRule where
  "empty_rule =
     \<lparr>items = [], sourceAddressItems = [], sourcePortItems = [], destinationAddressItems = [],
      destinationIPCIDRItems = [], destinationPortItems = [], allItems = [], ruleSetItem = None,
      invert = False, action = None\<rparr>"

text \<open>A rule on the network, one on a destination port, and one on a domain keyword.\<close>

definition tcp_rule :: abstractDefaultRule where
  "tcp_rule = empty_rule\<lparr>items := [NewNetworkItem [''tcp'']], allItems := [ItemRef (NewNetworkItem [''tcp''])]\<rparr>"

definition port_rule :: "u16 \<Rightarrow> abstractDefaultRule" where
  "port_rule p = empty_rule\<lparr>destinationPortItems := [NewPortItem False [p]],
                            allItems := [ItemRef (NewPortItem False [p])]\<rparr>"

definition keyword_rule :: "string \<Rightarrow> abstractDefaultRule" where
  "keyword_rule k = empty_rule\<lparr>destinationAddressItems := [DomainKeywordItem [k]],
                               allItems := [ItemRef (DomainKeywordItem [k])]\<rparr>"

definition tcp_context :: InboundContext where
  "tcp_context = zero_context\<lparr>Network := ''tcp'', Domain' := ''example.org''\<rparr>"

definition sample_set :: "string \<Rightarrow> Rule list \<Rightarrow> RuleSetState" where
  "sample_set tag rules =
     \<lparr>rst_tag = tag, rst_rules = rules, rst_metadata = no_metadata, rst_fileFormat = [],
      rst_callbacks = [], rst_refs = 0\<rparr>"

definition set_ref :: "string list \<Rightarrow> RuleSetItem" where
  "set_ref tags = \<lparr>tagList = tags, setList = tags, ipCidrMatchSource = False, ipCidrAcceptEmpty = False\<rparr>"

lemmas sample_defs = sample_env_def empty_rule_def tcp_rule_def port_rule_def keyword_rule_def
  tcp_context_def zero_context_def sample_set_def set_ref_def

lemma sample_contexts [simp]:
  "DeferredIPCIDRMatchGroups zero_context = 0" "\<not> IgnoreDestinationIPCIDRMatch zero_context"
  "DeferredIPCIDRMatchGroups tcp_context = 0" "\<not> IgnoreDestinationIPCIDRMatch tcp_context"
  by (simp_all add: sample_defs)

end
