(* ===== verification/RuleProperties.thy ===== *)
theory RuleProperties
  imports Samples
begin

text \<open>
  The properties of the rule engine, for the rule sets of the router (\<open>router_sets\<close>), with their
  witnesses on the sample rules.
\<close>

subsection \<open>Definitions for the statements\<close>

text \<open>
  What \<open>the fields of a rule set's rule are merged into the outer rule\<close> means: one rule that has
  the fields of both and refers to no rule set.
\<close>

definition merge_rules :: "abstractDefaultRule \<Rightarrow> abstractDefaultRule \<Rightarrow> abstractDefaultRule" where
  "merge_rules r b =
     r\<lparr>items := items r @ items b,
       sourceAddressItems := sourceAddressItems r @ sourceAddressItems b,
       sourcePortItems := sourcePortItems r @ sourcePortItems b,
       destinationAddressItems := destinationAddressItems r @ destinationAddressItems b,
       destinationIPCIDRItems := destinationIPCIDRItems r @ destinationIPCIDRItems b,
       destinationPortItems := destinationPortItems r @ destinationPortItems b,
       allItems := allItems r @ allItems b,
       ruleSetItem := None\<rparr>"

lemma group_items_merge:
  "group_items (merge_rules r b) md k = [] \<longleftrightarrow> group_items r md k = [] \<and> group_items b md k = []"
  "matchAnyItem env (group_items (merge_rules r b) md k) md \<longleftrightarrow>
     matchAnyItem env (group_items r md k) md \<or> matchAnyItem env (group_items b md k) md"
  by (auto simp: group_items_def merge_rules_def)

lemma group_items_nested:
  "IPCIDRMatchSource md = ipCidrMatchSource item \<Longrightarrow>
     group_items b (prepareNestedMatch item md) = group_items b md"
  by (rule ext) (simp add: group_items_def)

lemma item_Match_nested:
  assumes "IPCIDRMatchSource md = ipCidrMatchSource item" "IPCIDRAcceptEmpty md = ipCidrAcceptEmpty item"
  shows "item_Match env it (prepareNestedMatch item md) = item_Match env it md"
proof -
  have "prepareNestedMatch item md = ResetRuleMatchCache md"
    using assms by (simp add: prepareNestedMatch_def ResetRuleMatchCache_def)
  then show ?thesis by simp
qed

lemma matchAnyItem_nested:
  "IPCIDRMatchSource md = ipCidrMatchSource item \<Longrightarrow> IPCIDRAcceptEmpty md = ipCidrAcceptEmpty item \<Longrightarrow>
     matchAnyItem env its (prepareNestedMatch item md) = matchAnyItem env its md"
  by (simp add: matchAnyItem_def item_Match_nested)

lemma rule_formula_merge:
  assumes "ruleSetItem r = Some item" "setList item = [tag]" "rs_mergeableRule (sets tag) = Some b"
    "IPCIDRMatchSource md = ipCidrMatchSource item" "IPCIDRAcceptEmpty md = ipCidrAcceptEmpty item"
  shows "rule_formula env sets r md = rule_formula env sets (merge_rules r b) md"
proof -
  have "merged_ok env r md b (prepareNestedMatch item md) k = group_ok env (merge_rules r b) md k" for k
    using assms(4,5)
    by (auto simp: merged_ok_def group_ok_def group_items_merge group_items_nested matchAnyItem_nested)
  then show ?thesis
    using assms by (auto simp: rule_formula_def set_formula_def item_Match_nested list_all_iff merge_rules_def)
qed

subsection \<open>Properties\<close>

text \<open>
  C1: when destination addresses are not being ignored, a route rule matches exactly when it has no
  condition at all, or the documented formula (groups conjoined, fields of a group disjoined, other
  fields conjoined, rule sets merged or conjoined, alternatives between rule sets) holds, negated
  for an inverted rule.
\<close>

theorem default_rule_documented:
  assumes "\<not> IgnoreDestinationIPCIDRMatch md" "DeferredIPCIDRMatchGroups md = 0"
  shows "fst (rule_Match env (router_sets env store) (DefaultRule r) md) \<longleftrightarrow>
           allItems r = [] \<or> (invert r \<noteq> rule_formula env (router_sets env store) r md)"
  using settled_router.default_formula(1)[OF assms] by auto

theorem default_rule_documented_witness:
  "fst (rule_Match sample_env (router_sets sample_env Map.empty) (DefaultRule tcp_rule) tcp_context)"
  unfolding default_rule_documented[OF sample_contexts(4) sample_contexts(3)]
  by (simp add: rule_formula_def group_ok_def group_items_def sample_defs NewNetworkItem_def NetworkItem_Match_def
      upt_rec)



text \<open>
  C3: started without a pending group, a logical rule computes Kleene's conjunction (mode \<open>and\<close>) or
  disjunction of the verdicts of its sub-rules, each evaluated on the metadata with a cleared rule
  cache, and its negation when inverted.
\<close>

theorem logical_rule_is_kleene:
  assumes "DeferredIPCIDRMatchGroups md = 0"
  shows "verdict_of (rule_Match env (router_sets env store) (LogicalRule rules mode inv' act) md) =
           v_invert inv' ((if mode = ''and'' then v_and else v_or)
             (map (\<lambda>rule. verdict_of (rule_Match env (router_sets env store) rule (ResetRuleCache md))) rules))"
  using logical_verdict[of "map (rule_Match env (router_sets env store)) rules" md mode inv'] assms
    router.rule_Match_frame
  by (simp add: list_all_iff comp_def)

theorem logical_rule_is_kleene_witness:
  "verdict_of (rule_Match sample_env (router_sets sample_env Map.empty) (LogicalRule [] ''and'' True None) zero_context) = VFalse"
  using logical_rule_is_kleene[OF sample_contexts(1), of sample_env Map.empty "[]" "''and''" True None]
  by (simp add: v_invert_def)

text \<open>
  C4: matching a rule of any kind, with any rule sets, changes nothing in the metadata but the rule
  cache: the four group flags and the pending groups. In particular the flags that direct the IP
  CIDR items, which rule sets and logical rules overwrite, are restored.
\<close>

theorem rule_match_frame:
  "ResetRuleMatchCache (snd (rule_Match env (router_sets env store) rule md)) = ResetRuleMatchCache md"
  using router.rule_Match_frame by (simp add: match_frame_def)

end
