(* ===== verification/RuleOptions.thy ===== *)
theory RuleOptions
  imports RuleMatch
begin

text \<open>
  The parsed configuration of rules (\<open>option/rule.go\<close>, \<open>option/rule_dns.go\<close>, \<open>option/rule_set.go\<close>):
  the option structs as records with the fields of the Go structs (prefix \<open>h_\<close> for headless, \<open>o_\<close> for
  route and \<open>d_\<close> for DNS rules), their zero values and the validity checks. An absent and an empty
  list are the same value. The recursive option types are datatypes; their fields are the type name,
  the default options, and the mode, sub-rules, inversion (and action) of the logical options.
\<close>

subsection \<open>Option structs\<close>

record DefaultHeadlessRule_options =
  h_QueryType :: "u16 list"
  h_Network :: "string list"
  h_Domain :: "string list"
  h_DomainSuffix :: "string list"
  h_DomainKeyword :: "string list"
  h_DomainRegex :: "string list"
  h_SourceIPCIDR :: "string list"
  h_IPCIDR :: "string list"
  h_SourcePort :: "u16 list"
  h_SourcePortRange :: "string list"
  h_Port :: "u16 list"
  h_PortRange :: "string list"
  h_ProcessName :: "string list"
  h_ProcessPath :: "string list"
  h_ProcessPathRegex :: "string list"
  h_PackageName :: "string list"
  h_PackageNameRegex :: "string list"
  h_NetworkType :: "InterfaceType list"
  h_NetworkIsExpensive :: bool
  h_NetworkIsConstrained :: bool
  h_WIFISSID :: "string list"
  h_WIFIBSSID :: "string list"
  h_NetworkInterfaceAddress :: "(InterfaceType \<times> Prefix list) list option"
  h_DefaultInterfaceAddress :: "Prefix list"
  h_Invert :: bool
  h_DomainMatcher :: "matcher option"
  h_SourceIPSet :: "ipset option"
  h_IPSet :: "ipset option"
  h_AdGuardDomain :: "string list"
  h_AdGuardDomainMatcher :: "matcher option"

record RawDefaultRule =
  o_Inbound :: "string list"
  o_IPVersion :: int
  o_Network :: "string list"
  o_AuthUser :: "string list"
  o_Protocol :: "string list"
  o_Client :: "string list"
  o_Domain :: "string list"
  o_DomainSuffix :: "string list"
  o_DomainKeyword :: "string list"
  o_DomainRegex :: "string list"
  o_Geosite :: "string list"
  o_SourceGeoIP :: "string list"
  o_GeoIP :: "string list"
  o_SourceIPCIDR :: "string list"
  o_SourceIPIsPrivate :: bool
  o_IPCIDR :: "string list"
  o_IPIsPrivate :: bool
  o_SourcePort :: "u16 list"
  o_SourcePortRange :: "string list"
  o_Port :: "u16 list"
  o_PortRange :: "string list"
  o_ProcessName :: "string list"
  o_ProcessPath :: "string list"
  o_ProcessPathRegex :: "string list"
  o_PackageName :: "string list"
  o_PackageNameRegex :: "string list"
  o_User :: "string list"
  o_UserID :: "int list"
  o_ClashMode :: string
  o_NetworkType :: "InterfaceType list"
  o_NetworkIsExpensive :: bool
  o_NetworkIsConstrained :: bool
  o_WIFISSID :: "string list"
  o_WIFIBSSID :: "string list"
  o_InterfaceAddress :: "(string \<times> Prefix list) list option"
  o_NetworkInterfaceAddress :: "(InterfaceType \<times> Prefix list) list option"
  o_DefaultInterfaceAddress :: "Prefix list"
  o_SourceMACAddress :: "string list"
  o_SourceHostname :: "string list"
  o_PreferredBy :: "string list"
  o_RuleSet :: "string list"
  o_RuleSetIPCIDRMatchSource :: bool
  o_Invert :: bool
  o_Deprecated_RulesetIPCIDRMatchSource :: bool

record RawDefaultDNSRule =
  d_Inbound :: "string list"
  d_IPVersion :: int
  d_QueryType :: "u16 list"
  d_QueryClientSubnet :: "Prefix list"
  d_QueryDNSSEC :: bool
  d_Network :: "string list"
  d_AuthUser :: "string list"
  d_Protocol :: "string list"
  d_Domain :: "string list"
  d_DomainSuffix :: "string list"
  d_DomainKeyword :: "string list"
  d_DomainRegex :: "string list"
  d_SourceIPCIDR :: "string list"
  d_SourceIPIsPrivate :: bool
  d_SourcePort :: "u16 list"
  d_SourcePortRange :: "string list"
  d_Port :: "u16 list"
  d_PortRange :: "string list"
  d_ProcessName :: "string list"
  d_ProcessPath :: "string list"
  d_ProcessPathRegex :: "string list"
  d_PackageName :: "string list"
  d_PackageNameRegex :: "string list"
  d_User :: "string list"
  d_UserID :: "int list"
  d_Outbound :: "string list"
  d_ClashMode :: string
  d_NetworkType :: "InterfaceType list"
  d_NetworkIsExpensive :: bool
  d_NetworkIsConstrained :: bool
  d_WIFISSID :: "string list"
  d_WIFIBSSID :: "string list"
  d_InterfaceAddress :: "(string \<times> Prefix list) list option"
  d_NetworkInterfaceAddress :: "(InterfaceType \<times> Prefix list) list option"
  d_DefaultInterfaceAddress :: "Prefix list"
  d_SourceMACAddress :: "string list"
  d_SourceHostname :: "string list"
  d_PreferredBy :: "string list"
  d_RuleSet :: "string list"
  d_RuleSetIPCIDRMatchSource :: bool
  d_MatchResponse :: "(bool \<times> string) option"
  d_IPCIDR :: "string list"
  d_IPIsPrivate :: bool
  d_IPAcceptAny :: bool
  d_ResponseRcode :: "int option"
  d_ResponseAnswer :: "RR option list"
  d_ResponseNs :: "RR option list"
  d_ResponseExtra :: "RR option list"
  d_Invert :: bool
  d_Geosite :: "string list"
  d_SourceGeoIP :: "string list"
  d_GeoIP :: "string list"
  d_RuleSetIPCIDRAcceptEmpty :: bool
  d_Deprecated_RulesetIPCIDRMatchSource :: bool

datatype (plugins only: size) HeadlessRule_options =
  HeadlessRule_options (hr_Type: string) (hr_Default: DefaultHeadlessRule_options)
    (hr_Mode: string) (hr_Rules: "HeadlessRule_options list") (hr_Invert: bool)

datatype (plugins only: size) Rule_options =
  Rule_options (ro_Type: string) (ro_Default: RawDefaultRule) (ro_DefaultAction: RuleAction_options)
    (ro_Mode: string) (ro_Rules: "Rule_options list") (ro_Invert: bool) (ro_LogicalAction: RuleAction_options)

datatype (plugins only: size) DNSRule_options =
  DNSRule_options (dro_Type: string) (dro_Default: RawDefaultDNSRule) (dro_DefaultAction: DNSRuleAction_options)
    (dro_Mode: string) (dro_Rules: "DNSRule_options list") (dro_Invert: bool) (dro_LogicalAction: DNSRuleAction_options)

subsection \<open>Zero values\<close>

definition headless_zero :: DefaultHeadlessRule_options where
  "headless_zero =
     \<lparr>h_QueryType = [], h_Network = [], h_Domain = [], h_DomainSuffix = [], h_DomainKeyword = [],
      h_DomainRegex = [], h_SourceIPCIDR = [], h_IPCIDR = [], h_SourcePort = [],
      h_SourcePortRange = [], h_Port = [], h_PortRange = [], h_ProcessName = [],
      h_ProcessPath = [], h_ProcessPathRegex = [], h_PackageName = [], h_PackageNameRegex = [],
      h_NetworkType = [], h_NetworkIsExpensive = False, h_NetworkIsConstrained = False,
      h_WIFISSID = [], h_WIFIBSSID = [], h_NetworkInterfaceAddress = None,
      h_DefaultInterfaceAddress = [], h_Invert = False, h_DomainMatcher = None,
      h_SourceIPSet = None, h_IPSet = None, h_AdGuardDomain = [], h_AdGuardDomainMatcher = None\<rparr>"

definition raw_rule_zero :: RawDefaultRule where
  "raw_rule_zero =
     \<lparr>o_Inbound = [], o_IPVersion = 0, o_Network = [], o_AuthUser = [], o_Protocol = [],
      o_Client = [], o_Domain = [], o_DomainSuffix = [], o_DomainKeyword = [],
      o_DomainRegex = [], o_Geosite = [], o_SourceGeoIP = [], o_GeoIP = [], o_SourceIPCIDR = [],
      o_SourceIPIsPrivate = False, o_IPCIDR = [], o_IPIsPrivate = False, o_SourcePort = [],
      o_SourcePortRange = [], o_Port = [], o_PortRange = [], o_ProcessName = [],
      o_ProcessPath = [], o_ProcessPathRegex = [], o_PackageName = [], o_PackageNameRegex = [],
      o_User = [], o_UserID = [], o_ClashMode = [], o_NetworkType = [],
      o_NetworkIsExpensive = False, o_NetworkIsConstrained = False, o_WIFISSID = [],
      o_WIFIBSSID = [], o_InterfaceAddress = None, o_NetworkInterfaceAddress = None,
      o_DefaultInterfaceAddress = [], o_SourceMACAddress = [], o_SourceHostname = [],
      o_PreferredBy = [], o_RuleSet = [], o_RuleSetIPCIDRMatchSource = False, o_Invert = False,
      o_Deprecated_RulesetIPCIDRMatchSource = False\<rparr>"

definition raw_dns_rule_zero :: RawDefaultDNSRule where
  "raw_dns_rule_zero =
     \<lparr>d_Inbound = [], d_IPVersion = 0, d_QueryType = [], d_QueryClientSubnet = [],
      d_QueryDNSSEC = False, d_Network = [], d_AuthUser = [], d_Protocol = [], d_Domain = [],
      d_DomainSuffix = [], d_DomainKeyword = [], d_DomainRegex = [], d_SourceIPCIDR = [],
      d_SourceIPIsPrivate = False, d_SourcePort = [], d_SourcePortRange = [], d_Port = [],
      d_PortRange = [], d_ProcessName = [], d_ProcessPath = [], d_ProcessPathRegex = [],
      d_PackageName = [], d_PackageNameRegex = [], d_User = [], d_UserID = [], d_Outbound = [],
      d_ClashMode = [], d_NetworkType = [], d_NetworkIsExpensive = False,
      d_NetworkIsConstrained = False, d_WIFISSID = [], d_WIFIBSSID = [],
      d_InterfaceAddress = None, d_NetworkInterfaceAddress = None,
      d_DefaultInterfaceAddress = [], d_SourceMACAddress = [], d_SourceHostname = [],
      d_PreferredBy = [], d_RuleSet = [], d_RuleSetIPCIDRMatchSource = False,
      d_MatchResponse = None, d_IPCIDR = [], d_IPIsPrivate = False, d_IPAcceptAny = False,
      d_ResponseRcode = None, d_ResponseAnswer = [], d_ResponseNs = [], d_ResponseExtra = [],
      d_Invert = False, d_Geosite = [], d_SourceGeoIP = [], d_GeoIP = [],
      d_RuleSetIPCIDRAcceptEmpty = False, d_Deprecated_RulesetIPCIDRMatchSource = False\<rparr>"

definition raw_route_zero :: RawRouteOptionsActionOptions where
  "raw_route_zero =
     \<lparr>ro_OverrideAddress = [], ro_OverridePort = 0, ro_NetworkStrategy = None, ro_FallbackDelay = 0,
      ro_UDPDisableDomainUnmapping = False, ro_UDPConnect = False, ro_UDPTimeout = 0,
      ro_TLSFragment = False, ro_TLSFragmentFallbackDelay = 0, ro_TLSRecordFragment = False,
      ro_TLSSpoof = [], ro_TLSSpoofMethod = []\<rparr>"

definition rule_action_zero :: RuleAction_options where
  "rule_action_zero =
     \<lparr>ra_Action = [], ra_RouteOptions = \<lparr>rao_Outbound = [], rao_Raw = raw_route_zero\<rparr>,
      ra_RouteOptionsOptions = raw_route_zero,
      ra_DirectOptions =
        \<lparr>do_BindInterface = [], do_Inet4BindAddress = None, do_Inet6BindAddress = None,
         do_RoutingMark = 0, do_ReuseAddr = False, do_ConnectTimeout = 0, do_TCPFastOpen = False,
         do_TCPMultiPath = False, do_UDPFragment = None, do_DomainStrategy = 0, do_FallbackDelay = 0\<rparr>,
      ra_BypassOptions = \<lparr>rao_Outbound = [], rao_Raw = raw_route_zero\<rparr>,
      ra_RejectOptions = \<lparr>rej_Method = [], rej_NoDrop = False\<rparr>,
      ra_SniffOptions = \<lparr>sn_Sniffer = [], sn_Timeout = 0\<rparr>,
      ra_ResolveOptions =
        \<lparr>rv_Server = [], rv_Timeout = 0, rv_Strategy = 0, rv_DisableCache = False,
         rv_DisableOptimisticCache = False, rv_RewriteTTL = None, rv_ClientSubnet = None\<rparr>\<rparr>"

definition dns_route_zero :: AbstractDNSRouteActionOptions where
  "dns_route_zero =
     \<lparr>dr_Timeout = 0, dr_Strategy = 0, dr_DisableCache = False, dr_DisableOptimisticCache = False,
      dr_RewriteTTL = None, dr_ClientSubnet = None, dr_RemoveClientSubnet = False\<rparr>"

definition dns_action_zero :: DNSRuleAction_options where
  "dns_action_zero =
     \<lparr>da_Action = [], da_Race = False,
      da_RouteOptions = \<lparr>dra_Server = [], dra_Speculative = False, dra_Abstract = dns_route_zero\<rparr>,
      da_EvaluateOptions =
        \<lparr>dea_Server = [], dea_Tag = [], dea_Speculative = False, dea_Abstract = dns_route_zero\<rparr>,
      da_RouteOptionsOptions = dns_route_zero,
      da_RejectOptions = \<lparr>rej_Method = [], rej_NoDrop = False\<rparr>,
      da_PredefinedOptions = \<lparr>pre_Rcode = None, pre_Answer = [], pre_Ns = [], pre_Extra = []\<rparr>\<rparr>"

subsection \<open>Validity\<close>

definition DefaultHeadlessRule_IsValid :: "DefaultHeadlessRule_options \<Rightarrow> bool" where
  "DefaultHeadlessRule_IsValid r \<longleftrightarrow> r \<noteq> headless_zero\<lparr>h_Invert := h_Invert r\<rparr>"

definition DefaultRule_IsValid :: "RawDefaultRule \<Rightarrow> RuleAction_options \<Rightarrow> bool" where
  "DefaultRule_IsValid r a \<longleftrightarrow> \<not> (r = raw_rule_zero\<lparr>o_Invert := o_Invert r\<rparr> \<and> a = rule_action_zero)"

definition DefaultDNSRule_IsValid :: "RawDefaultDNSRule \<Rightarrow> DNSRuleAction_options \<Rightarrow> bool" where
  "DefaultDNSRule_IsValid r a \<longleftrightarrow> \<not> (r = raw_dns_rule_zero\<lparr>d_Invert := d_Invert r\<rparr> \<and> a = dns_action_zero)"

text \<open>\<open>common.All\<close> with a predicate that can panic.\<close>

fun res_all :: "('a \<Rightarrow> bool result) \<Rightarrow> 'a list \<Rightarrow> bool result" where
  "res_all p [] = Inr True"
| "res_all p (x # xs) = res_bind (p x) (\<lambda>b. if b then res_all p xs else Inr False)"

lemma res_all_cong [fundef_cong]:
  "xs = ys \<Longrightarrow> (\<And>x. x \<in> set ys \<Longrightarrow> p x = q x) \<Longrightarrow> res_all p xs = res_all q ys"
  by (induction ys arbitrary: xs) (auto cong: if_cong)

lemma res_all_True_iff: "res_all p xs = Inr True \<longleftrightarrow> (\<forall>x\<in>set xs. p x = Inr True)"
  by (induction xs) (auto simp: res_bind_Inr_iff)

fun HeadlessRule_IsValid :: "HeadlessRule_options \<Rightarrow> bool result" where
  "HeadlessRule_IsValid (HeadlessRule_options type' default' mode rules inv') =
     (if type' = ''default'' \<or> type' = [] then Inr (DefaultHeadlessRule_IsValid default')
      else if type' = ''logical'' then
        (if length rules > 0 then res_all HeadlessRule_IsValid rules else Inr False)
      else Inl (EPanic (''unknown rule type: '' @ type')))"

definition LogicalHeadlessRule_IsValid :: "HeadlessRule_options list \<Rightarrow> bool result" where
  "LogicalHeadlessRule_IsValid rules =
     (if length rules > 0 then res_all HeadlessRule_IsValid rules else Inr False)"

fun Rule_IsValid :: "Rule_options \<Rightarrow> bool result" where
  "Rule_IsValid (Rule_options type' default' action' mode rules inv' laction) =
     (if type' = ''default'' then Inr (DefaultRule_IsValid default' action')
      else if type' = ''logical'' then
        (if length rules > 0 then res_all Rule_IsValid rules else Inr False)
      else Inl (EPanic (''unknown rule type: '' @ type')))"

definition LogicalRule_IsValid :: "Rule_options list \<Rightarrow> bool result" where
  "LogicalRule_IsValid rules =
     (if length rules > 0 then res_all Rule_IsValid rules else Inr False)"

fun DNSRule_IsValid :: "DNSRule_options \<Rightarrow> bool result" where
  "DNSRule_IsValid (DNSRule_options type' default' action' mode rules inv' laction) =
     (if type' = ''default'' then Inr (DefaultDNSRule_IsValid default' action')
      else if type' = ''logical'' then
        (if length rules > 0 then res_all DNSRule_IsValid rules else Inr False)
      else Inl (EPanic (''unknown DNS rule type: '' @ type')))"

definition LogicalDNSRule_IsValid :: "DNSRule_options list \<Rightarrow> bool result" where
  "LogicalDNSRule_IsValid rules =
     (if length rules > 0 then res_all DNSRule_IsValid rules else Inr False)"

end
