(* ===== verification/RuleBuild.thy ===== *)
theory RuleBuild
  imports RuleOptions
begin

text \<open>
  Building rules from options: \<open>NewHeadlessRule\<close> (\<open>rule_headless.go\<close>), \<open>NewRule\<close>
  (\<open>rule_default.go\<close>), \<open>NewDNSRule\<close> (\<open>rule_dns.go\<close>) and the check against actions in nested rules
  (\<open>rule_nested_action.go\<close>). A constructor is a sequence of steps in the order of the source; a step
  adds an item to one group of the rule (and to \<open>allItems\<close>) when its option is set, or returns the
  error of the item's constructor.

  Lemmas: every rule a constructor returns is well formed (\<open>wf_default\<close>: \<open>allItems\<close> lists the items
  of all groups and the rule-set item), headless rules refer to no rule set, sub-rules carry no
  action, the error branches.
\<close>

subsection \<open>Steps\<close>

type_synonym build_step = "abstractDefaultRule \<Rightarrow> abstractDefaultRule result"
type_synonym adder = "RuleItem \<Rightarrow> abstractDefaultRule \<Rightarrow> abstractDefaultRule"

definition to_items :: adder where
  "to_items item rule = rule\<lparr>items := items rule @ [item], allItems := allItems rule @ [ItemRef item]\<rparr>"

definition to_sourceAddress :: adder where
  "to_sourceAddress item rule =
     rule\<lparr>sourceAddressItems := sourceAddressItems rule @ [item], allItems := allItems rule @ [ItemRef item]\<rparr>"

definition to_sourcePort :: adder where
  "to_sourcePort item rule =
     rule\<lparr>sourcePortItems := sourcePortItems rule @ [item], allItems := allItems rule @ [ItemRef item]\<rparr>"

definition to_destinationAddress :: adder where
  "to_destinationAddress item rule =
     rule\<lparr>destinationAddressItems := destinationAddressItems rule @ [item],
          allItems := allItems rule @ [ItemRef item]\<rparr>"

definition to_destinationIPCIDR :: adder where
  "to_destinationIPCIDR item rule =
     rule\<lparr>destinationIPCIDRItems := destinationIPCIDRItems rule @ [item],
          allItems := allItems rule @ [ItemRef item]\<rparr>"

definition to_destinationPort :: adder where
  "to_destinationPort item rule =
     rule\<lparr>destinationPortItems := destinationPortItems rule @ [item],
          allItems := allItems rule @ [ItemRef item]\<rparr>"

lemmas adder_defs = to_items_def to_sourceAddress_def to_sourcePort_def to_destinationAddress_def
  to_destinationIPCIDR_def to_destinationPort_def

definition step_result :: "bool \<Rightarrow> adder \<Rightarrow> RuleItem result \<Rightarrow> build_step" where
  "step_result cond add item rule = (if cond then res_bind item (\<lambda>it. Inr (add it rule)) else Inr rule)"

definition step :: "bool \<Rightarrow> adder \<Rightarrow> RuleItem \<Rightarrow> build_step" where
  "step cond add item = step_result cond add (Inr item)"

definition step_fail :: "bool \<Rightarrow> error \<Rightarrow> build_step" where
  "step_fail cond err rule = (if cond then Inl err else Inr rule)"

fun run_steps :: "build_step list \<Rightarrow> build_step" where
  "run_steps [] rule = Inr rule"
| "run_steps (s # ss) rule = res_bind (s rule) (run_steps ss)"

definition set_ruleSetItem :: "RuleSetItem \<Rightarrow> abstractDefaultRule \<Rightarrow> abstractDefaultRule" where
  "set_ruleSetItem item rule = rule\<lparr>ruleSetItem := Some item, allItems := allItems rule @ [RuleSetItemRef]\<rparr>"

definition new_rule :: "bool \<Rightarrow> RuleAction option \<Rightarrow> abstractDefaultRule" where
  "new_rule inv' act =
     \<lparr>items = [], sourceAddressItems = [], sourcePortItems = [], destinationAddressItems = [],
      destinationIPCIDRItems = [], destinationPortItems = [], allItems = [], ruleSetItem = None,
      invert = inv', action = act\<rparr>"

definition map_nonempty :: "('k \<times> 'v) list option \<Rightarrow> bool" where
  "map_nonempty m = (case m of None \<Rightarrow> False | Some es \<Rightarrow> length es > 0)"

definition entries :: "('k \<times> 'v) list option \<Rightarrow> ('k \<times> 'v) list" where
  "entries m = (case m of None \<Rightarrow> [] | Some es \<Rightarrow> es)"

subsection \<open>Headless rules\<close>

text \<open>\<open>hasNetworkManager\<close> says whether the context holds a network manager.\<close>

definition domain_steps :: "rule_env \<Rightarrow> DefaultHeadlessRule_options \<Rightarrow> build_step" where
  "domain_steps env options =
     (if length (h_Domain options) > 0 \<or> length (h_DomainSuffix options) > 0
      then step_result True to_destinationAddress (NewDomainItem env (h_Domain options) (h_DomainSuffix options))
      else case h_DomainMatcher options of
        Some m \<Rightarrow> step True to_destinationAddress (NewRawDomainItem m)
      | None \<Rightarrow> Inr)"

definition source_cidr_steps :: "rule_env \<Rightarrow> DefaultHeadlessRule_options \<Rightarrow> build_step" where
  "source_cidr_steps env options =
     (if length (h_SourceIPCIDR options) > 0
      then step_result True to_sourceAddress
             (res_cause ''source_ip_cidr'' (NewIPCIDRItem env True (h_SourceIPCIDR options)))
      else case h_SourceIPSet options of
        Some s \<Rightarrow> step True to_sourceAddress (NewRawIPCIDRItem True s)
      | None \<Rightarrow> Inr)"

definition cidr_steps :: "rule_env \<Rightarrow> DefaultHeadlessRule_options \<Rightarrow> build_step" where
  "cidr_steps env options =
     (if length (h_IPCIDR options) > 0
      then step_result True to_destinationIPCIDR
             (res_cause ''ipcidr'' (NewIPCIDRItem env False (h_IPCIDR options)))
      else case h_IPSet options of
        Some s \<Rightarrow> step True to_destinationIPCIDR (NewRawIPCIDRItem False s)
      | None \<Rightarrow> Inr)"

definition adguard_steps :: "rule_env \<Rightarrow> DefaultHeadlessRule_options \<Rightarrow> build_step" where
  "adguard_steps env options =
     (if length (h_AdGuardDomain options) > 0
      then step True to_destinationAddress (NewAdGuardDomainItem env (h_AdGuardDomain options))
      else case h_AdGuardDomainMatcher options of
        Some m \<Rightarrow> step True to_destinationAddress (NewRawAdGuardDomainItem m)
      | None \<Rightarrow> Inr)"

definition network_state_steps :: "rule_env \<Rightarrow> DefaultHeadlessRule_options \<Rightarrow> build_step list" where
  "network_state_steps env options =
     [step (length (h_NetworkType options) > 0) to_items (NetworkTypeItem (h_NetworkType options)),
      step (h_NetworkIsExpensive options) to_items NetworkIsExpensiveItem,
      step (h_NetworkIsConstrained options) to_items NetworkIsConstrainedItem,
      step (length (h_WIFISSID options) > 0) to_items (NewWIFISSIDItem (h_WIFISSID options)),
      step (length (h_WIFIBSSID options) > 0) to_items (NewWIFIBSSIDItem env (h_WIFIBSSID options)),
      step (map_nonempty (h_NetworkInterfaceAddress options)) to_items
        (NewNetworkInterfaceAddressItem env (entries (h_NetworkInterfaceAddress options))),
      step (length (h_DefaultInterfaceAddress options) > 0) to_items
        (NewDefaultInterfaceAddressItem env (h_DefaultInterfaceAddress options))]"

definition headless_rule_steps :: "rule_env \<Rightarrow> bool \<Rightarrow> DefaultHeadlessRule_options \<Rightarrow> build_step list" where
  "headless_rule_steps env hasNetworkManager options =
      ([step (length (h_QueryType options) > 0) to_items (NewQueryTypeItem (h_QueryType options)),
        step (length (h_Network options) > 0) to_items (NewNetworkItem (h_Network options)),
        domain_steps env options,
        step (length (h_DomainKeyword options) > 0) to_destinationAddress
          (NewDomainKeywordItem (h_DomainKeyword options)),
        step_result (length (h_DomainRegex options) > 0) to_destinationAddress
          (res_cause ''domain_regex'' (NewDomainRegexItem env (h_DomainRegex options))),
        source_cidr_steps env options,
        cidr_steps env options,
        step (length (h_SourcePort options) > 0) to_sourcePort (NewPortItem True (h_SourcePort options)),
        step_result (length (h_SourcePortRange options) > 0) to_sourcePort
          (res_cause ''source_port_range'' (NewPortRangeItem True (h_SourcePortRange options))),
        step (length (h_Port options) > 0) to_destinationPort (NewPortItem False (h_Port options)),
        step_result (length (h_PortRange options) > 0) to_destinationPort
          (res_cause ''port_range'' (NewPortRangeItem False (h_PortRange options))),
        step (length (h_ProcessName options) > 0) to_items (NewProcessItem (h_ProcessName options)),
        step (length (h_ProcessPath options) > 0) to_items (NewProcessPathItem (h_ProcessPath options)),
        step_result (length (h_ProcessPathRegex options) > 0) to_items
          (res_cause ''process_path_regex'' (NewProcessPathRegexItem env (h_ProcessPathRegex options))),
        step (length (h_PackageName options) > 0) to_items (NewPackageNameItem (h_PackageName options)),
        step_result (length (h_PackageNameRegex options) > 0) to_items
          (res_cause ''package_name_regex'' (NewPackageNameRegexItem env (h_PackageNameRegex options)))] @
       (if hasNetworkManager then network_state_steps env options else []) @
       [adguard_steps env options])"

definition NewDefaultHeadlessRule ::
    "rule_env \<Rightarrow> bool \<Rightarrow> DefaultHeadlessRule_options \<Rightarrow> abstractDefaultRule result" where
  "NewDefaultHeadlessRule env hasNetworkManager options =
     run_steps (headless_rule_steps env hasNetworkManager options) (new_rule (h_Invert options) None)"

text \<open>A loop over the sub-rules that reports the index of the one that fails.\<close>

definition index_msg :: "string \<Rightarrow> nat \<Rightarrow> string" where
  "index_msg msg i = msg @ strconv_FormatUint i @ '']''"

fun res_mapiM :: "string \<Rightarrow> ('a \<Rightarrow> 'b result) \<Rightarrow> nat \<Rightarrow> 'a list \<Rightarrow> 'b list result" where
  "res_mapiM msg f i [] = Inr []"
| "res_mapiM msg f i (x # xs) =
     res_bind (res_cause (index_msg msg i) (f x)) (\<lambda>y.
     res_bind (res_mapiM msg f (Suc i) xs) (\<lambda>ys. Inr (y # ys)))"

lemma res_mapiM_cong [fundef_cong]:
  "xs = ys \<Longrightarrow> (\<And>x. x \<in> set ys \<Longrightarrow> f x = g x) \<Longrightarrow> msg = msg' \<Longrightarrow> i = i' \<Longrightarrow>
     res_mapiM msg f i xs = res_mapiM msg' g i' ys"
  by (induction ys arbitrary: xs i i') auto

lemma res_mapiM_Inr_iff:
  "res_mapiM msg f i xs = Inr ys \<longleftrightarrow> length ys = length xs \<and> (\<forall>k < length xs. f (xs ! k) = Inr (ys ! k))"
proof (induction xs arbitrary: i ys)
  case (Cons x xs)
  show ?case
    by (cases ys) (auto simp: res_bind_Inr_iff Cons.IH less_Suc_eq_0_disj)
qed auto

definition logical_mode :: "string \<Rightarrow> string result" where
  "logical_mode mode =
     (if mode = ''and'' then Inr ''and'' else if mode = ''or'' then Inr ''or''
      else Inl (ENew (''unknown logical mode: '' @ mode)))"

fun NewHeadlessRule :: "rule_env \<Rightarrow> bool \<Rightarrow> HeadlessRule_options \<Rightarrow> Rule result" where
  "NewHeadlessRule env hasNM (HeadlessRule_options type' default' mode rules inv') =
     (if type' = [] \<or> type' = ''default'' then
        (if \<not> DefaultHeadlessRule_IsValid default' then Inl (ENew ''missing conditions'')
         else res_bind (NewDefaultHeadlessRule env hasNM default') (\<lambda>r. Inr (DefaultHeadlessRule r)))
      else if type' = ''logical'' then
        res_bind (LogicalHeadlessRule_IsValid rules) (\<lambda>valid.
          if \<not> valid then Inl (ENew ''missing conditions'')
          else
            res_bind (logical_mode mode) (\<lambda>mode'.
            res_bind (res_mapiM ''sub rule['' (NewHeadlessRule env hasNM) 0 rules) (\<lambda>rs.
              Inr (LogicalHeadlessRule rs mode' inv'))))
      else Inl (ENew (''unknown rule type: '' @ type')))"

subsection \<open>Route rules\<close>

definition geo_msg :: "string \<Rightarrow> error" where
  "geo_msg db = ENew (db @ '' database is deprecated in sing-box 1.8.0 and removed in sing-box 1.12.0'')"

definition ipversion_step :: "int \<Rightarrow> build_step" where
  "ipversion_step version =
     (if version > 0 then
        (if version = 4 \<or> version = 6 then step True to_items (IPVersionItem (version = 6))
         else step_fail True (ENew (''invalid ip version: '' @ FormatInt version)))
      else Inr)"

definition rule_set_step :: "string list \<Rightarrow> bool \<Rightarrow> bool \<Rightarrow> bool \<Rightarrow> build_step" where
  "rule_set_step tags deprecated matchSource acceptEmpty rule =
     (if length tags > 0 then
        if deprecated then
          Inl (ENew ''rule_set_ipcidr_match_source is deprecated in sing-box 1.10.0 and removed in sing-box 1.11.0'')
        else Inr (set_ruleSetItem (NewRuleSetItem tags matchSource acceptEmpty) rule)
      else Inr rule)"

definition route_address_steps :: "rule_env \<Rightarrow> RawDefaultRule \<Rightarrow> build_step list" where
  "route_address_steps env options =
      [step (length (o_Inbound options) > 0) to_items (NewInboundRule (o_Inbound options)),
       ipversion_step (o_IPVersion options),
       step (length (o_Network options) > 0) to_items (NewNetworkItem (o_Network options)),
       step (length (o_AuthUser options) > 0) to_items (NewAuthUserItem (o_AuthUser options)),
       step (length (o_Protocol options) > 0) to_items (NewProtocolItem (o_Protocol options)),
       step (length (o_Client options) > 0) to_items (NewClientItem (o_Client options)),
       step_result (length (o_Domain options) > 0 \<or> length (o_DomainSuffix options) > 0) to_destinationAddress
         (NewDomainItem env (o_Domain options) (o_DomainSuffix options)),
       step (length (o_DomainKeyword options) > 0) to_destinationAddress
         (NewDomainKeywordItem (o_DomainKeyword options)),
       step_result (length (o_DomainRegex options) > 0) to_destinationAddress
         (NewDomainRegexItem env (o_DomainRegex options)),
       step_fail (length (o_Geosite options) > 0) (geo_msg ''geosite''),
       step_fail (length (o_SourceGeoIP options) > 0) (geo_msg ''geoip''),
       step_fail (length (o_GeoIP options) > 0) (geo_msg ''geoip''),
       step_result (length (o_SourceIPCIDR options) > 0) to_sourceAddress
         (res_cause ''source_ip_cidr'' (NewIPCIDRItem env True (o_SourceIPCIDR options))),
       step (o_SourceIPIsPrivate options) to_sourceAddress (NewIPIsPrivateItem True),
       step_result (length (o_IPCIDR options) > 0) to_destinationIPCIDR
         (res_cause ''ipcidr'' (NewIPCIDRItem env False (o_IPCIDR options))),
       step (o_IPIsPrivate options) to_destinationIPCIDR (NewIPIsPrivateItem False),
       step (length (o_SourcePort options) > 0) to_sourcePort (NewPortItem True (o_SourcePort options)),
       step_result (length (o_SourcePortRange options) > 0) to_sourcePort
         (res_cause ''source_port_range'' (NewPortRangeItem True (o_SourcePortRange options))),
       step (length (o_Port options) > 0) to_destinationPort (NewPortItem False (o_Port options)),
       step_result (length (o_PortRange options) > 0) to_destinationPort
         (res_cause ''port_range'' (NewPortRangeItem False (o_PortRange options)))]"

definition route_process_steps :: "rule_env \<Rightarrow> RawDefaultRule \<Rightarrow> build_step list" where
  "route_process_steps env options =
      [step (length (o_ProcessName options) > 0) to_items (NewProcessItem (o_ProcessName options)),
       step (length (o_ProcessPath options) > 0) to_items (NewProcessPathItem (o_ProcessPath options)),
       step_result (length (o_ProcessPathRegex options) > 0) to_items
         (res_cause ''process_path_regex'' (NewProcessPathRegexItem env (o_ProcessPathRegex options))),
       step (length (o_PackageName options) > 0) to_items (NewPackageNameItem (o_PackageName options)),
       step_result (length (o_PackageNameRegex options) > 0) to_items
         (res_cause ''package_name_regex'' (NewPackageNameRegexItem env (o_PackageNameRegex options))),
       step (length (o_User options) > 0) to_items (NewUserItem (o_User options)),
       step (length (o_UserID options) > 0) to_items (NewUserIDItem (o_UserID options)),
       step (o_ClashMode options \<noteq> []) to_items (NewClashModeItem (o_ClashMode options)),
       step (length (o_NetworkType options) > 0) to_items (NetworkTypeItem (o_NetworkType options)),
       step (o_NetworkIsExpensive options) to_items NetworkIsExpensiveItem,
       step (o_NetworkIsConstrained options) to_items NetworkIsConstrainedItem,
       step (length (o_WIFISSID options) > 0) to_items (NewWIFISSIDItem (o_WIFISSID options)),
       step (length (o_WIFIBSSID options) > 0) to_items (NewWIFIBSSIDItem env (o_WIFIBSSID options)),
       step (map_nonempty (o_InterfaceAddress options)) to_items
         (NewInterfaceAddressItem env (entries (o_InterfaceAddress options))),
       step (map_nonempty (o_NetworkInterfaceAddress options)) to_items
         (NewNetworkInterfaceAddressItem env (entries (o_NetworkInterfaceAddress options))),
       step (length (o_DefaultInterfaceAddress options) > 0) to_items
         (NewDefaultInterfaceAddressItem env (o_DefaultInterfaceAddress options)),
       step (length (o_SourceMACAddress options) > 0) to_items
         (NewSourceMACAddressItem env (o_SourceMACAddress options)),
       step (length (o_SourceHostname options) > 0) to_items (NewSourceHostnameItem (o_SourceHostname options)),
       step (length (o_PreferredBy options) > 0) to_items (NewPreferredByItem (o_PreferredBy options)),
       rule_set_step (o_RuleSet options) (o_Deprecated_RulesetIPCIDRMatchSource options)
         (o_RuleSetIPCIDRMatchSource options) False]"

definition route_rule_steps :: "rule_env \<Rightarrow> RawDefaultRule \<Rightarrow> build_step list" where
  "route_rule_steps env options = route_address_steps env options @ route_process_steps env options"

definition NewDefaultRule ::
    "rule_env \<Rightarrow> action_env \<Rightarrow> RawDefaultRule \<Rightarrow> RuleAction_options \<Rightarrow> abstractDefaultRule result" where
  "NewDefaultRule env ae options actionOptions =
     res_bind (res_cause ''action'' (NewRuleAction ae actionOptions)) (\<lambda>act.
       run_steps (route_rule_steps env options) (new_rule (o_Invert options) act))"

fun ruleHasConfiguredAction :: "Rule_options \<Rightarrow> bool" where
  "ruleHasConfiguredAction (Rule_options type' default' action' mode rules inv' laction) =
     (if type' = [] \<or> type' = ''default'' then action' \<noteq> rule_action_zero
      else if type' = ''logical'' then laction \<noteq> rule_action_zero
      else False)"

fun validateNoNestedRuleActions :: "Rule_options \<Rightarrow> bool \<Rightarrow> unit result" where
  "validateNoNestedRuleActions (Rule_options type' default' action' mode rules inv' laction) nested =
     (if nested \<and> ruleHasConfiguredAction (Rule_options type' default' action' mode rules inv' laction)
      then Inl (ENew ''rule action is not supported in nested rules'')
      else if type' \<noteq> ''logical'' then Inr ()
      else res_bind (res_mapiM ''sub rule['' (\<lambda>subRule. validateNoNestedRuleActions subRule True) 0 rules)
             (\<lambda>_. Inr ()))"

definition missing_outbound :: "RuleAction_options \<Rightarrow> bool \<Rightarrow> bool" where
  "missing_outbound action' checkOutbound \<longleftrightarrow>
     (ra_Action action' = [] \<or> ra_Action action' = ''route'') \<and>
     rao_Outbound (ra_RouteOptions action') = [] \<and> checkOutbound"

fun NewRule :: "rule_env \<Rightarrow> action_env \<Rightarrow> Rule_options \<Rightarrow> bool \<Rightarrow> Rule result" where
  "NewRule env ae (Rule_options type' default' action' mode rules inv' laction) checkOutbound =
     (if type' = [] \<or> type' = ''default'' then
        (if \<not> DefaultRule_IsValid default' action' then Inl (ENew ''missing conditions'')
         else if missing_outbound action' checkOutbound then Inl (ENew ''missing outbound field'')
         else res_bind (NewDefaultRule env ae default' action') (\<lambda>r. Inr (DefaultRule r)))
      else if type' = ''logical'' then
        res_bind (LogicalRule_IsValid rules) (\<lambda>valid.
          if \<not> valid then Inl (ENew ''missing conditions'')
          else if missing_outbound laction checkOutbound then Inl (ENew ''missing outbound field'')
          else
            res_bind (res_cause ''action'' (NewRuleAction ae laction)) (\<lambda>act.
            res_bind (logical_mode mode) (\<lambda>mode'.
            res_bind (res_mapiM ''sub rule[''
              (\<lambda>sub. res_bind (validateNoNestedRuleActions sub True) (\<lambda>_. NewRule env ae sub False)) 0 rules) (\<lambda>rs.
              Inr (LogicalRule rs mode' inv' act)))))
      else Inl (ENew (''unknown rule type: '' @ type')))"

subsection \<open>Well-formed rules\<close>

text \<open>The group an item belongs to.\<close>

datatype item_class = COther | CSourceAddress | CSourcePort | CDestinationAddress | CDestinationIPCIDR | CDestinationPort

fun class_of :: "RuleItem \<Rightarrow> item_class" where
  "class_of (IPCIDRItem _ isSource _) = (if isSource then CSourceAddress else CDestinationIPCIDR)"
| "class_of (IPIsPrivateItem isSource) = (if isSource then CSourceAddress else CDestinationIPCIDR)"
| "class_of IPAcceptAnyItem = CDestinationIPCIDR"
| "class_of (DomainItem _ _) = CDestinationAddress"
| "class_of (DomainKeywordItem _) = CDestinationAddress"
| "class_of (DomainRegexItem _ _) = CDestinationAddress"
| "class_of (AdGuardDomainItem _) = CDestinationAddress"
| "class_of (PortItem _ _ isSource) = (if isSource then CSourcePort else CDestinationPort)"
| "class_of (PortRangeItem isSource _ _) = (if isSource then CSourcePort else CDestinationPort)"
| "class_of _ = COther"

definition all_class :: "item_class \<Rightarrow> RuleItem list \<Rightarrow> bool" where
  "all_class c its \<longleftrightarrow> list_all (\<lambda>it. class_of it = c) its"

definition group_refs :: "abstractDefaultRule \<Rightarrow> item_ref set" where
  "group_refs r =
     ItemRef ` set (items r @ sourceAddressItems r @ sourcePortItems r @ destinationAddressItems r @
                    destinationIPCIDRItems r @ destinationPortItems r) \<union>
     (if ruleSetItem r = None then {} else {RuleSetItemRef})"

definition wf_default :: "abstractDefaultRule \<Rightarrow> bool" where
  "wf_default r \<longleftrightarrow>
     set (allItems r) = group_refs r \<and>
     all_class COther (items r) \<and> all_class CSourceAddress (sourceAddressItems r) \<and>
     all_class CSourcePort (sourcePortItems r) \<and> all_class CDestinationAddress (destinationAddressItems r) \<and>
     all_class CDestinationIPCIDR (destinationIPCIDRItems r) \<and> all_class CDestinationPort (destinationPortItems r)"

definition wf_step :: "build_step \<Rightarrow> bool" where
  "wf_step s \<longleftrightarrow> (\<forall>r r'. wf_default r \<longrightarrow> s r = Inr r' \<longrightarrow> wf_default r' \<and> invert r' = invert r \<and> action r' = action r)"

definition adds :: "adder \<Rightarrow> item_class \<Rightarrow> bool" where
  "adds add c \<longleftrightarrow> (\<forall>it r. class_of it = c \<longrightarrow> wf_default r \<longrightarrow>
     wf_default (add it r) \<and> invert (add it r) = invert r \<and> action (add it r) = action r)"

lemma adders [simp]:
  "adds to_items COther"
  "adds to_sourceAddress CSourceAddress"
  "adds to_sourcePort CSourcePort"
  "adds to_destinationAddress CDestinationAddress"
  "adds to_destinationIPCIDR CDestinationIPCIDR"
  "adds to_destinationPort CDestinationPort"
  unfolding adds_def wf_default_def group_refs_def all_class_def adder_defs by auto

lemma wf_step_result:
  assumes "adds add c" "\<And>it. res = Inr it \<Longrightarrow> class_of it = c"
  shows "wf_step (step_result cond add res)"
  unfolding wf_step_def
proof (intro allI impI)
  fix r r'
  assume "wf_default r" "step_result cond add res r = Inr r'"
  then show "wf_default r' \<and> invert r' = invert r \<and> action r' = action r"
    using assms by (cases cond; cases res) (auto simp: step_result_def adds_def)
qed

lemma wf_step_step: "adds add c \<Longrightarrow> class_of it = c \<Longrightarrow> wf_step (step cond add it)"
  unfolding step_def by (rule wf_step_result) auto

lemma wf_step_Inr [simp]: "wf_step Inr"
  by (simp add: wf_step_def)

lemma wf_step_fail [simp]: "wf_step (step_fail c e)"
  by (simp add: wf_step_def step_fail_def split: if_splits)

lemma wf_rule_set_step [simp]: "wf_step (rule_set_step tags d ms ae)"
  by (auto simp: wf_step_def rule_set_step_def set_ruleSetItem_def wf_default_def group_refs_def split: if_splits)

lemma wf_stepD:
  "wf_step s \<Longrightarrow> wf_default r \<Longrightarrow> s r = Inr r' \<Longrightarrow>
     wf_default r' \<and> invert r' = invert r \<and> action r' = action r"
  unfolding wf_step_def by blast

lemma wf_run_steps:
  assumes "list_all wf_step ss" "wf_default r" "run_steps ss r = Inr r'"
  shows "wf_default r' \<and> invert r' = invert r \<and> action r' = action r"
  using assms
proof (induction ss arbitrary: r)
  case (Cons s ss)
  then obtain r1 where r1: "s r = Inr r1" "run_steps ss r1 = Inr r'" by (auto simp: res_bind_Inr_iff)
  have "wf_default r1 \<and> invert r1 = invert r \<and> action r1 = action r"
    using wf_stepD[of s r r1] Cons.prems(1,2) r1(1) by simp
  then show ?case using Cons.IH[of r1] Cons.prems(1) r1(2) by simp
qed simp

lemma new_rule_wf [simp]: "wf_default (new_rule b a)"
  by (simp add: wf_default_def new_rule_def group_refs_def all_class_def)

lemma class_of_results:
  "NewDomainItem env a b = Inr it \<Longrightarrow> class_of it = CDestinationAddress"
  "NewDomainRegexItem env xs = Inr it \<Longrightarrow> class_of it = CDestinationAddress"
  "NewIPCIDRItem env src xs = Inr it \<Longrightarrow> class_of it = (if src then CSourceAddress else CDestinationIPCIDR)"
  "NewPortRangeItem src xs = Inr it \<Longrightarrow> class_of it = (if src then CSourcePort else CDestinationPort)"
  "NewProcessPathRegexItem env xs = Inr it \<Longrightarrow> class_of it = COther"
  "NewPackageNameRegexItem env xs = Inr it \<Longrightarrow> class_of it = COther"
  by (auto simp: NewDomainItem_def NewDomainRegexItem_def NewIPCIDRItem_def NewPortRangeItem_def
      NewProcessPathRegexItem_def NewPackageNameRegexItem_def res_bind_Inr_iff Let_def split: if_splits)

lemma class_of_new [simp]:
  "class_of (NewInboundRule xs) = COther" "class_of (NewNetworkItem xs) = COther"
  "class_of (NewAuthUserItem xs) = COther" "class_of (NewProtocolItem xs) = COther"
  "class_of (NewClientItem xs) = COther" "class_of (NewDomainKeywordItem xs) = CDestinationAddress"
  "class_of (NewIPIsPrivateItem src) = (if src then CSourceAddress else CDestinationIPCIDR)"
  "class_of (NewPortItem src ps) = (if src then CSourcePort else CDestinationPort)"
  "class_of (NewProcessItem xs) = COther" "class_of (NewProcessPathItem xs) = COther"
  "class_of (NewPackageNameItem xs) = COther" "class_of (NewUserItem xs) = COther"
  "class_of (NewUserIDItem is) = COther" "class_of (NewClashModeItem m) = COther"
  "class_of (NewWIFISSIDItem xs) = COther" "class_of (NewWIFIBSSIDItem env xs) = COther"
  "class_of (NewInterfaceAddressItem env es) = COther"
  "class_of (NewNetworkInterfaceAddressItem env es') = COther"
  "class_of (NewDefaultInterfaceAddressItem env pl) = COther"
  "class_of (NewSourceMACAddressItem env xs) = COther" "class_of (NewSourceHostnameItem xs) = COther"
  "class_of (NewPreferredByItem xs) = COther" "class_of (NewQueryTypeItem qs) = COther"
  "class_of (NewRawDomainItem mt) = CDestinationAddress"
  "class_of (NewRawIPCIDRItem src s) = (if src then CSourceAddress else CDestinationIPCIDR)"
  "class_of (NewAdGuardDomainItem env xs) = CDestinationAddress"
  "class_of (NewRawAdGuardDomainItem mt) = CDestinationAddress"
  "class_of (NewOutboundRule xs) = COther" "class_of (NewPreferredByDNSItem xs) = COther"
  by (simp_all add: NewInboundRule_def NewNetworkItem_def NewAuthUserItem_def NewProtocolItem_def
      NewClientItem_def NewDomainKeywordItem_def NewIPIsPrivateItem_def NewPortItem_def NewProcessItem_def
      NewProcessPathItem_def NewPackageNameItem_def NewUserItem_def NewUserIDItem_def NewClashModeItem_def
      NewWIFISSIDItem_def NewWIFIBSSIDItem_def NewInterfaceAddressItem_def NewNetworkInterfaceAddressItem_def
      NewDefaultInterfaceAddressItem_def NewSourceMACAddressItem_def NewSourceHostnameItem_def
      NewPreferredByItem_def NewQueryTypeItem_def NewRawDomainItem_def NewRawIPCIDRItem_def
      NewAdGuardDomainItem_def NewRawAdGuardDomainItem_def NewOutboundRule_def NewPreferredByDNSItem_def
      split: prod.splits)

lemma wf_steps [simp]:
  "class_of it = COther \<Longrightarrow> wf_step (step c to_items it)"
  "class_of it = CSourceAddress \<Longrightarrow> wf_step (step c to_sourceAddress it)"
  "class_of it = CSourcePort \<Longrightarrow> wf_step (step c to_sourcePort it)"
  "class_of it = CDestinationAddress \<Longrightarrow> wf_step (step c to_destinationAddress it)"
  "class_of it = CDestinationIPCIDR \<Longrightarrow> wf_step (step c to_destinationIPCIDR it)"
  "class_of it = CDestinationPort \<Longrightarrow> wf_step (step c to_destinationPort it)"
  by (rule wf_step_step, rule adders, assumption)+

lemma wf_step_cause [simp]:
  assumes "wf_step (step_result c add res)"
  shows "wf_step (step_result c add (res_cause msg res))"
  unfolding wf_step_def
proof (intro allI impI)
  fix r r'
  assume r: "wf_default r" "step_result c add (res_cause msg res) r = Inr r'"
  then have "step_result c add res r = Inr r'" by (cases c; cases res) (auto simp: step_result_def)
  then show "wf_default r' \<and> invert r' = invert r \<and> action r' = action r"
    by (rule wf_stepD[OF assms r(1)])
qed

lemma wf_step_results [simp]:
  "wf_step (step_result c to_destinationAddress (NewDomainItem env xs ys))"
  "wf_step (step_result c to_destinationAddress (NewDomainRegexItem env xs))"
  "wf_step (step_result c to_sourceAddress (NewIPCIDRItem env True xs))"
  "wf_step (step_result c to_destinationIPCIDR (NewIPCIDRItem env False xs))"
  "wf_step (step_result c to_sourcePort (NewPortRangeItem True xs))"
  "wf_step (step_result c to_destinationPort (NewPortRangeItem False xs))"
  "wf_step (step_result c to_items (NewProcessPathRegexItem env xs))"
  "wf_step (step_result c to_items (NewPackageNameRegexItem env xs))"
  by (rule wf_step_result[OF adders(4)] wf_step_result[OF adders(2)] wf_step_result[OF adders(5)]
      wf_step_result[OF adders(3)] wf_step_result[OF adders(6)] wf_step_result[OF adders(1)];
      simp add: class_of_results)+

lemma wf_ipversion_step [simp]: "wf_step (ipversion_step v)"
  by (simp add: ipversion_step_def)

lemma wf_headless_steps [simp]: "list_all wf_step (headless_rule_steps env nm o')"
  by (simp add: headless_rule_steps_def domain_steps_def source_cidr_steps_def cidr_steps_def adguard_steps_def
      network_state_steps_def split: option.splits)

lemma wf_route_steps [simp]: "list_all wf_step (route_rule_steps env o')"
  by (simp add: route_rule_steps_def route_address_steps_def route_process_steps_def)

lemma new_rule_simps [simp]: "invert (new_rule b a) = b" "action (new_rule b a) = a"
  by (simp_all add: new_rule_def)

lemma NewDefaultHeadlessRule_wf:
  "NewDefaultHeadlessRule env nm o' = Inr r \<Longrightarrow> wf_default r \<and> invert r = h_Invert o' \<and> action r = None"
  using wf_run_steps[OF wf_headless_steps[of env nm o'] new_rule_wf[of "h_Invert o'" None], of r]
  by (simp add: NewDefaultHeadlessRule_def)

lemma NewDefaultRule_wf:
  assumes "NewDefaultRule env ae o' a = Inr r"
  shows "wf_default r \<and> invert r = o_Invert o' \<and> NewRuleAction ae a = Inr (action r)"
proof -
  obtain act where "NewRuleAction ae a = Inr act"
    "run_steps (route_rule_steps env o') (new_rule (o_Invert o') act) = Inr r"
    using assms by (auto simp: NewDefaultRule_def res_bind_Inr_iff)
  then show ?thesis
    using wf_run_steps[OF wf_route_steps[of env o'] new_rule_wf[of "o_Invert o'" act], of r] by simp
qed

text \<open>Headless steps never set a rule-set item.\<close>

definition keeps_set :: "build_step \<Rightarrow> bool" where
  "keeps_set s \<longleftrightarrow> (\<forall>r r'. s r = Inr r' \<longrightarrow> ruleSetItem r' = ruleSetItem r)"

lemma keeps_setD: "keeps_set s \<Longrightarrow> s r = Inr r' \<Longrightarrow> ruleSetItem r' = ruleSetItem r"
  unfolding keeps_set_def by blast

lemma keeps_step_result [simp]:
  "add \<in> {to_items, to_sourceAddress, to_sourcePort, to_destinationAddress, to_destinationIPCIDR, to_destinationPort}
     \<Longrightarrow> keeps_set (step_result c add res)"
  unfolding keeps_set_def by (cases res) (auto simp: step_result_def adder_defs)

lemma keeps_step [simp]:
  "add \<in> {to_items, to_sourceAddress, to_sourcePort, to_destinationAddress, to_destinationIPCIDR, to_destinationPort}
     \<Longrightarrow> keeps_set (step c add it)"
  unfolding step_def by simp

lemma keeps_Inr [simp]: "keeps_set Inr"
  by (simp add: keeps_set_def)

lemma keeps_run_steps: "list_all keeps_set ss \<Longrightarrow> run_steps ss r = Inr r' \<Longrightarrow> ruleSetItem r' = ruleSetItem r"
proof (induction ss arbitrary: r)
  case (Cons s ss)
  then obtain r1 where "s r = Inr r1" "run_steps ss r1 = Inr r'" by (auto simp: res_bind_Inr_iff)
  with Cons show ?case using keeps_setD[of s r r1] by simp
qed simp

lemma keeps_headless_steps: "list_all keeps_set (headless_rule_steps env nm o')"
  by (simp add: headless_rule_steps_def domain_steps_def source_cidr_steps_def cidr_steps_def adguard_steps_def
      network_state_steps_def split: option.splits)

lemma NewDefaultHeadlessRule_no_set: "NewDefaultHeadlessRule env nm o' = Inr r \<Longrightarrow> ruleSetItem r = None"
  using keeps_run_steps[OF keeps_headless_steps[of env nm o'], of "new_rule (h_Invert o') None" r]
  by (simp add: NewDefaultHeadlessRule_def new_rule_def)

fun wf_headless :: "Rule \<Rightarrow> bool" where
  "wf_headless (DefaultHeadlessRule r) \<longleftrightarrow> wf_default r \<and> ruleSetItem r = None \<and> action r = None"
| "wf_headless (LogicalHeadlessRule rs mode _) \<longleftrightarrow>
     rs \<noteq> [] \<and> (mode = ''and'' \<or> mode = ''or'') \<and> list_all wf_headless rs"
| "wf_headless _ \<longleftrightarrow> False"

text \<open>A route rule as \<open>NewRule\<close> builds it: well formed, and only the outermost rule has an action.\<close>

fun wf_route :: "Rule \<Rightarrow> bool" where
  "wf_route (DefaultRule r) \<longleftrightarrow> wf_default r"
| "wf_route (LogicalRule rs mode _ _) \<longleftrightarrow>
     rs \<noteq> [] \<and> (mode = ''and'' \<or> mode = ''or'') \<and> list_all (\<lambda>r. wf_route r \<and> rule_Action r = None) rs"
| "wf_route _ \<longleftrightarrow> False"

lemma logical_mode_Inr: "logical_mode mode = Inr m \<Longrightarrow> m = mode \<and> (mode = ''and'' \<or> mode = ''or'')"
  by (auto simp: logical_mode_def split: if_splits)

lemma res_mapiM_all:
  "res_mapiM msg f i xs = Inr ys \<Longrightarrow> (\<And>x y. x \<in> set xs \<Longrightarrow> f x = Inr y \<Longrightarrow> P y) \<Longrightarrow> list_all P ys"
  unfolding res_mapiM_Inr_iff list_all_length by (metis nth_mem)

lemma LogicalHeadless_nonempty: "LogicalHeadlessRule_IsValid rs = Inr True \<Longrightarrow> rs \<noteq> []"
  by (auto simp: LogicalHeadlessRule_IsValid_def)

lemma NewHeadlessRule_wf_lemma: "NewHeadlessRule env nm o' = Inr rule \<Longrightarrow> wf_headless rule"
proof (induction env nm o' arbitrary: rule rule: NewHeadlessRule.induct)
  case (1 env hasNM type' default' mode rules inv')
  show ?case
  proof (cases "type' = [] \<or> type' = ''default''")
    case True
    then show ?thesis
      using 1(2) NewDefaultHeadlessRule_wf NewDefaultHeadlessRule_no_set
      by (auto simp: res_bind_Inr_iff split: if_splits)
  next
    case False
    then have l: "type' = ''logical''" using 1(2) by (auto split: if_splits)
    obtain rs m where v: "LogicalHeadlessRule_IsValid rules = Inr True" "logical_mode mode = Inr m"
      "res_mapiM ''sub rule['' (NewHeadlessRule env hasNM) 0 rules = Inr rs" "rule = LogicalHeadlessRule rs m inv'"
      using 1(2) False l by (auto simp: res_bind_Inr_iff split: if_splits)
    have "list_all wf_headless rs"
      by (rule res_mapiM_all[OF v(3)]) (use 1(1) False l v in auto)
    moreover have "rs \<noteq> []"
      using v(3) LogicalHeadless_nonempty[OF v(1)] by (auto simp: res_mapiM_Inr_iff)
    ultimately show ?thesis using logical_mode_Inr[OF v(2)] v(4) by auto
  qed
qed

lemma NewRuleAction_zero: "NewRuleAction ae rule_action_zero = Inr None"
  by (simp add: NewRuleAction_def rule_action_zero_def)

lemma NewRule_Action:
  "NewRule env ae o' b = Inr rule \<Longrightarrow> validateNoNestedRuleActions o' True = Inr () \<Longrightarrow> rule_Action rule = None"
proof (cases o')
  case (Rule_options type' default' action' mode rules inv' laction)
  assume n: "NewRule env ae o' b = Inr rule" and v: "validateNoNestedRuleActions o' True = Inr ()"
  show ?thesis
  proof (cases "type' = [] \<or> type' = ''default''")
    case True
    then have "action' = rule_action_zero" using v Rule_options by (auto split: if_splits)
    then show ?thesis
      using n True Rule_options NewDefaultRule_wf NewRuleAction_zero
      by (auto simp: res_bind_Inr_iff split: if_splits) fastforce+
  next
    case False
    then have l: "type' = ''logical''" using n Rule_options by (auto split: if_splits)
    then have "laction = rule_action_zero" using v Rule_options by (auto split: if_splits)
    then show ?thesis
      using n False l Rule_options NewRuleAction_zero by (auto simp: res_bind_Inr_iff split: if_splits)
  qed
qed

lemma NewRule_wf_lemma: "NewRule env ae o' b = Inr rule \<Longrightarrow> wf_route rule"
proof (induction env ae o' b arbitrary: rule rule: NewRule.induct)
  case (1 env ae type' default' action' mode rules inv' laction checkOutbound)
  show ?case
  proof (cases "type' = [] \<or> type' = ''default''")
    case True
    then show ?thesis
      using 1(2) NewDefaultRule_wf by (auto simp: res_bind_Inr_iff split: if_splits)
  next
    case False
    then have l: "type' = ''logical''" using 1(2) by (auto split: if_splits)
    let ?f = "\<lambda>sub. res_bind (validateNoNestedRuleActions sub True) (\<lambda>_. NewRule env ae sub False)"
    obtain rs m act where v: "LogicalRule_IsValid rules = Inr True" "logical_mode mode = Inr m"
      "res_mapiM ''sub rule['' ?f 0 rules = Inr rs" "rule = LogicalRule rs m inv' act"
      "\<not> missing_outbound laction checkOutbound" "NewRuleAction ae laction = Inr act"
      using 1(2) False l by (auto simp: res_bind_Inr_iff split: if_splits)
    have "list_all (\<lambda>r. wf_route r \<and> rule_Action r = None) rs"
    proof (rule res_mapiM_all[OF v(3)])
      fix x y
      assume "x \<in> set rules" "?f x = Inr y"
      then show "wf_route y \<and> rule_Action y = None"
        using 1(1) False l v NewRule_Action by (auto simp: res_bind_Inr_iff)
    qed
    moreover have "rs \<noteq> []"
      using v(1,3) by (auto simp: res_mapiM_Inr_iff LogicalRule_IsValid_def)
    ultimately show ?thesis using logical_mode_Inr[OF v(2)] v(4) by auto
  qed
qed

end
