(* ===== verification/DNSRules.thy ===== *)
theory DNSRules
  imports RuleBuild
begin

text \<open>
  DNS rules (\<open>route/rule/rule_dns.go\<close>): validation of DNS rule actions, the constructors
  \<open>NewDNSRule\<close>, \<open>NewDefaultDNSRule\<close> and \<open>NewLogicalDNSRule\<close>, and the methods that legacy address
  filtering uses: \<open>WithAddressLimit\<close>, \<open>LegacyPreMatch\<close> (before the response is known) and
  \<open>MatchAddressLimit\<close> (against a response).
\<close>

subsection \<open>Validation\<close>

definition action_route_options :: "DNSRuleAction_options \<Rightarrow> AbstractDNSRouteActionOptions" where
  "action_route_options action' =
     (if da_Action action' = [] \<or> da_Action action' = ''route'' then dra_Abstract (da_RouteOptions action')
      else if da_Action action' = ''evaluate'' then dea_Abstract (da_EvaluateOptions action')
      else if da_Action action' = ''route-options'' then da_RouteOptionsOptions action'
      else dns_route_zero)"

definition validateDNSRuleAction :: "DNSRuleAction_options \<Rightarrow> unit result" where
  "validateDNSRuleAction action' =
     (if da_Action action' = ''reject'' \<and> rej_Method (da_RejectOptions action') = ''reply''
      then Inl (ENew ''reject method `reply` is not supported for DNS rules'')
      else if dr_RemoveClientSubnet (action_route_options action') \<and>
              dr_ClientSubnet (action_route_options action') \<noteq> None
      then Inl (ENew ''`client_subnet` and `remove_client_subnet` are mutually exclusive'')
      else if da_Race action' then
        (if \<not> List.member [[], ''route'', ''respond'', ''reject'', ''predefined''] (da_Action action')
         then Inl (ENew ''`race` requires a final action'')
         else if dra_Speculative (da_RouteOptions action')
         then Inl (ENew ''`race` and `speculative` cannot be combined on the same rule'')
         else Inr ())
      else Inr ())"

definition missing_server :: "DNSRuleAction_options \<Rightarrow> bool \<Rightarrow> bool" where
  "missing_server action' checkServer \<longleftrightarrow>
     (da_Action action' = [] \<or> da_Action action' = ''route'') \<and>
       dra_Server (da_RouteOptions action') = [] \<and> checkServer \<or>
     da_Action action' = ''evaluate'' \<and> dea_Server (da_EvaluateOptions action') = [] \<and> checkServer"

fun dnsRuleHasConfiguredAction :: "DNSRule_options \<Rightarrow> bool" where
  "dnsRuleHasConfiguredAction (DNSRule_options type' default' action' mode rules inv' laction) =
     (if type' = [] \<or> type' = ''default'' then action' \<noteq> dns_action_zero
      else if type' = ''logical'' then laction \<noteq> dns_action_zero
      else False)"

fun validateNoNestedDNSRuleActions :: "DNSRule_options \<Rightarrow> bool \<Rightarrow> unit result" where
  "validateNoNestedDNSRuleActions (DNSRule_options type' default' action' mode rules inv' laction) nested =
     (if nested \<and> dnsRuleHasConfiguredAction (DNSRule_options type' default' action' mode rules inv' laction)
      then Inl (ENew ''DNS rule action is not supported in nested rules'')
      else if type' \<noteq> ''logical'' then Inr ()
      else res_bind (res_mapiM ''sub rule['' (\<lambda>subRule. validateNoNestedDNSRuleActions subRule True) 0 rules)
             (\<lambda>_. Inr ()))"

subsection \<open>Construction\<close>

definition matchResponse_IsEnabled :: "(bool \<times> string) option \<Rightarrow> bool" where
  "matchResponse_IsEnabled m = (case m of None \<Rightarrow> False | Some (enabled, _) \<Rightarrow> enabled)"

definition matchResponse_ResponseTag :: "(bool \<times> string) option \<Rightarrow> string" where
  "matchResponse_ResponseTag m = (case m of None \<Rightarrow> [] | Some (_, tag) \<Rightarrow> tag)"

definition accept_empty_msg :: string where
  "accept_empty_msg =
     ''Legacy `rule_set_ip_cidr_accept_empty` DNS rule item is deprecated in sing-box 1.14.0'' @
     '' and will be removed in sing-box 1.16.0, checkout documentation for migration: '' @
     ''https://sing-box.sagernet.org/migration/#migrate-address-filter-fields-to-response-matching''"

definition rcode_step :: "int option \<Rightarrow> build_step" where
  "rcode_step rc = (case rc of None \<Rightarrow> Inr | Some r \<Rightarrow> step True to_items (DNSResponseRCodeItem r))"

definition dns_address_steps :: "rule_env \<Rightarrow> RawDefaultDNSRule \<Rightarrow> build_step list" where
  "dns_address_steps env options =
      [step (length (d_Inbound options) > 0) to_items (NewInboundRule (d_Inbound options)),
       ipversion_step (d_IPVersion options),
       step (length (d_QueryType options) > 0) to_items (NewQueryTypeItem (d_QueryType options)),
       step (length (d_QueryClientSubnet options) > 0) to_items (QueryClientSubnetItem (d_QueryClientSubnet options)),
       step (d_QueryDNSSEC options) to_items QueryDNSSECItem,
       step (length (d_Network options) > 0) to_items (NewNetworkItem (d_Network options)),
       step (length (d_AuthUser options) > 0) to_items (NewAuthUserItem (d_AuthUser options)),
       step (length (d_Protocol options) > 0) to_items (NewProtocolItem (d_Protocol options)),
       step_result (length (d_Domain options) > 0 \<or> length (d_DomainSuffix options) > 0) to_destinationAddress
         (NewDomainItem env (d_Domain options) (d_DomainSuffix options)),
       step (length (d_DomainKeyword options) > 0) to_destinationAddress
         (NewDomainKeywordItem (d_DomainKeyword options)),
       step_result (length (d_DomainRegex options) > 0) to_destinationAddress
         (res_cause ''domain_regex'' (NewDomainRegexItem env (d_DomainRegex options))),
       step_fail (length (d_Geosite options) > 0) (geo_msg ''geosite''),
       step_fail (length (d_SourceGeoIP options) > 0) (geo_msg ''geoip''),
       step_fail (length (d_GeoIP options) > 0) (geo_msg ''geoip''),
       step_result (length (d_SourceIPCIDR options) > 0) to_sourceAddress
         (res_cause ''source_ip_cidr'' (NewIPCIDRItem env True (d_SourceIPCIDR options))),
       step_result (length (d_IPCIDR options) > 0) to_destinationIPCIDR
         (res_cause ''ip_cidr'' (NewIPCIDRItem env False (d_IPCIDR options))),
       step (d_SourceIPIsPrivate options) to_sourceAddress (NewIPIsPrivateItem True),
       step (d_IPIsPrivate options) to_destinationIPCIDR (NewIPIsPrivateItem False),
       step (d_IPAcceptAny options) to_destinationIPCIDR IPAcceptAnyItem,
       rcode_step (d_ResponseRcode options),
       step (length (d_ResponseAnswer options) > 0) to_items
         (DNSResponseRecordItem ''response_answer'' (d_ResponseAnswer options) AnswerSection),
       step (length (d_ResponseNs options) > 0) to_items
         (DNSResponseRecordItem ''response_ns'' (d_ResponseNs options) NsSection),
       step (length (d_ResponseExtra options) > 0) to_items
         (DNSResponseRecordItem ''response_extra'' (d_ResponseExtra options) ExtraSection)]"

definition dns_process_steps :: "rule_env \<Rightarrow> RawDefaultDNSRule \<Rightarrow> bool \<Rightarrow> build_step list" where
  "dns_process_steps env options legacyDNSMode =
      [step (length (d_SourcePort options) > 0) to_sourcePort (NewPortItem True (d_SourcePort options)),
       step_result (length (d_SourcePortRange options) > 0) to_sourcePort
         (res_cause ''source_port_range'' (NewPortRangeItem True (d_SourcePortRange options))),
       step (length (d_Port options) > 0) to_destinationPort (NewPortItem False (d_Port options)),
       step_result (length (d_PortRange options) > 0) to_destinationPort
         (res_cause ''port_range'' (NewPortRangeItem False (d_PortRange options))),
       step (length (d_ProcessName options) > 0) to_items (NewProcessItem (d_ProcessName options)),
       step (length (d_ProcessPath options) > 0) to_items (NewProcessPathItem (d_ProcessPath options)),
       step_result (length (d_ProcessPathRegex options) > 0) to_items
         (res_cause ''process_path_regex'' (NewProcessPathRegexItem env (d_ProcessPathRegex options))),
       step (length (d_PackageName options) > 0) to_items (NewPackageNameItem (d_PackageName options)),
       step_result (length (d_PackageNameRegex options) > 0) to_items
         (res_cause ''package_name_regex'' (NewPackageNameRegexItem env (d_PackageNameRegex options))),
       step (length (d_User options) > 0) to_items (NewUserItem (d_User options)),
       step (length (d_UserID options) > 0) to_items (NewUserIDItem (d_UserID options)),
       step (length (d_Outbound options) > 0) to_items (NewOutboundRule (d_Outbound options)),
       step (d_ClashMode options \<noteq> []) to_items (NewClashModeItem (d_ClashMode options)),
       step (length (d_NetworkType options) > 0) to_items (NetworkTypeItem (d_NetworkType options)),
       step (d_NetworkIsExpensive options) to_items NetworkIsExpensiveItem,
       step (d_NetworkIsConstrained options) to_items NetworkIsConstrainedItem,
       step (length (d_WIFISSID options) > 0) to_items (NewWIFISSIDItem (d_WIFISSID options)),
       step (length (d_WIFIBSSID options) > 0) to_items (NewWIFIBSSIDItem env (d_WIFIBSSID options)),
       step (map_nonempty (d_InterfaceAddress options)) to_items
         (NewInterfaceAddressItem env (entries (d_InterfaceAddress options))),
       step (map_nonempty (d_NetworkInterfaceAddress options)) to_items
         (NewNetworkInterfaceAddressItem env (entries (d_NetworkInterfaceAddress options))),
       step (length (d_DefaultInterfaceAddress options) > 0) to_items
         (NewDefaultInterfaceAddressItem env (d_DefaultInterfaceAddress options)),
       step (length (d_SourceMACAddress options) > 0) to_items
         (NewSourceMACAddressItem env (d_SourceMACAddress options)),
       step (length (d_SourceHostname options) > 0) to_items (NewSourceHostnameItem (d_SourceHostname options)),
       step (length (d_PreferredBy options) > 0) to_items (NewPreferredByDNSItem (d_PreferredBy options)),
       step_fail (d_RuleSetIPCIDRAcceptEmpty options \<and> \<not> legacyDNSMode) (ENew accept_empty_msg),
       rule_set_step (d_RuleSet options) (d_Deprecated_RulesetIPCIDRMatchSource options)
         (d_RuleSetIPCIDRMatchSource options) (d_RuleSetIPCIDRAcceptEmpty options)]"

definition dns_rule_steps :: "rule_env \<Rightarrow> RawDefaultDNSRule \<Rightarrow> bool \<Rightarrow> build_step list" where
  "dns_rule_steps env options legacyDNSMode = dns_address_steps env options @ dns_process_steps env options legacyDNSMode"

definition NewDefaultDNSRule ::
    "rule_env \<Rightarrow> RawDefaultDNSRule \<Rightarrow> DNSRuleAction_options \<Rightarrow> bool \<Rightarrow> Rule result" where
  "NewDefaultDNSRule env options actionOptions legacyDNSMode =
     res_bind (NewDNSRuleAction actionOptions) (\<lambda>act.
     res_bind (run_steps (dns_rule_steps env options legacyDNSMode) (new_rule (d_Invert options) act)) (\<lambda>r.
     Inr (DefaultDNSRule r (matchResponse_IsEnabled (d_MatchResponse options))
       (matchResponse_ResponseTag (d_MatchResponse options)) (da_Race actionOptions))))"

subsection \<open>Response tags\<close>

fun MatchResponseTag :: "Rule \<Rightarrow> string" where
  "MatchResponseTag (DefaultDNSRule _ _ tag _) = tag"
| "MatchResponseTag _ = []"

fun MatchResponseTags :: "Rule \<Rightarrow> string list" where
  "MatchResponseTags (DefaultDNSRule _ _ tag _) = (if tag = [] then [] else [tag])"
| "MatchResponseTags (LogicalDNSRule _ _ _ _ tags _ _) = tags"
| "MatchResponseTags _ = []"

fun MatchResponseAnonymous :: "Rule \<Rightarrow> bool" where
  "MatchResponseAnonymous (DefaultDNSRule _ matchResponse tag _) = (matchResponse \<and> tag = [])"
| "MatchResponseAnonymous (LogicalDNSRule _ _ _ _ _ anonymous _) = anonymous"
| "MatchResponseAnonymous _ = False"

fun rule_Race :: "Rule \<Rightarrow> bool" where
  "rule_Race (DefaultDNSRule _ _ _ race) = race"
| "rule_Race (LogicalDNSRule _ _ _ _ _ _ race) = race"
| "rule_Race _ = False"

text \<open>\<open>common.Uniq\<close> keeps the first occurrence of every element.\<close>

fun uniq :: "'a list \<Rightarrow> 'a list" where
  "uniq [] = []"
| "uniq (x # xs) = x # filter (\<lambda>y. y \<noteq> x) (uniq xs)"

definition logical_dns_rule ::
    "Rule list \<Rightarrow> string \<Rightarrow> bool \<Rightarrow> RuleAction option \<Rightarrow> bool \<Rightarrow> Rule result" where
  "logical_dns_rule rs mode inv' act race =
     (let tags = uniq (concat (map MatchResponseTags rs));
          anonymous = list_ex MatchResponseAnonymous rs
      in if race \<and> length tags = 0 \<and> \<not> anonymous
         then Inl (ENew ''`race` requires `match_response` in sub-rules'')
         else Inr (LogicalDNSRule rs mode inv' act tags anonymous race))"

fun NewDNSRule :: "rule_env \<Rightarrow> DNSRule_options \<Rightarrow> bool \<Rightarrow> bool \<Rightarrow> Rule result" where
  "NewDNSRule env (DNSRule_options type' default' action' mode rules inv' laction) checkServer legacyDNSMode =
     (if type' = [] \<or> type' = ''default'' then
        (if \<not> DefaultDNSRule_IsValid default' action' then Inl (ENew ''missing conditions'')
         else if \<not> checkServer \<and> da_Action action' = ''evaluate''
         then Inl (ENew (da_Action action' @ '' is only allowed on top-level DNS rules''))
         else
           res_bind (validateDNSRuleAction action') (\<lambda>_.
             if da_Race action' \<and> \<not> matchResponse_IsEnabled (d_MatchResponse default')
             then Inl (ENew ''`race` requires `match_response`'')
             else if missing_server action' checkServer then Inl (ENew ''missing server field'')
             else NewDefaultDNSRule env default' action' legacyDNSMode))
      else if type' = ''logical'' then
        res_bind (LogicalDNSRule_IsValid rules) (\<lambda>valid.
          if \<not> valid then Inl (ENew ''missing conditions'')
          else if \<not> checkServer \<and> da_Action laction = ''evaluate''
          then Inl (ENew (da_Action laction @ '' is only allowed on top-level DNS rules''))
          else
            res_bind (validateDNSRuleAction laction) (\<lambda>_.
              if missing_server laction checkServer then Inl (ENew ''missing server field'')
              else
                res_bind (NewDNSRuleAction laction) (\<lambda>act.
                res_bind (logical_mode mode) (\<lambda>mode'.
                res_bind (res_mapiM ''sub rule[''
                  (\<lambda>sub. res_bind (validateNoNestedDNSRuleActions sub True)
                           (\<lambda>_. NewDNSRule env sub False legacyDNSMode)) 0 rules) (\<lambda>rs.
                  logical_dns_rule rs mode' inv' act (da_Race laction))))))
      else Inl (ENew (''unknown rule type: '' @ type')))"

subsection \<open>Address filtering\<close>

fun WithAddressLimit :: "(string \<Rightarrow> RuleSetI) \<Rightarrow> Rule \<Rightarrow> bool" where
  "WithAddressLimit sets (DefaultDNSRule r _ _ _) =
     (if length (destinationIPCIDRItems r) > 0 then True
      else case ruleSetItem r of None \<Rightarrow> False | Some item \<Rightarrow> ContainsDestinationIPCIDRRule sets item)"
| "WithAddressLimit sets (LogicalDNSRule rules _ _ _ _ _ _) = list_ex (WithAddressLimit sets) rules"
| "WithAddressLimit sets _ = False"

text \<open>
  \<open>LegacyPreMatch\<close> sets \<open>IgnoreDestinationIPCIDRMatch\<close> for the time of the call. A default rule with
  \<open>match_response\<close> never pre-matches.
\<close>

definition with_ignore :: "ctx_matcher \<Rightarrow> ctx_matcher" where
  "with_ignore m metadata =
     (let (b, md) = m (metadata\<lparr>IgnoreDestinationIPCIDRMatch := True\<rparr>)
      in (b, md\<lparr>IgnoreDestinationIPCIDRMatch := False\<rparr>))"

fun LegacyPreMatch :: "rule_env \<Rightarrow> (string \<Rightarrow> RuleSetI) \<Rightarrow> Rule \<Rightarrow> ctx_matcher" where
  "LegacyPreMatch env sets (DefaultDNSRule r matchResponse _ _) metadata =
     (if matchResponse then (False, metadata)
      else with_ignore (abstractDefaultRule_Match env sets r) metadata)"
| "LegacyPreMatch env sets (LogicalDNSRule rules mode inv' _ _ _ _) metadata =
     with_ignore (abstractLogicalRule_Match (map (rule_Match env sets) rules) mode inv') metadata"
| "LegacyPreMatch env sets _ metadata = (False, metadata)"

definition response_context :: "InboundContext \<Rightarrow> dnsMsg option \<Rightarrow> InboundContext" where
  "response_context metadata response =
     (ResetRuleCache metadata)\<lparr>DNSResponse := response, DestinationAddressMatchFromResponse := True\<rparr>"

fun MatchAddressLimit :: "rule_env \<Rightarrow> (string \<Rightarrow> RuleSetI) \<Rightarrow> Rule \<Rightarrow> InboundContext \<Rightarrow> dnsMsg option \<Rightarrow> bool" where
  "MatchAddressLimit env sets (DefaultDNSRule r _ _ _) metadata response =
     fst (abstractDefaultRule_Match env sets r (response_context metadata response))"
| "MatchAddressLimit env sets (LogicalDNSRule rules mode inv' _ _ _ _) metadata response =
     fst (abstractLogicalRule_Match (map (rule_Match env sets) rules) mode inv' (response_context metadata response))"
| "MatchAddressLimit env sets _ metadata response = False"

subsection \<open>Well-formed DNS rules\<close>

lemma wf_dns_steps [simp]: "list_all wf_step (dns_rule_steps env o' legacy)"
  by (simp add: dns_rule_steps_def dns_address_steps_def dns_process_steps_def rcode_step_def split: option.splits)

lemma NewDefaultDNSRule_wf:
  assumes "NewDefaultDNSRule env o' a legacy = Inr rule"
  shows "\<exists>r. rule = DefaultDNSRule r (matchResponse_IsEnabled (d_MatchResponse o'))
           (matchResponse_ResponseTag (d_MatchResponse o')) (da_Race a) \<and>
         wf_default r \<and> invert r = d_Invert o' \<and> NewDNSRuleAction a = Inr (action r)"
proof -
  obtain act r where "NewDNSRuleAction a = Inr act"
    "run_steps (dns_rule_steps env o' legacy) (new_rule (d_Invert o') act) = Inr r"
    "rule = DefaultDNSRule r (matchResponse_IsEnabled (d_MatchResponse o'))
           (matchResponse_ResponseTag (d_MatchResponse o')) (da_Race a)"
    using assms by (auto simp: NewDefaultDNSRule_def res_bind_Inr_iff)
  then show ?thesis
    using wf_run_steps[OF wf_dns_steps[of env o' legacy] new_rule_wf[of "d_Invert o'" act], of r] by simp
qed

lemma set_uniq [simp]: "set (uniq xs) = set xs"
  by (induction xs) auto

lemma distinct_uniq [simp]: "distinct (uniq xs)"
  by (induction xs) auto

text \<open>
  A DNS rule as \<open>NewDNSRule\<close> builds it: well formed, no action in sub-rules, and the response tags
  of a logical rule are those of its sub-rules.
\<close>

fun wf_dns :: "Rule \<Rightarrow> bool" where
  "wf_dns (DefaultDNSRule r matchResponse tag race) \<longleftrightarrow> wf_default r"
| "wf_dns (LogicalDNSRule rs mode _ _ tags anonymous race) \<longleftrightarrow>
     rs \<noteq> [] \<and> (mode = ''and'' \<or> mode = ''or'') \<and> list_all (\<lambda>r. wf_dns r \<and> rule_Action r = None) rs \<and>
     distinct tags \<and> set tags = (\<Union>r\<in>set rs. set (MatchResponseTags r)) \<and>
     (anonymous \<longleftrightarrow> (\<exists>r\<in>set rs. MatchResponseAnonymous r)) \<and> (race \<longrightarrow> tags \<noteq> [] \<or> anonymous)"
| "wf_dns _ \<longleftrightarrow> False"

lemma NewDNSRuleAction_zero: "NewDNSRuleAction dns_action_zero = Inr None"
  by (simp add: NewDNSRuleAction_def dns_action_zero_def)

lemma logical_dns_rule_Inr:
  "logical_dns_rule rs m inv' act race = Inr rule \<Longrightarrow>
     \<exists>tags anonymous. rule = LogicalDNSRule rs m inv' act tags anonymous race \<and> distinct tags \<and>
       set tags = (\<Union>r\<in>set rs. set (MatchResponseTags r)) \<and>
       (anonymous \<longleftrightarrow> (\<exists>r\<in>set rs. MatchResponseAnonymous r)) \<and> (race \<longrightarrow> tags \<noteq> [] \<or> anonymous)"
  by (auto simp: logical_dns_rule_def Let_def list_ex_iff split: if_splits)

lemma NewDNSRule_default:
  assumes "NewDNSRule env (DNSRule_options type' default' action' mode rules inv' laction) b legacy = Inr rule"
    "type' = [] \<or> type' = ''default''"
  shows "NewDefaultDNSRule env default' action' legacy = Inr rule"
  using assms by (auto simp: res_bind_Inr_iff split: if_splits)

lemma NewDNSRule_logical:
  assumes "NewDNSRule env (DNSRule_options type' default' action' mode rules inv' laction) b legacy = Inr rule"
    "\<not> (type' = [] \<or> type' = ''default'')"
  shows "\<exists>rs m act. type' = ''logical'' \<and> LogicalDNSRule_IsValid rules = Inr True \<and>
    \<not> (\<not> b \<and> da_Action laction = ''evaluate'') \<and>
    \<not> missing_server laction b \<and> NewDNSRuleAction laction = Inr act \<and> logical_mode mode = Inr m \<and>
    res_mapiM ''sub rule['' (\<lambda>sub. res_bind (validateNoNestedDNSRuleActions sub True)
       (\<lambda>_. NewDNSRule env sub False legacy)) 0 rules = Inr rs \<and>
    logical_dns_rule rs m inv' act (da_Race laction) = Inr rule"
proof -
  have l: "type' = ''logical''" using assms by (auto split: if_splits)
  obtain v where v: "LogicalDNSRule_IsValid rules = Inr v"
    using assms l by (auto simp: res_bind_Inr_iff)
  show ?thesis
    using assms l v by (cases v; cases "\<not> b \<and> da_Action laction = ''evaluate''"; cases "missing_server laction b")
      (auto simp: res_bind_Inr_iff)
qed

lemma NewDNSRule_Action:
  assumes "NewDNSRule env o' b legacy = Inr rule" "validateNoNestedDNSRuleActions o' True = Inr ()"
  shows "rule_Action rule = None"
proof (cases o')
  case (DNSRule_options type' default' action' mode rules inv' laction)
  show ?thesis
  proof (cases "type' = [] \<or> type' = ''default''")
    case True
    then have "action' = dns_action_zero" using assms(2) DNSRule_options by (auto split: if_splits)
    then show ?thesis
      using NewDefaultDNSRule_wf[OF NewDNSRule_default[OF assms(1)[unfolded DNSRule_options] True]]
        NewDNSRuleAction_zero by auto
  next
    case False
    obtain rs m act where l: "type' = ''logical''" "NewDNSRuleAction laction = Inr act"
      "logical_dns_rule rs m inv' act (da_Race laction) = Inr rule"
      using NewDNSRule_logical[OF assms(1)[unfolded DNSRule_options] False] by blast
    then have "laction = dns_action_zero" using assms(2) DNSRule_options by (auto split: if_splits)
    then show ?thesis using l NewDNSRuleAction_zero by (auto dest!: logical_dns_rule_Inr)
  qed
qed

lemma NewDNSRule_wf_lemma: "NewDNSRule env o' b legacy = Inr rule \<Longrightarrow> wf_dns rule"
proof (induction env o' b legacy arbitrary: rule rule: NewDNSRule.induct)
  case (1 env type' default' action' mode rules inv' laction b legacy)
  show ?case
  proof (cases "type' = [] \<or> type' = ''default''")
    case True
    show ?thesis using NewDefaultDNSRule_wf[OF NewDNSRule_default[OF 1(2) True]] by auto
  next
    case False
    let ?f = "\<lambda>sub. res_bind (validateNoNestedDNSRuleActions sub True) (\<lambda>_. NewDNSRule env sub False legacy)"
    obtain rs m act where v: "type' = ''logical''" "LogicalDNSRule_IsValid rules = Inr True"
      "\<not> (\<not> b \<and> da_Action laction = ''evaluate'')" "\<not> missing_server laction b" "logical_mode mode = Inr m"
      "res_mapiM ''sub rule['' ?f 0 rules = Inr rs" "logical_dns_rule rs m inv' act (da_Race laction) = Inr rule"
      using NewDNSRule_logical[OF 1(2) False] by blast
    have "list_all (\<lambda>r. wf_dns r \<and> rule_Action r = None) rs"
    proof (rule res_mapiM_all[OF v(6)])
      fix x y
      assume x: "x \<in> set rules" and y: "?f x = Inr y"
      then have "validateNoNestedDNSRuleActions x True = Inr ()" "NewDNSRule env x False legacy = Inr y"
        by (auto simp: res_bind_Inr_iff)
      moreover from this(2) have "wf_dns y"
        by (rule 1(1)[OF False v(1) _ v(3,4) x, rotated]) simp
      ultimately show "wf_dns y \<and> rule_Action y = None"
        using NewDNSRule_Action by blast
    qed
    moreover have "rs \<noteq> []"
      using v(2,6) by (auto simp: res_mapiM_Inr_iff LogicalDNSRule_IsValid_def)
    ultimately show ?thesis using logical_mode_Inr[OF v(5)] logical_dns_rule_Inr[OF v(7)] by auto
  qed
qed

end
