(* ===== verification/RuleItemLaws.thy ===== *)
theory RuleItemLaws
  imports RuleItemOps
begin

section \<open>Laws of the rule condition items\<close>

text \<open>
  What the items that are built from a list have in common (they test one field of the metadata for
  membership), the outbound item with its special value \<open>any\<close>, and the port ranges: the accepted
  texts and the round trip through them (\<open>route/rule/rule_item_*.go\<close>).
\<close>

subsection \<open>List-valued items\<close>

text \<open>
  The contract of an item that is built from a list and looks one field of the metadata up in it:
  it matches when the field is in the list (and, for some items, is present at all).
\<close>

locale membership_item =
  fixes new :: "'k list \<Rightarrow> RuleItem"
    and field :: "InboundContext \<Rightarrow> 'k"
    and present :: "InboundContext \<Rightarrow> bool"
  assumes match_iff: "item_Match env (new ks) md \<longleftrightarrow> present md \<and> field md \<in> set ks"
begin

lemma match_append:
  "item_Match env (new (ks @ ls)) md \<longleftrightarrow> item_Match env (new ks) md \<or> item_Match env (new ls) md"
  by (auto simp: match_iff)

lemma match_mono: "set ks \<subseteq> set ls \<Longrightarrow> item_Match env (new ks) md \<Longrightarrow> item_Match env (new ls) md"
  by (auto simp: match_iff)

lemma match_order: "set ks = set ls \<Longrightarrow> item_Match env (new ks) md = item_Match env (new ls) md"
  by (simp add: match_iff)

lemma match_empty: "\<not> item_Match env (new []) md"
  by (simp add: match_iff)

end

interpretation inbound_item: membership_item NewInboundRule Inbound "\<lambda>_. True"
  by unfold_locales (simp add: NewInboundRule_def InboundItem_Match_def)

interpretation network_item: membership_item NewNetworkItem Network "\<lambda>_. True"
  by unfold_locales (simp add: NewNetworkItem_def NetworkItem_Match_def)

interpretation auth_user_item: membership_item NewAuthUserItem User "\<lambda>_. True"
  by unfold_locales (simp add: NewAuthUserItem_def AuthUserItem_Match_def)

interpretation protocol_item: membership_item NewProtocolItem Protocol "\<lambda>_. True"
  by unfold_locales (simp add: NewProtocolItem_def ProtocolItem_Match_def)

interpretation client_item: membership_item NewClientItem Client "\<lambda>_. True"
  by unfold_locales (simp add: NewClientItem_def ClientItem_Match_def)

interpretation hostname_item: membership_item NewSourceHostnameItem SourceHostname "\<lambda>md. SourceHostname md \<noteq> []"
  by unfold_locales (simp add: NewSourceHostnameItem_def SourceHostnameItem_Match_def)

interpretation query_type_item: membership_item NewQueryTypeItem QueryType "\<lambda>md. QueryType md \<noteq> 0"
  by unfold_locales (simp add: NewQueryTypeItem_def QueryTypeItem_Match_def)

interpretation port_item: membership_item "NewPortItem src"
    "\<lambda>md. if src then sock_Port (Source md) else sock_Port (Destination md)" "\<lambda>_. True" for src
  by unfold_locales (simp add: NewPortItem_def PortItem_Match_def)

interpretation process_item: membership_item NewProcessItem
    "\<lambda>md. filepath_Base (ProcessPath (the (ProcessInfo md)))"
    "\<lambda>md. \<exists>info. ProcessInfo md = Some info \<and> ProcessPath info \<noteq> []"
  by unfold_locales (auto simp: NewProcessItem_def ProcessItem_Match_def split: option.splits)

interpretation user_item: membership_item NewUserItem
    "\<lambda>md. UserName (the (ProcessInfo md))"
    "\<lambda>md. \<exists>info. ProcessInfo md = Some info \<and> UserName info \<noteq> []"
  by unfold_locales (auto simp: NewUserItem_def UserItem_Match_def split: option.splits)

interpretation user_id_item: membership_item NewUserIDItem
    "\<lambda>md. UserId (the (ProcessInfo md))"
    "\<lambda>md. \<exists>info. ProcessInfo md = Some info \<and> UserId info \<noteq> - 1"
  by unfold_locales (auto simp: NewUserIDItem_def UserIdItem_Match_def split: option.splits)

lemma outbound_rule_loop_spec:
  "map_true_get (fst (outbound_rule_loop os m a)) k \<longleftrightarrow> map_true_get m k \<or> k \<in> set os \<and> k \<noteq> ''any''"
  "snd (outbound_rule_loop os m a) \<longleftrightarrow> a \<or> ''any'' \<in> set os"
  by (induction os m a rule: outbound_rule_loop.induct) auto

lemma NewOutboundRule_match:
  "item_Match env (NewOutboundRule os) md \<longleftrightarrow>
     (if ''any'' \<in> set os then Outbound md \<noteq> [] else Outbound md \<in> set os)"
  using outbound_rule_loop_spec(1)[of os "[]" False "Outbound md"] outbound_rule_loop_spec(2)[of os "[]" False]
  by (cases "outbound_rule_loop os [] False") (auto simp: NewOutboundRule_def OutboundItem_Match_def)

subsection \<open>Port ranges\<close>

text \<open>The textual form of a range of ports.\<close>

definition format_port_range :: "u16 \<Rightarrow> u16 \<Rightarrow> string" where
  "format_port_range a b = strconv_FormatUint (unat a) @ '':'' @ strconv_FormatUint (unat b)"

lemma FormatUint_nonempty: "strconv_FormatUint n \<noteq> []"
  using FormatUint_digits [of n] by blast

lemma unat_u16: "unat (a::u16) < 65536"
  using unsigned_less[of a] by simp

lemma parse_format_port_range: "parse_port_range (format_port_range a b) = Inr (a, b)"
proof -
  let ?a = "strconv_FormatUint (unat a)" and ?b = "strconv_FormatUint (unat b)"
  have "unat a < 2 ^ 16" "unat b < 2 ^ 16" by (simp_all add: unat_u16)
  moreover have "strings_IndexByte (?a @ '':'' @ ?b) (CHR '':'') = Some (length ?a)"
    using FormatUint_no_colon[of "unat a"] by (simp add: IndexByte_append)
  ultimately show ?thesis
    using FormatUint_nonempty[of "unat a"] FormatUint_nonempty[of "unat b"]
    by (simp add: parse_port_range_def format_port_range_def ParseUint_FormatUint)
qed

lemma parse_open_port_ranges:
  "parse_port_range ('':'' @ strconv_FormatUint (unat (b::u16))) = Inr (0, b)"
  "parse_port_range (strconv_FormatUint (unat (a::u16)) @ '':'') = Inr (a, 0xFFFF)"
proof -
  have "unat a < 2 ^ 16" "unat b < 2 ^ 16" by (simp_all add: unat_u16)
  then show "parse_port_range ('':'' @ strconv_FormatUint (unat b)) = Inr (0, b)"
    "parse_port_range (strconv_FormatUint (unat a) @ '':'') = Inr (a, 0xFFFF)"
    using FormatUint_nonempty[of "unat a"] FormatUint_nonempty[of "unat b"] FormatUint_no_colon[of "unat a"]
      IndexByte_append[of "CHR '':''" "strconv_FormatUint (unat a)" "[]"]
    by (simp_all add: parse_port_range_def ParseUint_FormatUint)
qed

end
