(* ===== verification/GoStrings.thy ===== *)
theory GoStrings
  imports Prelude
begin

text \<open>
  More of Go's \<open>strings\<close> and \<open>strconv\<close>, on ASCII byte strings: \<open>strings.Split\<close> with a
  one-byte separator, \<open>strings.TrimPrefix\<close>, \<open>strconv.Itoa\<close> and the value that \<open>strconv.Atoi\<close>
  returns, with the laws that printing and splitting obey.
\<close>

fun strings_SplitByte :: "string \<Rightarrow> char \<Rightarrow> string list" where
  "strings_SplitByte [] c = [[]]"
| "strings_SplitByte (x # s) c =
     (if x = c then [] # strings_SplitByte s c
      else case strings_SplitByte s c of [] \<Rightarrow> [[x]] | p # ps \<Rightarrow> (x # p) # ps)"

definition strings_TrimPrefix :: "string \<Rightarrow> string \<Rightarrow> string" where
  "strings_TrimPrefix s p = (if strings_HasPrefix s p then drop (length p) s else s)"

definition strings_ContainsByte :: "string \<Rightarrow> char \<Rightarrow> bool" where
  "strings_ContainsByte s c \<longleftrightarrow> c \<in> set s"

text \<open>
  \<open>v, _ := strconv.Atoi(s)\<close>: zero for a syntax error, the nearest 64-bit value when out of range.
\<close>

definition atoi_digits :: "bool \<Rightarrow> string \<Rightarrow> int" where
  "atoi_digits neg ds =
     (if ds = [] \<or> \<not> list_all is_digit ds then 0
      else if neg then max (- (2 ^ 63)) (- int (digits_val ds))
      else min (2 ^ 63 - 1) (int (digits_val ds)))"

definition strconv_Atoi :: "string \<Rightarrow> int" where
  "strconv_Atoi s =
     (case s of
        [] \<Rightarrow> 0
      | c # ds \<Rightarrow>
          if c = CHR ''-'' then atoi_digits True ds
          else if c = CHR ''+'' then atoi_digits False ds
          else atoi_digits False s)"

definition strconv_Itoa :: "int \<Rightarrow> string" where
  "strconv_Itoa i = (if i < 0 then ''-'' @ strconv_FormatUint (nat (- i)) else strconv_FormatUint (nat i))"

lemma SplitByte_none: "c \<notin> set a \<Longrightarrow> strings_SplitByte a c = [a]"
  by (induction a) auto

lemma SplitByte_append: "c \<notin> set a \<Longrightarrow> strings_SplitByte (a @ c # s) c = a # strings_SplitByte s c"
  by (induction a) auto

lemma SplitByte_nonempty: "strings_SplitByte s c \<noteq> []"
  by (induction s) (auto split: list.splits)

lemma Join_SplitByte: "strings_Join (strings_SplitByte s c) [c] = s"
proof (induction s)
  case (Cons x s)
  obtain p ps where "strings_SplitByte s c = p # ps" using SplitByte_nonempty by (metis neq_Nil_conv)
  then show ?case using Cons.IH by (cases ps) auto
qed simp

lemma FormatUint_char: "x \<in> set (strconv_FormatUint n) \<Longrightarrow> is_digit x"
  using FormatUint_digits [of n] by (simp add: list_all_iff)

lemma not_is_digit [simp]:
  "\<not> is_digit CHR ''.''" "\<not> is_digit CHR ''-''" "\<not> is_digit CHR ''+''" "\<not> is_digit CHR ''v''"
  by (simp_all add: is_digit_def)

lemma FormatUint_no_byte: "\<not> is_digit c \<Longrightarrow> c \<notin> set (strconv_FormatUint n)"
  using FormatUint_char by blast

lemma FormatUint_hd: "\<exists>c ds. strconv_FormatUint n = c # ds \<and> is_digit c"
  using FormatUint_digits [of n] by (cases "strconv_FormatUint n") auto

lemma Itoa_nat: "0 \<le> i \<Longrightarrow> strconv_Itoa i = strconv_FormatUint (nat i)"
  by (simp add: strconv_Itoa_def)

text \<open>Printing a 64-bit integer and reading it back.\<close>

lemma Atoi_Itoa:
  assumes "- (2 ^ 63) \<le> i" "i < 2 ^ 63"
  shows "strconv_Atoi (strconv_Itoa i) = i"
proof (cases "i < 0")
  case True
  then show ?thesis
    using FormatUint_digits [of "nat (- i)"] assms
    by (simp add: strconv_Itoa_def strconv_Atoi_def atoi_digits_def)
next
  case False
  obtain c ds where c: "strconv_FormatUint (nat i) = c # ds" "is_digit c" using FormatUint_hd by blast
  then have "c \<noteq> CHR ''-''" "c \<noteq> CHR ''+''" by auto
  then show ?thesis
    using False c FormatUint_digits [of "nat i"] assms
    by (simp add: strconv_Itoa_def strconv_Atoi_def atoi_digits_def)
qed

lemma Atoi_empty [simp]: "strconv_Atoi [] = 0"
  by (simp add: strconv_Atoi_def)

end
