(* ===== verification/BadVersion.thy ===== *)
theory BadVersion
  imports GoStrings "HOL-Library.Product_Lexorder"
begin

text \<open>
  Version numbers (\<open>common/badversion/version.go\<close>): the record \<open>Version\<close>, its two printed forms,
  the parser and the comparisons, each a translation of the method of that name. Go's \<open>int\<close> has 64
  bits; the numbers are only compared, so they are integers here and the parser clamps them.
  Lemmas: the round trips through both printed forms, and that the comparisons are a linear order
  on released and pre-released versions, which they are not on versions with a commit.
\<close>

record Version =
  Major :: int
  Minor :: int
  Patch :: int
  Commit :: string
  PreReleaseIdentifier :: string
  PreReleaseVersion :: int

definition zero_version :: Version where
  "zero_version = \<lparr>Major = 0, Minor = 0, Patch = 0, Commit = [], PreReleaseIdentifier = [], PreReleaseVersion = 0\<rparr>"

definition parsePreReleaseIdentifier :: "string \<Rightarrow> int" where
  "parsePreReleaseIdentifier identifier =
     (if strings_HasPrefix identifier ''rc'' then 1
      else if strings_HasPrefix identifier ''beta'' then 2
      else if strings_HasPrefix identifier ''alpha'' then 3
      else 0)"

definition GreaterThan :: "Version \<Rightarrow> Version \<Rightarrow> bool" where
  "GreaterThan v w =
     (if Major v > Major w then True else if Major v < Major w then False
      else if Minor v > Minor w then True else if Minor v < Minor w then False
      else if Patch v > Patch w then True else if Patch v < Patch w then False
      else if PreReleaseIdentifier v = [] \<and> PreReleaseIdentifier w \<noteq> [] then True
      else if PreReleaseIdentifier v \<noteq> [] \<and> PreReleaseIdentifier w = [] then False
      else if PreReleaseIdentifier v \<noteq> [] \<and> PreReleaseIdentifier w \<noteq> [] then
        (if PreReleaseIdentifier v = PreReleaseIdentifier w \<and> PreReleaseVersion v > PreReleaseVersion w then True
         else if PreReleaseIdentifier v = PreReleaseIdentifier w \<and> PreReleaseVersion v < PreReleaseVersion w then False
         else
           let preReleaseIdentifier = parsePreReleaseIdentifier (PreReleaseIdentifier v);
               anotherPreReleaseIdentifier = parsePreReleaseIdentifier (PreReleaseIdentifier w)
           in if preReleaseIdentifier < anotherPreReleaseIdentifier then True
              else if preReleaseIdentifier > anotherPreReleaseIdentifier then False
              else False)
      else False)"

definition GreaterThanOrEqual :: "Version \<Rightarrow> Version \<Rightarrow> bool" where
  "GreaterThanOrEqual v w \<longleftrightarrow> v = w \<or> GreaterThan v w"

definition LessThanOrEqual :: "Version \<Rightarrow> Version \<Rightarrow> bool" where
  "LessThanOrEqual v w \<longleftrightarrow> v = w \<or> GreaterThan w v"

definition LessThan :: "Version \<Rightarrow> Version \<Rightarrow> bool" where
  "LessThan v w \<longleftrightarrow> \<not> GreaterThanOrEqual v w"

definition VersionString :: "Version \<Rightarrow> string" where
  "VersionString v = strconv_Itoa (Major v) @ ''.'' @ strconv_Itoa (Minor v) @ ''.'' @ strconv_Itoa (Patch v)"

definition Version_String :: "Version \<Rightarrow> string" where
  "Version_String v =
     (let version = strconv_Itoa (Major v) @ ''.'' @ strconv_Itoa (Minor v) @ ''.'' @ strconv_Itoa (Patch v)
      in if PreReleaseIdentifier v \<noteq> []
         then version @ ''-'' @ PreReleaseIdentifier v @ ''.'' @ strconv_Itoa (PreReleaseVersion v)
         else version)"

definition BadString :: "Version \<Rightarrow> string" where
  "BadString v =
     (let version = strconv_Itoa (Major v) @ ''.'' @ strconv_Itoa (Minor v);
          version = (if Patch v > 0 then version @ ''.'' @ strconv_Itoa (Patch v) else version)
      in if PreReleaseIdentifier v \<noteq> []
         then let version = version @ ''-'' @ PreReleaseIdentifier v
              in if PreReleaseVersion v > 0 then version @ strconv_Itoa (PreReleaseVersion v) else version
         else version)"

text \<open>The part after the dash: a dotted pre-release, a short pre-release, or a commit.\<close>

definition parse_identifier :: "string \<Rightarrow> Version \<Rightarrow> Version" where
  "parse_identifier identifier version =
     (if strings_ContainsByte identifier CHR ''.'' then
        let identifierParts = strings_SplitByte identifier CHR ''.'';
            version = version\<lparr>PreReleaseIdentifier := identifierParts ! 0\<rparr>
        in if length identifierParts \<ge> 2
           then version\<lparr>PreReleaseVersion := strconv_Atoi (identifierParts ! 1)\<rparr> else version
      else if strings_HasPrefix identifier ''alpha'' then
        version\<lparr>PreReleaseIdentifier := ''alpha'', PreReleaseVersion := strconv_Atoi (drop 5 identifier)\<rparr>
      else if strings_HasPrefix identifier ''beta'' then
        version\<lparr>PreReleaseIdentifier := ''beta'', PreReleaseVersion := strconv_Atoi (drop 4 identifier)\<rparr>
      else version\<lparr>Commit := identifier\<rparr>)"

definition parse_elements :: "string \<Rightarrow> Version \<Rightarrow> Version" where
  "parse_elements versionName version =
     (let versionElements = strings_SplitByte versionName CHR ''.'';
          versionLen = length versionElements;
          version = (if versionLen \<ge> 1 then version\<lparr>Major := strconv_Atoi (versionElements ! 0)\<rparr> else version);
          version = (if versionLen \<ge> 2 then version\<lparr>Minor := strconv_Atoi (versionElements ! 1)\<rparr> else version)
      in if versionLen \<ge> 3 then version\<lparr>Patch := strconv_Atoi (versionElements ! 2)\<rparr> else version)"

definition Parse :: "string \<Rightarrow> Version" where
  "Parse versionName =
     (let versionName = strings_TrimPrefix versionName ''v'' in
      if strings_ContainsByte versionName CHR ''-'' then
        let parts = strings_SplitByte versionName CHR ''-''
        in parse_elements (parts ! 0) (parse_identifier (parts ! 1) zero_version)
      else parse_elements versionName zero_version)"

subsection \<open>Versions without a commit\<close>

definition is_int63 :: "int \<Rightarrow> bool" where
  "is_int63 i \<longleftrightarrow> 0 \<le> i \<and> i < 2 ^ 63"

text \<open>
  A released or pre-released version: no commit, numbers that fit, an identifier that is one
  dot-and-dash-free word, and no pre-release number without an identifier.
\<close>

definition proper :: "Version \<Rightarrow> bool" where
  "proper v \<longleftrightarrow>
     is_int63 (Major v) \<and> is_int63 (Minor v) \<and> is_int63 (Patch v) \<and> is_int63 (PreReleaseVersion v) \<and>
     Commit v = [] \<and> (PreReleaseIdentifier v = [] \<longrightarrow> PreReleaseVersion v = 0) \<and>
     CHR ''.'' \<notin> set (PreReleaseIdentifier v) \<and> CHR ''-'' \<notin> set (PreReleaseIdentifier v)"

lemma Itoa_int63:
  "is_int63 i \<Longrightarrow> CHR ''.'' \<notin> set (strconv_Itoa i)"
  "is_int63 i \<Longrightarrow> CHR ''-'' \<notin> set (strconv_Itoa i)"
  "is_int63 i \<Longrightarrow> strconv_Atoi (strconv_Itoa i) = i"
  "is_int63 i \<Longrightarrow> strings_TrimPrefix (strconv_Itoa i @ s) ''v'' = strconv_Itoa i @ s"
proof -
  assume i: "is_int63 i"
  then show "CHR ''.'' \<notin> set (strconv_Itoa i)" "CHR ''-'' \<notin> set (strconv_Itoa i)"
    by (simp_all add: is_int63_def Itoa_nat FormatUint_no_byte)
  show "strconv_Atoi (strconv_Itoa i) = i" using i by (simp add: is_int63_def Atoi_Itoa)
  obtain c ds where "strconv_FormatUint (nat i) = c # ds" "is_digit c" using FormatUint_hd by blast
  moreover from this(2) have "c \<noteq> CHR ''v''" by auto
  ultimately show "strings_TrimPrefix (strconv_Itoa i @ s) ''v'' = strconv_Itoa i @ s"
    using i by (simp add: is_int63_def Itoa_nat strings_TrimPrefix_def strings_HasPrefix_def)
qed

lemma parse_elements_3:
  "is_int63 a \<Longrightarrow> is_int63 b \<Longrightarrow> is_int63 c \<Longrightarrow>
     parse_elements (strconv_Itoa a @ CHR ''.'' # strconv_Itoa b @ CHR ''.'' # strconv_Itoa c) v =
       v\<lparr>Major := a, Minor := b, Patch := c\<rparr>"
  by (simp add: parse_elements_def SplitByte_append SplitByte_none Itoa_int63)

lemma parse_elements_2:
  "is_int63 a \<Longrightarrow> is_int63 b \<Longrightarrow>
     parse_elements (strconv_Itoa a @ CHR ''.'' # strconv_Itoa b) v = v\<lparr>Major := a, Minor := b\<rparr>"
  by (simp add: parse_elements_def SplitByte_append SplitByte_none Itoa_int63)

lemma Parse_plain:
  "is_int63 a \<Longrightarrow> CHR ''-'' \<notin> set s \<Longrightarrow> Parse (strconv_Itoa a @ s) = parse_elements (strconv_Itoa a @ s) zero_version"
  by (simp add: Parse_def Itoa_int63 strings_ContainsByte_def)

lemma Parse_dashed:
  assumes "is_int63 a" "CHR ''-'' \<notin> set s" "CHR ''-'' \<notin> set i"
  shows "Parse (strconv_Itoa a @ s @ CHR ''-'' # i) = parse_elements (strconv_Itoa a @ s) (parse_identifier i zero_version)"
proof -
  have "strings_SplitByte (strconv_Itoa a @ s @ CHR ''-'' # i) CHR ''-'' = [strconv_Itoa a @ s, i]"
    using SplitByte_append[of "CHR ''-''" "strconv_Itoa a @ s" i] assms by (simp add: Itoa_int63 SplitByte_none)
  then show ?thesis
    using assms by (simp add: Parse_def Itoa_int63 strings_ContainsByte_def)
qed

lemma parse_identifier_dotted:
  "CHR ''.'' \<notin> set i \<Longrightarrow> is_int63 n \<Longrightarrow>
     parse_identifier (i @ CHR ''.'' # strconv_Itoa n) v = v\<lparr>PreReleaseIdentifier := i, PreReleaseVersion := n\<rparr>"
  by (simp add: parse_identifier_def strings_ContainsByte_def SplitByte_append SplitByte_none Itoa_int63)

lemma Parse_Version_String:
  assumes "proper v"
  shows "Parse (Version_String v) = v"
proof -
  have i: "is_int63 (Major v)" "is_int63 (Minor v)" "is_int63 (Patch v)" "is_int63 (PreReleaseVersion v)"
    using assms by (simp_all add: proper_def)
  show ?thesis
  proof (cases "PreReleaseIdentifier v = []")
    case True
    then show ?thesis
      using assms i by (simp add: Version_String_def Parse_plain parse_elements_3 Itoa_int63 proper_def zero_version_def)
  next
    case False
    let ?s = "CHR ''.'' # strconv_Itoa (Minor v) @ CHR ''.'' # strconv_Itoa (Patch v)"
    have "Version_String v = strconv_Itoa (Major v) @ ?s @ CHR ''-'' #
        (PreReleaseIdentifier v @ CHR ''.'' # strconv_Itoa (PreReleaseVersion v))"
      using False by (simp add: Version_String_def)
    moreover have "Parse \<dots> = parse_elements (strconv_Itoa (Major v) @ ?s)
        (parse_identifier (PreReleaseIdentifier v @ CHR ''.'' # strconv_Itoa (PreReleaseVersion v)) zero_version)"
      using assms i by (intro Parse_dashed) (simp_all add: Itoa_int63 proper_def)
    ultimately show ?thesis
      using assms i by (simp add: parse_identifier_dotted parse_elements_3 proper_def zero_version_def)
  qed
qed

text \<open>
  The short form omits a zero patch number and writes the pre-release number without a dot; the
  parser knows it for \<open>alpha\<close> and \<open>beta\<close> only.
\<close>

lemma parse_identifier_short:
  assumes "i = ''alpha'' \<or> i = ''beta''" "is_int63 n"
  shows "parse_identifier (i @ (if n > 0 then strconv_Itoa n else [])) v =
           v\<lparr>PreReleaseIdentifier := i, PreReleaseVersion := n\<rparr>"
proof -
  define t where "t = (if n > 0 then strconv_Itoa n else [])"
  have t: "CHR ''.'' \<notin> set t" "strconv_Atoi t = n"
    using assms(2) Itoa_int63[OF assms(2)] by (auto simp: t_def is_int63_def)
  show ?thesis
    unfolding t_def[symmetric] using assms(1) t
    by (elim disjE) (simp_all add: parse_identifier_def strings_ContainsByte_def strings_HasPrefix_def)
qed

lemma parse_elements_short:
  assumes "is_int63 a" "is_int63 b" "is_int63 c" "Patch v = 0"
  shows "parse_elements (strconv_Itoa a @ CHR ''.'' # strconv_Itoa b @
           (if c > 0 then CHR ''.'' # strconv_Itoa c else [])) v = v\<lparr>Major := a, Minor := b, Patch := c\<rparr>"
proof (cases "c > 0")
  case False
  then have "c = 0" using assms by (simp add: is_int63_def)
  then show ?thesis using assms by (simp add: parse_elements_2)
qed (use assms in \<open>simp add: parse_elements_3\<close>)

lemma Parse_BadString:
  assumes "proper v" "PreReleaseIdentifier v \<in> {[], ''alpha'', ''beta''}"
  shows "Parse (BadString v) = v"
proof -
  have i: "is_int63 (Major v)" "is_int63 (Minor v)" "is_int63 (Patch v)" "is_int63 (PreReleaseVersion v)"
    using assms by (simp_all add: proper_def)
  let ?s = "CHR ''.'' # strconv_Itoa (Minor v) @ (if Patch v > 0 then CHR ''.'' # strconv_Itoa (Patch v) else [])"
  show ?thesis
  proof (cases "PreReleaseIdentifier v = []")
    case True
    then have "BadString v = strconv_Itoa (Major v) @ ?s" by (simp add: BadString_def)
    moreover have "Parse \<dots> = parse_elements (strconv_Itoa (Major v) @ ?s) zero_version"
      using i by (intro Parse_plain) (simp_all add: Itoa_int63)
    ultimately show ?thesis
      using True assms i parse_elements_short[OF i(1-3), of zero_version]
      by (simp add: proper_def zero_version_def)
  next
    case False
    let ?i = "PreReleaseIdentifier v @ (if PreReleaseVersion v > 0 then strconv_Itoa (PreReleaseVersion v) else [])"
    have "BadString v = strconv_Itoa (Major v) @ ?s @ CHR ''-'' # ?i"
      using False by (simp add: BadString_def)
    moreover have "Parse \<dots> = parse_elements (strconv_Itoa (Major v) @ ?s) (parse_identifier ?i zero_version)"
      using assms i by (intro Parse_dashed) (simp_all add: Itoa_int63 proper_def)
    moreover have "parse_identifier ?i zero_version =
        zero_version\<lparr>PreReleaseIdentifier := PreReleaseIdentifier v, PreReleaseVersion := PreReleaseVersion v\<rparr>"
      using False assms i by (intro parse_identifier_short) auto
    ultimately show ?thesis
      using assms i parse_elements_short[OF i(1-3),
          of "zero_version\<lparr>PreReleaseIdentifier := PreReleaseIdentifier v, PreReleaseVersion := PreReleaseVersion v\<rparr>"]
      by (simp add: proper_def zero_version_def)
  qed
qed

subsection \<open>The order of versions\<close>

text \<open>
  The specification: versions in the order of their numbers, a release after its pre-releases, and
  those in the order \<open>alpha\<close>, \<open>beta\<close>, \<open>rc\<close>, then by number.
\<close>

definition pre_key :: "Version \<Rightarrow> int \<times> int" where
  "pre_key v =
     ((if PreReleaseIdentifier v = [] then 0 else - parsePreReleaseIdentifier (PreReleaseIdentifier v)), PreReleaseVersion v)"

definition version_key :: "Version \<Rightarrow> int \<times> int \<times> int \<times> int \<times> int" where
  "version_key v = (Major v, Minor v, Patch v, pre_key v)"

definition known_identifier :: "Version \<Rightarrow> bool" where
  "known_identifier v \<longleftrightarrow> proper v \<and> PreReleaseIdentifier v \<in> {[], ''rc'', ''beta'', ''alpha''}"

lemma rank_simps [simp]:
  "parsePreReleaseIdentifier ''rc'' = 1" "parsePreReleaseIdentifier ''beta'' = 2"
  "parsePreReleaseIdentifier ''alpha'' = 3"
  by (simp_all add: parsePreReleaseIdentifier_def strings_HasPrefix_def)

lemma GreaterThan_numbers:
  "Major v \<noteq> Major w \<Longrightarrow> GreaterThan v w \<longleftrightarrow> Major w < Major v"
  "Major v = Major w \<Longrightarrow> Minor v \<noteq> Minor w \<Longrightarrow> GreaterThan v w \<longleftrightarrow> Minor w < Minor v"
  "Major v = Major w \<Longrightarrow> Minor v = Minor w \<Longrightarrow> Patch v \<noteq> Patch w \<Longrightarrow> GreaterThan v w \<longleftrightarrow> Patch w < Patch v"
  by (simp_all add: GreaterThan_def)

lemma GreaterThan_pre:
  assumes "Major v = Major w" "Minor v = Minor w" "Patch v = Patch w" "known_identifier v" "known_identifier w"
  shows "GreaterThan v w \<longleftrightarrow> pre_key w < pre_key v"
proof -
  have "PreReleaseIdentifier v = [] \<Longrightarrow> PreReleaseVersion v = 0" "PreReleaseIdentifier w = [] \<Longrightarrow> PreReleaseVersion w = 0"
    "PreReleaseIdentifier v \<in> {[], ''rc'', ''beta'', ''alpha''}" "PreReleaseIdentifier w \<in> {[], ''rc'', ''beta'', ''alpha''}"
    using assms(4,5) by (simp_all add: known_identifier_def proper_def)
  then show ?thesis
    unfolding insert_iff empty_iff
    by (elim disjE) (simp_all add: GreaterThan_def assms(1-3) pre_key_def)
qed

lemma lex_less:
  "a \<noteq> b \<Longrightarrow> ((a::int, x::'b::order) < (b, y)) \<longleftrightarrow> a < b"
  "((a::int, x::'b::order) < (a, y)) \<longleftrightarrow> x < y"
  by auto

lemma GreaterThan_key:
  assumes "known_identifier v" "known_identifier w"
  shows "GreaterThan v w \<longleftrightarrow> version_key w < version_key v"
  using GreaterThan_numbers[of v w] GreaterThan_pre[of v w] assms
  by (cases "Major v = Major w"; cases "Minor v = Minor w"; cases "Patch v = Patch w")
    (simp_all add: version_key_def lex_less del: less_prod_simp)

lemma pre_key_inj:
  assumes "known_identifier v" "known_identifier w" "pre_key v = pre_key w"
  shows "PreReleaseIdentifier v = PreReleaseIdentifier w \<and> PreReleaseVersion v = PreReleaseVersion w"
proof -
  have "PreReleaseIdentifier v \<in> {[], ''rc'', ''beta'', ''alpha''}" "PreReleaseIdentifier w \<in> {[], ''rc'', ''beta'', ''alpha''}"
    using assms(1,2) by (simp_all add: known_identifier_def)
  then show ?thesis
    using assms(3) unfolding insert_iff empty_iff by (elim disjE) (simp_all add: pre_key_def)
qed

lemma version_key_inj:
  assumes "known_identifier v" "known_identifier w" "version_key v = version_key w"
  shows "v = w"
proof -
  have "Commit v = Commit w" using assms(1,2) by (simp add: known_identifier_def proper_def)
  then show ?thesis
    using assms(3) pre_key_inj[OF assms(1,2)] by (intro Version.equality) (simp_all add: version_key_def)
qed

lemma comparisons_key:
  assumes "known_identifier v" "known_identifier w"
  shows "GreaterThanOrEqual v w \<longleftrightarrow> version_key w \<le> version_key v"
    "LessThanOrEqual v w \<longleftrightarrow> version_key v \<le> version_key w"
    "LessThan v w \<longleftrightarrow> version_key v < version_key w"
proof -
  have eq: "v = w \<longleftrightarrow> version_key v = version_key w" using version_key_inj[OF assms] by blast
  show ge: "GreaterThanOrEqual v w \<longleftrightarrow> version_key w \<le> version_key v"
    by (simp only: GreaterThanOrEqual_def eq GreaterThan_key[OF assms] order_le_less) auto
  show "LessThanOrEqual v w \<longleftrightarrow> version_key v \<le> version_key w"
    by (simp only: LessThanOrEqual_def eq GreaterThan_key[OF assms(2,1)] order_le_less) auto
  show "LessThan v w \<longleftrightarrow> version_key v < version_key w"
    by (simp only: LessThan_def ge not_le)
qed

subsection \<open>Properties\<close>

definition beta_version :: Version where
  "beta_version =
     \<lparr>Major = 1, Minor = 3, Patch = 0, Commit = [], PreReleaseIdentifier = ''beta'', PreReleaseVersion = 1\<rparr>"

definition kernel_6_14 :: Version where
  "kernel_6_14 = zero_version\<lparr>Major := 6, Minor := 14\<rparr>"

lemma beta_version_known: "known_identifier beta_version" "proper beta_version"
  by (simp_all add: known_identifier_def proper_def beta_version_def is_int63_def)



text \<open>
  C32: on released, \<open>rc\<close>, \<open>beta\<close> and \<open>alpha\<close> versions the four comparisons are those of the
  lexicographic order of the numbers and the pre-release part: a linear order.
\<close>

theorem version_order:
  assumes "known_identifier v" "known_identifier w"
  shows "(GreaterThan v w \<longleftrightarrow> version_key w < version_key v) \<and>
    (GreaterThanOrEqual v w \<longleftrightarrow> version_key w \<le> version_key v) \<and>
    (LessThanOrEqual v w \<longleftrightarrow> version_key v \<le> version_key w) \<and>
    (LessThan v w \<longleftrightarrow> version_key v < version_key w) \<and>
    (version_key v = version_key w \<longleftrightarrow> v = w)"
  using GreaterThan_key[OF assms] comparisons_key[OF assms] version_key_inj[OF assms] by auto

theorem version_order_witness: "GreaterThanOrEqual beta_version beta_version \<and> \<not> LessThan beta_version beta_version"
  using version_order[OF beta_version_known(1) beta_version_known(1)] by simp

text \<open>
  Two versions that differ in their commit only are each \<open>LessThan\<close> the other, and neither is
  \<open>GreaterThanOrEqual\<close> the other. In particular a Linux release such as \<open>6.14.0-15-generic\<close> does
  not pass the test for kernel 6.14.
\<close>

theorem commit_breaks_order:
  assumes "w = v\<lparr>Commit := c\<rparr>" "c \<noteq> Commit v"
  shows "LessThan v w \<and> LessThan w v \<and> \<not> GreaterThanOrEqual v w \<and> \<not> GreaterThanOrEqual w v"
proof -
  have "v \<noteq> w" using assms by (metis Version.select_convs(4) Version.surjective Version.update_convs(4))
  moreover have "\<not> GreaterThan v w" "\<not> GreaterThan w v" using assms(1) by (simp_all add: GreaterThan_def)
  ultimately show ?thesis by (auto simp: LessThan_def GreaterThanOrEqual_def)
qed

theorem commit_breaks_order_witness:
  "Parse ''6.14.0-15-generic'' = kernel_6_14\<lparr>Commit := ''15''\<rparr> \<and>
   \<not> GreaterThanOrEqual (Parse ''6.14.0-15-generic'') kernel_6_14"
proof -
  have "Parse ''6.14.0-15-generic'' = kernel_6_14\<lparr>Commit := ''15''\<rparr>"
    by (simp add: Parse_def parse_elements_def parse_identifier_def strings_TrimPrefix_def strings_HasPrefix_def
        strings_ContainsByte_def strconv_Atoi_def atoi_digits_def is_digit_def digits_val_def digit_val_def
        zero_version_def kernel_6_14_def)
  then show ?thesis
    using commit_breaks_order[where v = kernel_6_14 and c = "''15''" and w = "kernel_6_14\<lparr>Commit := ''15''\<rparr>"]
    by (simp add: kernel_6_14_def zero_version_def)
qed

end
