(* ===== verification/Lifecycle.thy ===== *)
theory Lifecycle
  imports GoStrings
begin

text \<open>
  Components with a life cycle (\<open>adapter/lifecycle.go\<close>, \<open>adapter/lifecycle_legacy.go\<close>): inbounds,
  outbounds, endpoints, services, DNS servers. A component is an object with an identity, a type, a
  tag and dependencies, and a set of optional methods that the code discovers by type assertions.
  What a method does is code of the component: a parameter \<open>run\<close> says how each call ends, given the
  calls made before it, and the list of calls made so far is threaded through the operations.
\<close>

subsection \<open>Stages\<close>

datatype StartStage = StartStateInitialize | StartStateStart | StartStatePostStart | StartStateStarted

fun stage_num :: "StartStage \<Rightarrow> nat" where
  "stage_num StartStateInitialize = 0"
| "stage_num StartStateStart = 1"
| "stage_num StartStatePostStart = 2"
| "stage_num StartStateStarted = 3"

lemma stage_num_inj [simp]: "stage_num a = stage_num b \<longleftrightarrow> a = b"
  by (cases a; cases b) simp_all

instantiation StartStage :: linorder
begin

definition less_eq_StartStage :: "StartStage \<Rightarrow> StartStage \<Rightarrow> bool" where
  "less_eq_StartStage a b \<longleftrightarrow> stage_num a \<le> stage_num b"

definition less_StartStage :: "StartStage \<Rightarrow> StartStage \<Rightarrow> bool" where
  "less_StartStage a b \<longleftrightarrow> stage_num a < stage_num b"

instance
  by standard (auto simp: less_eq_StartStage_def less_StartStage_def simp flip: stage_num_inj)

end

definition ListStartStages :: "StartStage list" where
  "ListStartStages = [StartStateInitialize, StartStateStart, StartStatePostStart, StartStateStarted]"

fun StartStage_String :: "StartStage \<Rightarrow> string" where
  "StartStage_String StartStateInitialize = ''initialize''"
| "StartStage_String StartStateStart = ''start''"
| "StartStage_String StartStatePostStart = ''post-start''"
| "StartStage_String StartStateStarted = ''finish-start''"

subsection \<open>Components and calls\<close>

record component =
  c_id :: nat
  c_Type :: string
  c_Tag :: string
  c_Dependencies :: "string list"
  c_isLifecycle :: bool
  c_hasPreStart :: bool
  c_hasStart :: bool
  c_hasPostStart :: bool
  c_isCloser :: bool

datatype call = LifecycleStart StartStage | PreStart | SimpleStart | PostStart | Close

type_synonym calls = "(nat \<times> call) list"
type_synonym runner = "calls \<Rightarrow> component \<Rightarrow> call \<Rightarrow> unit result"

definition invoke :: "runner \<Rightarrow> component \<Rightarrow> call \<Rightarrow> calls \<Rightarrow> unit result \<times> calls" where
  "invoke run c k tr = (run tr c k, tr @ [(c_id c, k)])"

text \<open>Every method of every component succeeds.\<close>

definition run_ok :: runner where
  "run_ok = (\<lambda>_ _ _. Inr ())"

text \<open>The method that \<open>LegacyStart\<close> finds for a stage, if any.\<close>

definition legacy_call :: "component \<Rightarrow> StartStage \<Rightarrow> call option" where
  "legacy_call c stage =
     (if c_isLifecycle c then Some (LifecycleStart stage)
      else case stage of
        StartStateInitialize \<Rightarrow> if c_hasPreStart c then Some PreStart else None
      | StartStateStart \<Rightarrow> if c_hasStart c then Some SimpleStart else None
      | StartStatePostStart \<Rightarrow> None
      | StartStateStarted \<Rightarrow> if c_hasPostStart c then Some PostStart else None)"

definition LegacyStart :: "runner \<Rightarrow> component \<Rightarrow> StartStage \<Rightarrow> calls \<Rightarrow> unit result \<times> calls" where
  "LegacyStart run c stage tr =
     (case legacy_call c stage of None \<Rightarrow> (Inr (), tr) | Some k \<Rightarrow> invoke run c k tr)"

definition common_Close :: "runner \<Rightarrow> component \<Rightarrow> calls \<Rightarrow> unit result \<times> calls" where
  "common_Close run c tr = (if c_isCloser c then invoke run c Close tr else (Inr (), tr))"

subsection \<open>Loops over components and stages\<close>

definition component_name :: "string \<Rightarrow> component \<Rightarrow> string" where
  "component_name kind c = kind @ ''/'' @ c_Type c @ ''['' @ c_Tag c @ '']''"

fun start_stage_loop :: "runner \<Rightarrow> string \<Rightarrow> StartStage \<Rightarrow> component list \<Rightarrow> calls \<Rightarrow> unit result \<times> calls" where
  "start_stage_loop run kind stage [] tr = (Inr (), tr)"
| "start_stage_loop run kind stage (c # cs) tr =
     (case LegacyStart run c stage tr of
        (Inl e, tr') \<Rightarrow> (Inl (ECause (StartStage_String stage @ '' '' @ component_name kind c) e), tr')
      | (Inr _, tr') \<Rightarrow> start_stage_loop run kind stage cs tr')"

fun start_all_stages :: "runner \<Rightarrow> string \<Rightarrow> component \<Rightarrow> StartStage list \<Rightarrow> calls \<Rightarrow> unit result \<times> calls" where
  "start_all_stages run kind c [] tr = (Inr (), tr)"
| "start_all_stages run kind c (stage # stages) tr =
     (case LegacyStart run c stage tr of
        (Inl e, tr') \<Rightarrow> (Inl (ECause (StartStage_String stage @ '' '' @ component_name kind c) e), tr')
      | (Inr _, tr') \<Rightarrow> start_all_stages run kind c stages tr')"

text \<open>
  The services of a box (\<open>adapter.StartNamed\<close>): started in order until one fails or the context is
  cancelled; \<open>ctxErr\<close> is what \<open>ctx.Err()\<close> returns after the calls so far.
\<close>

fun StartNamed ::
    "(calls \<Rightarrow> error option) \<Rightarrow> runner \<Rightarrow> StartStage \<Rightarrow> (string \<times> component) list \<Rightarrow> calls \<Rightarrow> unit result \<times> calls" where
  "StartNamed ctxErr run stage [] tr = (Inr (), tr)"
| "StartNamed ctxErr run stage ((name, service) # services) tr =
     (case ctxErr tr of
        Some e \<Rightarrow> (Inl e, tr)
      | None \<Rightarrow>
          (case invoke run service (LifecycleStart stage) tr of
             (Inl e, tr') \<Rightarrow> (Inl (ECause (StartStage_String stage @ '' '' @ name) e), tr')
           | (Inr _, tr') \<Rightarrow> StartNamed ctxErr run stage services tr'))"

subsection \<open>Lemmas\<close>

lemma invoke_simps [simp]: "snd (invoke run c k tr) = tr @ [(c_id c, k)]" "fst (invoke run c k tr) = run tr c k"
  by (simp_all add: invoke_def)

lemma invoke_ok [simp]: "invoke run_ok c k tr = (Inr (), tr @ [(c_id c, k)])"
  by (simp add: invoke_def run_ok_def)

lemma LegacyStart_ok [simp]:
  "LegacyStart run_ok c stage tr =
     (Inr (), tr @ (case legacy_call c stage of None \<Rightarrow> [] | Some k \<Rightarrow> [(c_id c, k)]))"
  by (simp add: LegacyStart_def split: option.splits)

text \<open>A start call never closes anything.\<close>

lemma legacy_call_not_Close: "legacy_call c stage \<noteq> Some Close"
  by (auto simp: legacy_call_def split: StartStage.splits)

definition closed_ids :: "calls \<Rightarrow> nat list" where
  "closed_ids tr = map fst (filter (\<lambda>(i, k). k = Close) tr)"

definition called_ids :: "calls \<Rightarrow> nat set" where
  "called_ids tr = fst ` set tr"

lemma closed_ids_simps [simp]:
  "closed_ids [] = []" "closed_ids (a @ b) = closed_ids a @ closed_ids b"
  "closed_ids [(i, k)] = (if k = Close then [i] else [])"
  by (simp_all add: closed_ids_def)

lemma called_ids_simps [simp]:
  "called_ids [] = {}" "called_ids (a @ b) = called_ids a \<union> called_ids b" "called_ids [x] = {fst x}"
  by (auto simp: called_ids_def)

lemma closed_subset_called: "set (closed_ids tr) \<subseteq> called_ids tr"
  by (auto simp: closed_ids_def called_ids_def)

lemma LegacyStart_calls:
  "LegacyStart run c stage tr = (r, tr') \<Longrightarrow> closed_ids tr' = closed_ids tr \<and> called_ids tr' \<subseteq> insert (c_id c) (called_ids tr)"
  using legacy_call_not_Close[of c stage]
  by (auto simp: LegacyStart_def invoke_def split: option.splits)

lemma start_stage_loop_calls:
  "start_stage_loop run kind stage cs tr = (r, tr') \<Longrightarrow>
     closed_ids tr' = closed_ids tr \<and> called_ids tr' \<subseteq> c_id ` set cs \<union> called_ids tr"
proof (induction cs arbitrary: tr)
  case (Cons c cs)
  obtain r1 tr1 where l: "LegacyStart run c stage tr = (r1, tr1)" by fastforce
  show ?case
  proof (cases r1)
    case (Inl e)
    then show ?thesis using Cons.prems l LegacyStart_calls[OF l] by auto
  next
    case (Inr u)
    then have "start_stage_loop run kind stage cs tr1 = (r, tr')" using Cons.prems l by simp
    from Cons.IH[OF this] show ?thesis using LegacyStart_calls[OF l] by auto
  qed
qed simp

lemma start_all_stages_calls:
  "start_all_stages run kind c stages tr = (r, tr') \<Longrightarrow>
     closed_ids tr' = closed_ids tr \<and> called_ids tr' \<subseteq> insert (c_id c) (called_ids tr)"
proof (induction stages arbitrary: tr)
  case (Cons s stages)
  obtain r1 tr1 where l: "LegacyStart run c s tr = (r1, tr1)" by fastforce
  show ?case
  proof (cases r1)
    case (Inl e)
    then show ?thesis using Cons.prems l LegacyStart_calls[OF l] by auto
  next
    case (Inr u)
    then have "start_all_stages run kind c stages tr1 = (r, tr')" using Cons.prems l by simp
    from Cons.IH[OF this] show ?thesis using LegacyStart_calls[OF l] by auto
  qed
qed auto

end
