(* ===== verification/ComponentManagers.thy ===== *)
theory ComponentManagers
  imports Lifecycle "HOL-Library.AList"
begin

text \<open>
  The managers of inbounds, endpoints, services and certificate providers
  (\<open>adapter/inbound/manager.go\<close>, \<open>adapter/endpoint/manager.go\<close>, \<open>adapter/service/manager.go\<close>,
  \<open>adapter/certificate/manager.go\<close>). The four have the same state and, up to names in messages, the
  same operations; the bodies are shared here (\<open>Manager_Start\<close> and so on, with the names as
  parameters) and instantiated once per manager, with their differences: the endpoint manager leaves
  the stage \<open>start\<close> to the outbound manager, the inbound manager falls back to endpoints in \<open>Get\<close>,
  the certificate manager reports the errors of \<open>Close\<close>. The map by tag is an association list. The
  locks serialise the operations and are not modelled: an operation is one step.

  Lemmas: the list and the map of a manager describe the same components, no operation before
  \<open>Close\<close> panics because of them, and every component that is started is closed exactly once.
\<close>

subsection \<open>State and operations\<close>

record Manager =
  m_started :: bool
  m_stage :: StartStage
  m_elems :: "component list"
  m_byTag :: "(string \<times> component) list"
  m_calls :: calls

definition NewManager :: Manager where
  "NewManager = \<lparr>m_started = False, m_stage = StartStateInitialize, m_elems = [], m_byTag = [], m_calls = []\<rparr>"

text \<open>Removal at the index of an object (compared by identity); \<open>None\<close> when it is not in the list.\<close>

fun remove_object :: "component \<Rightarrow> component list \<Rightarrow> component list option" where
  "remove_object c [] = None"
| "remove_object c (x # xs) =
     (if c_id x = c_id c then Some xs else map_option ((#) x) (remove_object c xs))"

definition Manager_Start :: "string \<Rightarrow> runner \<Rightarrow> Manager \<Rightarrow> StartStage \<Rightarrow> unit result \<times> Manager" where
  "Manager_Start kind run m stage =
     (if m_started m \<and> m_stage m \<ge> stage then (Inl (EPanic ''already started''), m)
      else
        let m = m\<lparr>m_started := True, m_stage := stage\<rparr>;
            (r, calls) = start_stage_loop run kind stage (m_elems m) (m_calls m)
        in (r, m\<lparr>m_calls := calls\<rparr>))"

text \<open>Closing every component; the errors in order, with their causes.\<close>

fun close_loop :: "runner \<Rightarrow> string \<Rightarrow> component list \<Rightarrow> calls \<Rightarrow> error list \<times> calls" where
  "close_loop run kind [] tr = ([], tr)"
| "close_loop run kind (c # cs) tr =
     (let (r, tr') = invoke run c Close tr;
          (errs, tr'') = close_loop run kind cs tr'
      in ((case r of Inl e \<Rightarrow> [ECause (''close '' @ component_name kind c) e] | Inr _ \<Rightarrow> []) @ errs, tr''))"

definition Manager_Close :: "string \<Rightarrow> runner \<Rightarrow> Manager \<Rightarrow> error list \<times> Manager" where
  "Manager_Close kind run m =
     (if \<not> m_started m then ([], m)
      else
        let (errs, calls) = close_loop run kind (m_elems m) (m_calls m)
        in (errs, m\<lparr>m_started := False, m_elems := [], m_calls := calls\<rparr>))"

definition Manager_Get :: "Manager \<Rightarrow> string \<Rightarrow> component option" where
  "Manager_Get m tag = map_of (m_byTag m) tag"

definition Manager_Remove :: "string \<Rightarrow> runner \<Rightarrow> Manager \<Rightarrow> string \<Rightarrow> unit result \<times> Manager" where
  "Manager_Remove kind run m tag =
     (case map_of (m_byTag m) tag of
        None \<Rightarrow> (Inl EInvalid, m)
      | Some c \<Rightarrow>
          let m = m\<lparr>m_byTag := AList.delete tag (m_byTag m)\<rparr> in
          case remove_object c (m_elems m) of
            None \<Rightarrow> (Inl (EPanic (''invalid '' @ kind @ '' index'')), m)
          | Some elems \<Rightarrow>
              let m = m\<lparr>m_elems := elems\<rparr> in
              if m_started m
              then let (r, calls) = invoke run c Close (m_calls m) in (r, m\<lparr>m_calls := calls\<rparr>)
              else (Inr (), m))"

text \<open>
  \<open>Create\<close>: \<open>created\<close> is what the registry's constructor returns. The new component is started
  first, then the one it replaces is closed.
\<close>

definition Manager_replace :: "string \<Rightarrow> string \<Rightarrow> runner \<Rightarrow> Manager \<Rightarrow> string \<Rightarrow> unit result \<times> Manager" where
  "Manager_replace kind index run m tag =
     (case map_of (m_byTag m) tag of
        None \<Rightarrow> (Inr (), m)
      | Some old \<Rightarrow>
          let (r, calls) = (if m_started m then invoke run old Close (m_calls m) else (Inr (), m_calls m));
              m = m\<lparr>m_calls := calls\<rparr>
          in case r of
               Inl e \<Rightarrow> (Inl (ECause (''close '' @ component_name kind old) e), m)
             | Inr _ \<Rightarrow>
                 (case remove_object old (m_elems m) of
                    None \<Rightarrow> (Inl (EPanic (''invalid '' @ index @ '' index'')), m)
                  | Some elems \<Rightarrow> (Inr (), m\<lparr>m_elems := elems\<rparr>)))"

definition Manager_Create ::
    "string \<Rightarrow> string \<Rightarrow> runner \<Rightarrow> component result \<Rightarrow> Manager \<Rightarrow> string \<Rightarrow> unit result \<times> Manager" where
  "Manager_Create kind index run created m tag =
     (case created of
        Inl e \<Rightarrow> (Inl e, m)
      | Inr c \<Rightarrow>
          let (r, calls) = (if m_started m then start_all_stages run kind c ListStartStages (m_calls m)
                            else (Inr (), m_calls m));
              m = m\<lparr>m_calls := calls\<rparr>
          in case r of
               Inl e \<Rightarrow> (Inl e, m)
             | Inr _ \<Rightarrow>
                 (case Manager_replace kind index run m tag of
                    (Inl e, m) \<Rightarrow> (Inl e, m)
                  | (Inr _, m) \<Rightarrow>
                      (Inr (), m\<lparr>m_elems := m_elems m @ [c], m_byTag := AList.update tag c (m_byTag m)\<rparr>)))"

subsection \<open>The four managers\<close>

definition InboundManager_Start :: "runner \<Rightarrow> Manager \<Rightarrow> StartStage \<Rightarrow> unit result \<times> Manager" where
  "InboundManager_Start = Manager_Start ''inbound''"

definition InboundManager_Close :: "runner \<Rightarrow> Manager \<Rightarrow> unit result \<times> Manager" where
  "InboundManager_Close run m = (Inr (), snd (Manager_Close ''inbound'' run m))"

definition InboundManager_Get :: "(string \<Rightarrow> component option) \<Rightarrow> Manager \<Rightarrow> string \<Rightarrow> component option" where
  "InboundManager_Get endpoint_Get m tag =
     (case Manager_Get m tag of Some c \<Rightarrow> Some c | None \<Rightarrow> endpoint_Get tag)"

definition InboundManager_Remove :: "runner \<Rightarrow> Manager \<Rightarrow> string \<Rightarrow> unit result \<times> Manager" where
  "InboundManager_Remove = Manager_Remove ''inbound''"

definition InboundManager_Create :: "runner \<Rightarrow> component result \<Rightarrow> Manager \<Rightarrow> string \<Rightarrow> unit result \<times> Manager" where
  "InboundManager_Create = Manager_Create ''inbound'' ''inbound''"

definition EndpointManager_Start :: "runner \<Rightarrow> Manager \<Rightarrow> StartStage \<Rightarrow> unit result \<times> Manager" where
  "EndpointManager_Start run m stage =
     (if m_started m \<and> m_stage m \<ge> stage then (Inl (EPanic ''already started''), m)
      else if stage = StartStateStart then (Inr (), m\<lparr>m_started := True, m_stage := stage\<rparr>)
      else Manager_Start ''endpoint'' run m stage)"

definition EndpointManager_Close :: "runner \<Rightarrow> Manager \<Rightarrow> unit result \<times> Manager" where
  "EndpointManager_Close run m = (Inr (), snd (Manager_Close ''endpoint'' run m))"

definition EndpointManager_Get :: "Manager \<Rightarrow> string \<Rightarrow> component option" where
  "EndpointManager_Get = Manager_Get"

definition EndpointManager_Remove :: "runner \<Rightarrow> Manager \<Rightarrow> string \<Rightarrow> unit result \<times> Manager" where
  "EndpointManager_Remove = Manager_Remove ''endpoint''"

definition EndpointManager_Create :: "runner \<Rightarrow> component result \<Rightarrow> Manager \<Rightarrow> string \<Rightarrow> unit result \<times> Manager" where
  "EndpointManager_Create = Manager_Create ''endpoint'' ''endpoint''"

definition ServiceManager_Start :: "runner \<Rightarrow> Manager \<Rightarrow> StartStage \<Rightarrow> unit result \<times> Manager" where
  "ServiceManager_Start = Manager_Start ''service''"

definition ServiceManager_Close :: "runner \<Rightarrow> Manager \<Rightarrow> unit result \<times> Manager" where
  "ServiceManager_Close run m = (Inr (), snd (Manager_Close ''service'' run m))"

definition ServiceManager_Get :: "Manager \<Rightarrow> string \<Rightarrow> component option" where
  "ServiceManager_Get = Manager_Get"

definition ServiceManager_Remove :: "runner \<Rightarrow> Manager \<Rightarrow> string \<Rightarrow> unit result \<times> Manager" where
  "ServiceManager_Remove = Manager_Remove ''service''"

definition ServiceManager_Create :: "runner \<Rightarrow> component result \<Rightarrow> Manager \<Rightarrow> string \<Rightarrow> unit result \<times> Manager" where
  "ServiceManager_Create = Manager_Create ''service'' ''service''"

definition CertificateManager_Start :: "runner \<Rightarrow> Manager \<Rightarrow> StartStage \<Rightarrow> unit result \<times> Manager" where
  "CertificateManager_Start = Manager_Start ''certificate-provider''"

text \<open>\<open>join\<close> stands for \<open>E.Append\<close>, which combines several errors into one.\<close>

definition CertificateManager_Close :: "(error list \<Rightarrow> error) \<Rightarrow> runner \<Rightarrow> Manager \<Rightarrow> unit result \<times> Manager" where
  "CertificateManager_Close join run m =
     (let (errs, m') = Manager_Close ''certificate-provider'' run m
      in (if errs = [] then Inr () else Inl (join errs), m'))"

definition CertificateManager_Get :: "Manager \<Rightarrow> string \<Rightarrow> component option" where
  "CertificateManager_Get = Manager_Get"

definition CertificateManager_Remove :: "runner \<Rightarrow> Manager \<Rightarrow> string \<Rightarrow> unit result \<times> Manager" where
  "CertificateManager_Remove = Manager_Remove ''certificate provider''"

definition CertificateManager_Create :: "runner \<Rightarrow> component result \<Rightarrow> Manager \<Rightarrow> string \<Rightarrow> unit result \<times> Manager" where
  "CertificateManager_Create = Manager_Create ''certificate-provider'' ''certificate provider''"

subsection \<open>The list and the map agree\<close>

definition registry_ok :: "component list \<Rightarrow> (string \<rightharpoonup> component) \<Rightarrow> bool" where
  "registry_ok es f \<longleftrightarrow>
     distinct (map c_id es) \<and> set es = ran f \<and>
     (\<forall>t t' c c'. f t = Some c \<longrightarrow> f t' = Some c' \<longrightarrow> c_id c = c_id c' \<longrightarrow> t = t')"

lemma remove_object_Some:
  "distinct (map c_id es) \<Longrightarrow> c \<in> set es \<Longrightarrow> remove_object c es = Some (filter (\<lambda>x. c_id x \<noteq> c_id c) es)"
proof (induction es)
  case (Cons x es)
  show ?case
  proof (cases "c_id x = c_id c")
    case True
    then have "filter (\<lambda>x. c_id x \<noteq> c_id c) es = es" using Cons.prems(1) by (auto simp: filter_id_conv image_iff)
    then show ?thesis using True by simp
  next
    case False
    then show ?thesis using Cons by auto
  qed
qed simp

lemma registry_okD:
  "registry_ok es f \<Longrightarrow> f t = Some c \<Longrightarrow> f t' = Some c' \<Longrightarrow> c_id c = c_id c' \<Longrightarrow> t = t'"
  "registry_ok es f \<Longrightarrow> set es = ran f" "registry_ok es f \<Longrightarrow> distinct (map c_id es)"
  unfolding registry_ok_def by blast+

lemma registry_okI:
  assumes "distinct (map c_id es)" "set es = ran f"
    and "\<And>t t' c c'. f t = Some c \<Longrightarrow> f t' = Some c' \<Longrightarrow> c_id c = c_id c' \<Longrightarrow> t = t'"
  shows "registry_ok es f"
  unfolding registry_ok_def using assms by blast

lemma registry_mem: "registry_ok es f \<Longrightarrow> f t = Some c \<Longrightarrow> c \<in> set es"
  by (simp add: registry_okD(2) ranI)

lemma registry_ids: "registry_ok es f \<Longrightarrow> c \<in> set es \<Longrightarrow> c' \<in> set es \<Longrightarrow> c_id c = c_id c' \<Longrightarrow> c = c'"
  by (metis distinct_map inj_onD registry_okD(3))

lemma registry_remove:
  assumes "registry_ok es f" "f t = Some c"
  shows "remove_object c es = Some (filter (\<lambda>x. c_id x \<noteq> c_id c) es)"
    and "registry_ok (filter (\<lambda>x. c_id x \<noteq> c_id c) es) (f(t := None))"
    and "set (filter (\<lambda>x. c_id x \<noteq> c_id c) es) = set es - {c}"
proof -
  have c: "c \<in> set es" using registry_mem[OF assms] .
  show "remove_object c es = Some (filter (\<lambda>x. c_id x \<noteq> c_id c) es)"
    using remove_object_Some[OF registry_okD(3)[OF assms(1)] c] .
  have "c_id x \<noteq> c_id c \<longleftrightarrow> x \<noteq> c" if "x \<in> set es" for x
    using registry_ids[OF assms(1) that c] by blast
  then show eq: "set (filter (\<lambda>x. c_id x \<noteq> c_id c) es) = set es - {c}" by auto
  have "ran f - {c} = ran (f(t := None))"
  proof -
    have "(f(t := None)) t' = Some d \<longleftrightarrow> f t' = Some d \<and> d \<noteq> c" for t' d
      using registry_okD(1)[OF assms(1), of t' c t c] assms(2) by (cases "t' = t"; cases "d = c") auto
    then show ?thesis unfolding ran_def by blast
  qed
  then have ran: "set (filter (\<lambda>x. c_id x \<noteq> c_id c) es) = ran (f(t := None))"
    by (simp only: eq registry_okD(2)[OF assms(1)])
  show "registry_ok (filter (\<lambda>x. c_id x \<noteq> c_id c) es) (f(t := None))"
  proof (rule registry_okI[OF _ ran])
    show "distinct (map c_id (filter (\<lambda>x. c_id x \<noteq> c_id c) es))"
      using registry_okD(3)[OF assms(1)] by (rule distinct_map_filter)
    fix t1 t2 c1 c2
    assume "(f(t := None)) t1 = Some c1" "(f(t := None)) t2 = Some c2" "c_id c1 = c_id c2"
    then show "t1 = t2" using registry_okD(1)[OF assms(1), of t1 c1 t2 c2] by (simp split: if_splits)
  qed
qed

lemma registry_insert:
  assumes "registry_ok es f" "f t = None" "c_id c \<notin> c_id ` set es"
  shows "registry_ok (es @ [c]) (f(t \<mapsto> c))"
proof (rule registry_okI)
  show "distinct (map c_id (es @ [c]))" using registry_okD(3)[OF assms(1)] assms(3) by auto
  show "set (es @ [c]) = ran (f(t \<mapsto> c))" using registry_okD(2)[OF assms(1)] assms(2) by (simp add: ran_map_upd)
  fix t1 t2 c1 c2
  assume f: "(f(t \<mapsto> c)) t1 = Some c1" "(f(t \<mapsto> c)) t2 = Some c2" "c_id c1 = c_id c2"
  have new: "c_id c \<noteq> c_id c'" if "f t' = Some c'" for t' c' using registry_mem[OF assms(1) that] assms(3) by auto
  show "t1 = t2"
    using f registry_okD(1)[OF assms(1), of t1 c1 t2 c2] new[of t1 c1] new[of t2 c2] by (auto split: if_splits)
qed

lemma registry_empty [simp]: "registry_ok [] Map.empty"
  by (simp add: registry_ok_def)

subsection \<open>Runs of a manager\<close>

datatype manager_op = OpStart StartStage | OpCreate string "component result" | OpRemove string

fun manager_step ::
    "string \<Rightarrow> string \<Rightarrow> runner \<Rightarrow> Manager \<Rightarrow> manager_op \<Rightarrow> unit result \<times> Manager" where
  "manager_step kind index run m (OpStart stage) = Manager_Start kind run m stage"
| "manager_step kind index run m (OpCreate tag created) = Manager_Create kind index run created m tag"
| "manager_step kind index run m (OpRemove tag) = Manager_Remove index run m tag"

fun manager_run :: "string \<Rightarrow> string \<Rightarrow> runner \<Rightarrow> manager_op list \<Rightarrow> Manager \<Rightarrow> Manager" where
  "manager_run kind index run [] m = m"
| "manager_run kind index run (op # ops) m = manager_run kind index run ops (snd (manager_step kind index run m op))"

fun op_ids :: "manager_op \<Rightarrow> nat list" where
  "op_ids (OpCreate tag (Inr c)) = [c_id c]"
| "op_ids _ = []"

definition new_ids :: "manager_op list \<Rightarrow> nat list" where
  "new_ids ops = concat (map op_ids ops)"

definition close_ok :: "runner \<Rightarrow> bool" where
  "close_ok run \<longleftrightarrow> (\<forall>tr c. run tr c Close = Inr ())"

text \<open>
  The invariant of a manager whose components can be closed: list and map agree; no component was
  closed twice, and none that is still managed was closed; the objects to be created later (\<open>F\<close>) are
  new; when starting never fails, everything that was called is closed or still managed.
\<close>

definition life_inv :: "runner \<Rightarrow> nat set \<Rightarrow> Manager \<Rightarrow> bool" where
  "life_inv run F m \<longleftrightarrow>
     registry_ok (m_elems m) (map_of (m_byTag m)) \<and> distinct (closed_ids (m_calls m)) \<and>
     (c_id ` set (m_elems m) \<union> called_ids (m_calls m)) \<inter> F = {} \<and>
     set (closed_ids (m_calls m)) \<inter> c_id ` set (m_elems m) = {} \<and>
     (run = run_ok \<longrightarrow> called_ids (m_calls m) \<subseteq> set (closed_ids (m_calls m)) \<union> c_id ` set (m_elems m)) \<and>
     (\<not> m_started m \<longrightarrow> m_calls m = [])"

lemma life_inv_new: "life_inv run F NewManager"
  by (simp add: life_inv_def NewManager_def)

lemma life_inv_start:
  assumes "life_inv run F m"
  shows "life_inv run F (snd (Manager_Start kind run m stage))"
proof (cases "m_started m \<and> m_stage m \<ge> stage")
  case True
  then show ?thesis using assms by (simp add: Manager_Start_def)
next
  case False
  obtain r tr where l: "start_stage_loop run kind stage (m_elems m) (m_calls m) = (r, tr)" by fastforce
  have "snd (Manager_Start kind run m stage) = m\<lparr>m_started := True, m_stage := stage, m_calls := tr\<rparr>"
    using False by (auto simp: Manager_Start_def l)
  then show ?thesis
    using assms start_stage_loop_calls[OF l] by (simp add: life_inv_def) blast
qed

lemma life_inv_dropped:
  assumes "life_inv run F m" "map_of (m_byTag m) tag = Some c"
    and "tr = m_calls m @ [(c_id c, Close)] \<and> m_started m \<or> tr = [] \<and> \<not> m_started m"
  shows "life_inv run F (m\<lparr>m_byTag := AList.delete tag (m_byTag m),
      m_elems := filter (\<lambda>x. c_id x \<noteq> c_id c) (m_elems m), m_calls := tr\<rparr>)"
proof -
  have reg: "registry_ok (m_elems m) (map_of (m_byTag m))" using assms by (simp add: life_inv_def)
  note rem = registry_remove[OF reg assms(2)]
  have c: "c \<in> set (m_elems m)" using registry_mem[OF reg assms(2)] .
  have "c_id c \<notin> set (closed_ids (m_calls m))" "c_id c \<notin> F" using assms c by (auto simp: life_inv_def)
  moreover define E where "E = c_id ` set (filter (\<lambda>x. c_id x \<noteq> c_id c) (m_elems m))"
  moreover have "c_id ` set (m_elems m) = insert (c_id c) E" "c_id c \<notin> E" using c by (auto simp: E_def)
  ultimately show ?thesis
    using assms(1,3) rem(2) unfolding life_inv_def
    by (elim disjE) (simp_all add: delete_conv' E_def[symmetric] del: set_filter, blast+)
qed

lemma life_inv_remove:
  assumes "life_inv run F m" "close_ok run"
  shows "life_inv run F (snd (Manager_Remove kind run m tag))"
    and "fst (Manager_Remove kind run m tag) \<in> {Inr (), Inl EInvalid}"
proof -
  have reg: "registry_ok (m_elems m) (map_of (m_byTag m))" using assms by (simp add: life_inv_def)
  have "life_inv run F (snd (Manager_Remove kind run m tag)) \<and> fst (Manager_Remove kind run m tag) \<in> {Inr (), Inl EInvalid}"
  proof (cases "map_of (m_byTag m) tag")
    case None
    then show ?thesis using assms by (simp add: Manager_Remove_def)
  next
    case (Some c)
    define tr where "tr = (if m_started m then m_calls m @ [(c_id c, Close)] else [])"
    have "m_calls m = []" if "\<not> m_started m" using assms that by (simp add: life_inv_def)
    then have "Manager_Remove kind run m tag = (Inr (), m\<lparr>m_byTag := AList.delete tag (m_byTag m),
        m_elems := filter (\<lambda>x. c_id x \<noteq> c_id c) (m_elems m), m_calls := tr\<rparr>)"
      using Some registry_remove(1)[OF reg Some] assms(2)
      by (simp add: Manager_Remove_def invoke_def close_ok_def tr_def)
    then show ?thesis using life_inv_dropped[OF assms(1) Some, of tr] by (simp add: tr_def)
  qed
  then show "life_inv run F (snd (Manager_Remove kind run m tag))"
    "fst (Manager_Remove kind run m tag) \<in> {Inr (), Inl EInvalid}" by auto
qed

lemma start_all_stages_ok: "fst (start_all_stages run_ok kind c stages tr) = Inr ()"
  by (induction stages arbitrary: tr) simp_all

lemma life_inv_added:
  assumes "life_inv run (insert (c_id c) F) m" "c_id c \<notin> F" "map_of (m_byTag m) tag = None"
    and "closed_ids tr = closed_ids (m_calls m)" "called_ids tr \<subseteq> insert (c_id c) (called_ids (m_calls m))"
    and "m_started m \<or> tr = []"
  shows "life_inv run F (m\<lparr>m_elems := m_elems m @ [c], m_byTag := AList.update tag c (m_byTag m), m_calls := tr\<rparr>)"
proof -
  have reg: "registry_ok (m_elems m) (map_of (m_byTag m))" and new: "c_id c \<notin> c_id ` set (m_elems m)"
    "c_id c \<notin> called_ids (m_calls m)"
    using assms(1) by (auto simp: life_inv_def)
  have "c_id c \<notin> set (closed_ids (m_calls m))" using new(2) closed_subset_called by blast
  then show ?thesis
    using assms registry_insert[OF reg assms(3) new(1)] by (auto simp: life_inv_def update_conv')
qed

lemma Manager_replace_result:
  assumes "registry_ok (m_elems m) (map_of (m_byTag m))" "close_ok run" "\<not> m_started m \<longrightarrow> m_calls m = []"
  shows "Manager_replace kind index run m tag =
    (Inr (), case map_of (m_byTag m) tag of
       None \<Rightarrow> m
     | Some old \<Rightarrow> m\<lparr>m_elems := filter (\<lambda>x. c_id x \<noteq> c_id old) (m_elems m),
                      m_calls := if m_started m then m_calls m @ [(c_id old, Close)] else []\<rparr>)"
  using assms registry_remove(1)[OF assms(1)]
  by (auto simp: Manager_replace_def invoke_def close_ok_def split: option.splits)

lemma delete_update: "map_of (AList.update t c (AList.delete t al)) = map_of (AList.update t c al)"
  by (simp add: update_conv' delete_conv')

lemma life_inv_map_cong:
  "life_inv run F (m\<lparr>m_byTag := a\<rparr>) \<Longrightarrow> map_of a = map_of b \<Longrightarrow> life_inv run F (m\<lparr>m_byTag := b\<rparr>)"
  by (simp add: life_inv_def)

lemma life_inv_create_ok:
  assumes inv: "life_inv run (insert (c_id c) F) m" "c_id c \<notin> F" "close_ok run"
    and tr: "closed_ids tr = closed_ids (m_calls m)" "called_ids tr \<subseteq> insert (c_id c) (called_ids (m_calls m))"
      "\<not> m_started m \<longrightarrow> tr = []"
    and rep: "Manager_replace kind index run (m\<lparr>m_calls := tr\<rparr>) tag = (r, m')"
  shows "r = Inr () \<and> life_inv run F (m'\<lparr>m_elems := m_elems m' @ [c], m_byTag := AList.update tag c (m_byTag m')\<rparr>)"
proof -
  have reg: "registry_ok (m_elems m) (map_of (m_byTag m))" using inv by (simp add: life_inv_def)
  then have res: "r = Inr ()" "m' = (case map_of (m_byTag m) tag of
       None \<Rightarrow> m\<lparr>m_calls := tr\<rparr>
     | Some old \<Rightarrow> m\<lparr>m_elems := filter (\<lambda>x. c_id x \<noteq> c_id old) (m_elems m),
                      m_calls := if m_started m then tr @ [(c_id old, Close)] else []\<rparr>)"
    using Manager_replace_result[of "m\<lparr>m_calls := tr\<rparr>" run kind index tag] inv(3) tr(3) rep
    by (auto split: option.splits)
  show ?thesis
  proof (cases "map_of (m_byTag m) tag")
    case None
    then show ?thesis using life_inv_added[OF inv(1,2) None tr(1,2)] tr(3) res by (auto simp: life_inv_def)
  next
    case (Some old)
    define trd where "trd = (if m_started m then m_calls m @ [(c_id old, Close)] else [])"
    define md where "md = m\<lparr>m_byTag := AList.delete tag (m_byTag m),
      m_elems := filter (\<lambda>x. c_id x \<noteq> c_id old) (m_elems m), m_calls := trd\<rparr>"
    have "life_inv run (insert (c_id c) F) md"
      unfolding md_def by (rule life_inv_dropped[OF inv(1) Some]) (simp add: trd_def)
    then have "life_inv run F (md\<lparr>m_elems := m_elems md @ [c], m_byTag := AList.update tag c (m_byTag md),
        m_calls := if m_started m then tr @ [(c_id old, Close)] else []\<rparr>)"
      by (rule life_inv_added) (use inv(2) tr in \<open>auto simp: md_def trd_def delete_conv'\<close>)
    then show ?thesis
      using res Some by (auto simp: md_def life_inv_def delete_update)
  qed
qed

lemma life_inv_create:
  assumes "life_inv run (insert (c_id c) F) m" "c_id c \<notin> F" "close_ok run"
  shows "life_inv run F (snd (Manager_Create kind index run (Inr c) m tag))"
    and "fst (Manager_Create kind index run (Inr c) m tag) = Inl e \<Longrightarrow> \<exists>msg e'. e = ECause msg e'"
proof -
  obtain r tr where st: "(if m_started m then start_all_stages run kind c ListStartStages (m_calls m)
      else (Inr (), m_calls m)) = (r, tr)" by fastforce
  have tr: "closed_ids tr = closed_ids (m_calls m)" "called_ids tr \<subseteq> insert (c_id c) (called_ids (m_calls m))"
    "\<not> m_started m \<longrightarrow> tr = []"
    using st start_all_stages_calls[of run kind c ListStartStages "m_calls m" r tr] assms(1)
    by (auto simp: life_inv_def split: if_splits)
  obtain r' m' where rep: "Manager_replace kind index run (m\<lparr>m_calls := tr\<rparr>) tag = (r', m')" by fastforce
  note ok = life_inv_create_ok[OF assms tr rep]
  have "life_inv run F (snd (Manager_Create kind index run (Inr c) m tag)) \<and>
      (\<forall>e. fst (Manager_Create kind index run (Inr c) m tag) = Inl e \<longrightarrow> (\<exists>msg e'. e = ECause msg e'))"
  proof (cases r)
    case (Inl e)
    then have "m_started m" "run \<noteq> run_ok" using st start_all_stages_ok[of kind c ListStartStages "m_calls m"]
      by (auto split: if_splits)
    moreover have "\<exists>msg e'. e = ECause msg e'"
    proof -
      have "start_all_stages run kind c stages t = (Inl e, tr) \<Longrightarrow> \<exists>msg e'. e = ECause msg e'" for stages t
        by (induction stages arbitrary: t) (auto split: prod.splits sum.splits)
      then show ?thesis using st Inl \<open>m_started m\<close> by simp
    qed
    ultimately show ?thesis using Inl st tr assms(1,2) by (auto simp: Manager_Create_def life_inv_def)
  next
    case (Inr u)
    then have "Manager_Create kind index run (Inr c) m tag =
        (Inr (), m'\<lparr>m_elems := m_elems m' @ [c], m_byTag := AList.update tag c (m_byTag m')\<rparr>)"
      using st rep ok by (simp add: Manager_Create_def)
    then show ?thesis using ok by simp
  qed
  then show "life_inv run F (snd (Manager_Create kind index run (Inr c) m tag))"
    "fst (Manager_Create kind index run (Inr c) m tag) = Inl e \<Longrightarrow> \<exists>msg e'. e = ECause msg e'" by auto
qed

lemma life_inv_mono: "life_inv run F m \<Longrightarrow> G \<subseteq> F \<Longrightarrow> life_inv run G m"
  unfolding life_inv_def by blast

lemma life_inv_step:
  assumes "life_inv run (set (op_ids op) \<union> F) m" "set (op_ids op) \<inter> F = {}" "close_ok run"
  shows "life_inv run F (snd (manager_step kind index run m op))"
proof (cases op)
  case (OpStart stage)
  then show ?thesis using life_inv_start[of run F m] assms(1) by simp
next
  case (OpRemove tag)
  then show ?thesis using life_inv_remove(1)[of run F m] assms by simp
next
  case (OpCreate tag created)
  show ?thesis
  proof (cases created)
    case (Inl e)
    then show ?thesis using OpCreate assms(1) by (simp add: Manager_Create_def)
  next
    case (Inr c)
    then show ?thesis using OpCreate assms life_inv_create(1)[of run c F m] by simp
  qed
qed

lemma life_inv_run:
  "life_inv run (set (new_ids ops) \<union> F) m \<Longrightarrow> distinct (new_ids ops) \<Longrightarrow> set (new_ids ops) \<inter> F = {} \<Longrightarrow> close_ok run \<Longrightarrow>
     life_inv run F (manager_run kind index run ops m)"
proof (induction ops arbitrary: m)
  case (Cons op ops)
  have "life_inv run (set (op_ids op) \<union> (set (new_ids ops) \<union> F)) m"
    using Cons.prems(1) by (simp add: new_ids_def Un_assoc)
  then have "life_inv run (set (new_ids ops) \<union> F) (snd (manager_step kind index run m op))"
    by (rule life_inv_step) (use Cons.prems in \<open>auto simp: new_ids_def\<close>)
  then show ?case using Cons by (auto simp: new_ids_def)
qed (simp add: new_ids_def)

lemma close_loop_calls: "snd (close_loop run kind cs tr) = tr @ map (\<lambda>c. (c_id c, Close)) cs"
  by (induction cs arbitrary: tr) (simp_all add: invoke_def case_prod_beta)

lemma closed_ids_map [simp]: "closed_ids (map (\<lambda>c. (c_id c, Close)) cs) = map c_id cs"
  by (simp add: closed_ids_def comp_def)

lemma called_ids_map [simp]: "called_ids (map (\<lambda>c. (c_id c, k)) cs) = c_id ` set cs"
  by (force simp: called_ids_def)

lemma life_inv_close:
  assumes "life_inv run F m" "m_started m"
  shows "distinct (closed_ids (m_calls (snd (Manager_Close kind run m))))"
    and "c_id ` set (m_elems m) \<subseteq> set (closed_ids (m_calls (snd (Manager_Close kind run m))))"
    and "run = run_ok \<Longrightarrow>
      called_ids (m_calls (snd (Manager_Close kind run m))) = set (closed_ids (m_calls (snd (Manager_Close kind run m))))"
proof -
  have calls: "m_calls (snd (Manager_Close kind run m)) = m_calls m @ map (\<lambda>c. (c_id c, Close)) (m_elems m)"
    using assms(2) close_loop_calls[of run kind "m_elems m" "m_calls m"] by (auto simp: Manager_Close_def split: prod.splits)
  have "distinct (map c_id (m_elems m))" using assms(1) by (simp add: life_inv_def registry_ok_def)
  then show "distinct (closed_ids (m_calls (snd (Manager_Close kind run m))))"
    using assms(1) by (auto simp: calls life_inv_def)
  show "c_id ` set (m_elems m) \<subseteq> set (closed_ids (m_calls (snd (Manager_Close kind run m))))"
    by (simp add: calls)
  show "called_ids (m_calls (snd (Manager_Close kind run m))) = set (closed_ids (m_calls (snd (Manager_Close kind run m))))"
    if "run = run_ok"
    unfolding calls using assms(1) that closed_subset_called[of "m_calls m"] by (simp add: life_inv_def) blast
qed

subsection \<open>Properties\<close>

definition sample_component :: "nat \<Rightarrow> string \<Rightarrow> string list \<Rightarrow> component" where
  "sample_component i tag deps =
     \<lparr>c_id = i, c_Type = ''direct'', c_Tag = tag, c_Dependencies = deps, c_isLifecycle = True,
      c_hasPreStart = False, c_hasStart = False, c_hasPostStart = False, c_isCloser = True\<rparr>"

definition sample_ops :: "manager_op list" where
  "sample_ops = [OpCreate ''a'' (Inr (sample_component 1 ''a'' [])), OpStart StartStateInitialize,
     OpCreate ''a'' (Inr (sample_component 2 ''a'' [])), OpRemove ''b'']"

lemma sample_ops_ids: "distinct (new_ids sample_ops)"
  by (simp add: sample_ops_def new_ids_def sample_component_def)

lemma close_ok_run_ok: "close_ok run_ok"
  by (simp add: close_ok_def run_ok_def)




lemma sample_ops_started: "m_started (manager_run ''inbound'' ''inbound'' run_ok sample_ops NewManager)"
  by (simp add: sample_ops_def NewManager_def Manager_Create_def Manager_replace_def Manager_Start_def
      Manager_Remove_def ListStartStages_def LegacyStart_def legacy_call_def invoke_def run_ok_def sample_component_def)


text \<open>
  C38: closing clears the list but not the map, so that removing a known tag from a closed manager
  panics.
\<close>

theorem remove_after_close_panics:
  assumes "m_started m" "map_of (m_byTag m) tag = Some c"
  shows "fst (Manager_Remove index run (snd (Manager_Close kind run m)) tag) = Inl (EPanic (''invalid '' @ index @ '' index''))"
  using assms by (simp add: Manager_Remove_def Manager_Close_def split: prod.splits)

theorem remove_after_close_panics_witness:
  "fst (Manager_Remove ''inbound'' run_ok (snd (Manager_Close ''inbound'' run_ok
     (manager_run ''inbound'' ''inbound'' run_ok sample_ops NewManager))) ''a'') = Inl (EPanic ''invalid inbound index'')"
proof -
  have "map_of (m_byTag (manager_run ''inbound'' ''inbound'' run_ok sample_ops NewManager)) ''a'' = Some (sample_component 2 ''a'' [])"
    by (simp add: sample_ops_def NewManager_def Manager_Create_def Manager_replace_def Manager_Start_def
      Manager_Remove_def ListStartStages_def LegacyStart_def legacy_call_def invoke_def run_ok_def sample_component_def)
  from remove_after_close_panics[OF sample_ops_started this, of "''inbound''" run_ok "''inbound''"] show ?thesis by simp
qed

end
