(* ===== verification/DependencyStart.thy ===== *)
theory DependencyStart
  imports Lifecycle
begin

text \<open>
  Starting components in the order of their dependencies: the loop that \<open>Manager.startOutbounds\<close>
  (\<open>adapter/outbound/manager.go\<close>) and \<open>TransportManager.startTransports\<close>
  (\<open>dns/transport_manager.go\<close>) share, with the search for the dependency that cannot be satisfied.
  The Go map \<open>started\<close>, which only receives \<open>true\<close>, is the list of its keys in the order in which
  they are added. The two managers differ in the method they call and in the names of messages,
  which are parameters here.

  Lemmas: the components are started after their dependencies, each once; the loop ends; it starts
  everything exactly when a dependency order exists; otherwise it reports a cycle or a missing
  dependency that is really there.
\<close>

subsection \<open>The loop\<close>

fun start_pass ::
    "runner \<Rightarrow> (component \<Rightarrow> call option) \<Rightarrow> (component \<Rightarrow> string) \<Rightarrow> component list \<Rightarrow> string list \<Rightarrow> bool \<Rightarrow> calls \<Rightarrow>
       unit result \<times> string list \<times> bool \<times> calls" where
  "start_pass run starter name [] started canContinue tr = (Inr (), started, canContinue, tr)"
| "start_pass run starter name (c # cs) started canContinue tr =
     (if c_Tag c \<in> set started then start_pass run starter name cs started canContinue tr
      else if list_ex (\<lambda>dependency. dependency \<notin> set started) (c_Dependencies c)
      then start_pass run starter name cs started canContinue tr
      else case starter c of
        None \<Rightarrow> start_pass run starter name cs (started @ [c_Tag c]) True tr
      | Some k \<Rightarrow>
          (case invoke run c k tr of
             (Inl e, tr') \<Rightarrow> (Inl (ECause (''start '' @ name c) e), started @ [c_Tag c], True, tr')
           | (Inr _, tr') \<Rightarrow> start_pass run starter name cs (started @ [c_Tag c]) True tr'))"

datatype lint_error = Circular "string list" string | NotFound string string

text \<open>\<open>common.Find\<close> returns the zero value when nothing is found.\<close>

definition problem_tag :: "string list \<Rightarrow> component \<Rightarrow> string" where
  "problem_tag started c =
     (case find (\<lambda>it. it \<notin> set started) (c_Dependencies c) of None \<Rightarrow> [] | Some d \<Rightarrow> d)"

function lint :: "(string \<times> component) list \<Rightarrow> string list \<Rightarrow> string list \<Rightarrow> component \<Rightarrow> lint_error" where
  "lint byTag started oTree oCurrent =
     (let p = problem_tag started oCurrent in
      if p \<in> set oTree then Circular oTree p
      else case map_of byTag p of
        None \<Rightarrow> NotFound p (c_Tag oCurrent)
      | Some c \<Rightarrow> lint byTag started (oTree @ [p]) c)"
  by pat_completeness auto

termination
proof (relation "measure (\<lambda>(byTag, started, oTree, c). card (fst ` set byTag - set oTree))")
  fix byTag :: "(string \<times> component) list" and started oTree :: "string list" and oCurrent p c
  assume p: "p = problem_tag started oCurrent" and "p \<notin> set oTree" "map_of byTag p = Some c"
  then have "p \<in> fst ` set byTag - set oTree" by (force dest: map_of_SomeD)
  then have "card (fst ` set byTag - set oTree - {p}) < card (fst ` set byTag - set oTree)"
    by (intro card_Diff1_less) auto
  moreover have "fst ` set byTag - set (oTree @ [p]) = fst ` set byTag - set oTree - {p}" by auto
  ultimately show "((byTag, started, oTree @ [p], c), byTag, started, oTree, oCurrent)
      \<in> measure (\<lambda>(byTag, started, oTree, c). card (fst ` set byTag - set oTree))"
    by simp
qed simp

declare lint.simps [simp del]

definition lint_message :: "string \<Rightarrow> string \<Rightarrow> lint_error \<Rightarrow> error" where
  "lint_message kind kind' e =
     (case e of
        Circular oTree p \<Rightarrow>
          ENew (''circular '' @ kind @ '' dependency: '' @ strings_Join oTree '' -> '' @ '' -> '' @ p)
      | NotFound p tag \<Rightarrow> ENew (''dependency['' @ p @ ''] not found for '' @ kind' @ ''['' @ tag @ '']''))"

subsection \<open>What one pass does\<close>

text \<open>
  The components that a pass starts, in order: the specification of the loop. A sequence is in
  dependency order after the tags \<open>S\<close> when each component's dependencies come before it and no tag
  is started twice.
\<close>

fun ordered :: "string set \<Rightarrow> component list \<Rightarrow> bool" where
  "ordered S [] \<longleftrightarrow> True"
| "ordered S (c # cs) \<longleftrightarrow>
     set (c_Dependencies c) \<subseteq> S \<and> c_Tag c \<notin> S \<and> ordered (insert (c_Tag c) S) cs"

definition start_calls :: "(component \<Rightarrow> call option) \<Rightarrow> component list \<Rightarrow> calls" where
  "start_calls starter cs = concat (map (\<lambda>c. case starter c of None \<Rightarrow> [] | Some k \<Rightarrow> [(c_id c, k)]) cs)"

definition pass_spec ::
    "runner \<Rightarrow> (component \<Rightarrow> call option) \<Rightarrow> component list \<Rightarrow> string list \<Rightarrow> bool \<Rightarrow> calls \<Rightarrow>
       unit result \<times> string list \<times> bool \<times> calls \<Rightarrow> component list \<Rightarrow> bool" where
  "pass_spec run starter cs started cc tr res os \<longleftrightarrow>
     (let (r, started', cc', tr') = res in
      set os \<subseteq> set cs \<and> ordered (set started) os \<and> started' = started @ map c_Tag os \<and>
      (cc' \<longleftrightarrow> cc \<or> os \<noteq> []) \<and> tr' = tr @ start_calls starter os \<and>
      (run = run_ok \<longrightarrow> r = Inr ()) \<and> (\<forall>e. r = Inl e \<longrightarrow> os \<noteq> []) \<and>
      (r = Inr () \<longrightarrow> (\<forall>c\<in>set cs. set (c_Dependencies c) \<subseteq> set started \<longrightarrow> c_Tag c \<in> set started')))"

lemma pass_spec_skip:
  assumes "pass_spec run starter cs started cc tr res os"
    and "c_Tag c \<in> set started \<or> \<not> set (c_Dependencies c) \<subseteq> set started"
  shows "pass_spec run starter (c # cs) started cc tr res os"
  using assms by (auto simp: pass_spec_def split: prod.splits)

lemma pass_spec_start:
  assumes "pass_spec run starter cs (started @ [c_Tag c]) True tr1 res os"
    and "c_Tag c \<notin> set started" "set (c_Dependencies c) \<subseteq> set started" "tr1 = tr @ start_calls starter [c]"
  shows "pass_spec run starter (c # cs) started cc tr res (c # os)"
  using assms by (auto simp: pass_spec_def start_calls_def split: prod.splits)

lemma start_pass_spec: "\<exists>os. pass_spec run starter cs started cc tr (start_pass run starter name cs started cc tr) os"
proof (induction cs arbitrary: started cc tr)
  case Nil
  then show ?case by (intro exI[of _ "[]"]) (simp add: pass_spec_def start_calls_def)
next
  case (Cons c cs)
  let ?skip = "c_Tag c \<in> set started \<or> \<not> set (c_Dependencies c) \<subseteq> set started"
  have ex: "list_ex (\<lambda>d. d \<notin> set started) (c_Dependencies c) \<longleftrightarrow> \<not> set (c_Dependencies c) \<subseteq> set started"
    by (auto simp: list_ex_iff)
  show ?case
  proof (cases ?skip)
    case True
    then have "start_pass run starter name (c # cs) started cc tr = start_pass run starter name cs started cc tr"
      by (auto simp: ex)
    then show ?thesis using Cons.IH[of started cc tr] pass_spec_skip[OF _ True] by metis
  next
    case False
    then have run: "c_Tag c \<notin> set started" "set (c_Dependencies c) \<subseteq> set started" by auto
    show ?thesis
    proof (cases "starter c")
      case None
      then have "start_pass run starter name (c # cs) started cc tr =
          start_pass run starter name cs (started @ [c_Tag c]) True tr"
        using run by (simp add: ex)
      moreover have "tr = tr @ start_calls starter [c]" using None by (simp add: start_calls_def)
      ultimately show ?thesis
        using Cons.IH[of "started @ [c_Tag c]" True tr] pass_spec_start[OF _ run, of run starter cs tr _ _ tr cc] by metis
    next
      case (Some k)
      let ?tr = "tr @ [(c_id c, k)]"
      have tr: "?tr = tr @ start_calls starter [c]" using Some by (simp add: start_calls_def)
      show ?thesis
      proof (cases "run tr c k")
        case (Inl e)
        then show ?thesis
          using run Some tr by (intro exI[of _ "[c]"]) (auto simp: ex pass_spec_def invoke_def run_ok_def)
      next
        case (Inr u)
        then have "start_pass run starter name (c # cs) started cc tr =
            start_pass run starter name cs (started @ [c_Tag c]) True ?tr"
          using run Some by (simp add: ex invoke_def)
        then show ?thesis
          using Cons.IH[of "started @ [c_Tag c]" True ?tr] pass_spec_start[OF _ run tr] by metis
      qed
    qed
  qed
qed

lemma ordered_fresh: "ordered S os \<Longrightarrow> c \<in> set os \<Longrightarrow> c_Tag c \<notin> S"
  by (induction os arbitrary: S) auto

lemma ordered_append: "ordered S (as @ bs) \<longleftrightarrow> ordered S as \<and> ordered (S \<union> c_Tag ` set as) bs"
  by (induction as arbitrary: S) auto

lemma ordered_distinct: "ordered S os \<Longrightarrow> distinct (map c_Tag os)"
  by (induction os arbitrary: S) (auto dest: ordered_fresh)

lemma start_calls_append [simp]: "start_calls starter (as @ bs) = start_calls starter as @ start_calls starter bs"
  by (simp add: start_calls_def)

subsection \<open>The outer loop\<close>

lemma fewer_unstarted:
  assumes "set os \<subseteq> set cs" "os \<noteq> []" "ordered (set started) os"
  shows "length (filter (\<lambda>c. c_Tag c \<notin> set (started @ map c_Tag os)) cs) < length (filter (\<lambda>c. c_Tag c \<notin> set started) cs)"
proof -
  obtain c where c: "c \<in> set os" using assms(2) by (cases os) auto
  have "filter (\<lambda>c. c_Tag c \<notin> set (started @ map c_Tag os)) cs =
      filter (\<lambda>c. c_Tag c \<notin> set (map c_Tag os)) (filter (\<lambda>c. c_Tag c \<notin> set started) cs)"
    by (auto intro: filter_cong)
  moreover have "c \<in> set (filter (\<lambda>c. c_Tag c \<notin> set started) cs)" using c assms ordered_fresh by fastforce
  then have "length (filter (\<lambda>c. c_Tag c \<notin> set (map c_Tag os)) (filter (\<lambda>c. c_Tag c \<notin> set started) cs)) <
      length (filter (\<lambda>c. c_Tag c \<notin> set started) cs)"
    by (rule length_filter_less) (use c in simp)
  ultimately show ?thesis by simp
qed

text \<open>
  The outer loop. It returns the result, the tags in the order in which they were marked started, and
  the calls. \<open>currentOutbound\<close> is nil, and its method call panics, when every tag is marked but
  two components share one.
\<close>

function start_rounds ::
    "runner \<Rightarrow> (component \<Rightarrow> call option) \<Rightarrow> (component \<Rightarrow> string) \<Rightarrow> (lint_error \<Rightarrow> error) \<Rightarrow> (string \<times> component) list \<Rightarrow>
       component list \<Rightarrow> string list \<Rightarrow> calls \<Rightarrow> unit result \<times> string list \<times> calls" where
  "start_rounds run starter name msg byTag cs started tr =
     (let (r, started', canContinue, tr') = start_pass run starter name cs started False tr in
      case r of
        Inl e \<Rightarrow> (Inl e, started', tr')
      | Inr _ \<Rightarrow>
          if length started' = length cs then (Inr (), started', tr')
          else if canContinue then start_rounds run starter name msg byTag cs started' tr'
          else (case find (\<lambda>it. c_Tag it \<notin> set started') cs of
              None \<Rightarrow> (Inl (EPanic ''nil pointer dereference''), started', tr')
            | Some c \<Rightarrow> (Inl (msg (lint byTag started' [c_Tag c] c)), started', tr')))"
  by pat_completeness auto

termination
proof (relation "measure (\<lambda>(run, starter, name, msg, byTag, cs, started, tr). length (filter (\<lambda>c. c_Tag c \<notin> set started) cs))",
    goal_cases)
  case (2 run starter name msg byTag cs started tr x r y started' z cc tr' u)
  obtain os where "pass_spec run starter cs started False tr (r, started', cc, tr') os"
    using start_pass_spec[of run starter cs started False tr name] 2 by auto
  then show ?case
    using fewer_unstarted[of os cs started] 2 by (auto simp: pass_spec_def)
qed simp

declare start_rounds.simps [simp del]

lemma start_rounds_ordered:
  "start_rounds run starter name msg byTag cs started tr = (r, started', tr') \<Longrightarrow>
     \<exists>os. set os \<subseteq> set cs \<and> ordered (set started) os \<and> started' = started @ map c_Tag os \<and>
       tr' = tr @ start_calls starter os \<and> (r = Inr () \<longrightarrow> length started' = length cs)"
proof (induction run starter name msg byTag cs started tr rule: start_rounds.induct)
  case (1 run starter name msg byTag cs started tr)
  obtain r1 st1 cc tr1 where p: "start_pass run starter name cs started False tr = (r1, st1, cc, tr1)"
    by (metis prod_cases4)
  obtain os where os: "set os \<subseteq> set cs" "ordered (set started) os" "st1 = started @ map c_Tag os"
    "tr1 = tr @ start_calls starter os"
    using start_pass_spec[of run starter cs started False tr name] by (auto simp: p pass_spec_def)
  show ?case
  proof (cases "\<exists>u. r1 = Inr u \<and> length st1 \<noteq> length cs \<and> cc")
    case True
    then obtain u where u: "r1 = Inr u" "length st1 \<noteq> length cs" cc by blast
    then have "start_rounds run starter name msg byTag cs st1 tr1 = (r, started', tr')"
      using "1.prems" by (simp add: start_rounds.simps[of run starter name msg byTag cs started tr] p)
    from "1.IH"[OF p[symmetric] refl refl refl u this] obtain os' where os':
      "set os' \<subseteq> set cs" "ordered (set st1) os'" "started' = st1 @ map c_Tag os'"
      "tr' = tr1 @ start_calls starter os'" "r = Inr () \<longrightarrow> length started' = length cs"
      by blast
    show ?thesis
      by (intro exI[of _ "os @ os'"]) (use os os' in \<open>simp add: ordered_append\<close>)
  next
    case False
    then have "started' = st1 \<and> tr' = tr1 \<and> (r = Inr () \<longrightarrow> length st1 = length cs)"
      using "1.prems"
      by (auto simp: start_rounds.simps[of run starter name msg byTag cs started tr] p split: sum.splits if_splits option.splits)
    then show ?thesis using os by blast
  qed
qed

text \<open>What is left when a pass makes no progress: every component that is not started waits for another.\<close>

lemma ordered_all_started:
  "ordered S os \<Longrightarrow> S \<subseteq> T \<Longrightarrow> \<forall>c\<in>set os. set (c_Dependencies c) \<subseteq> T \<longrightarrow> c_Tag c \<in> T \<Longrightarrow> c_Tag ` set os \<subseteq> T"
proof (induction os arbitrary: S)
  case (Cons c os)
  have "c_Tag c \<in> T" using Cons.prems by auto
  then show ?case using Cons.IH[of "insert (c_Tag c) S"] Cons.prems by auto
qed simp

lemma pass_distinct:
  "distinct started \<Longrightarrow> ordered (set started) os \<Longrightarrow> distinct (started @ map c_Tag os)"
  using ordered_distinct ordered_fresh by fastforce

lemma start_rounds_outcome:
  assumes "distinct (map c_Tag cs)" "distinct started" "set started \<subseteq> c_Tag ` set cs"
  shows "case start_rounds run_ok starter name msg byTag cs started tr of (r, started', tr') \<Rightarrow>
    r = Inr () \<or>
    (\<exists>c\<in>set cs. c_Tag c \<notin> set started' \<and> r = Inl (msg (lint byTag started' [c_Tag c] c))) \<and>
      set started' \<subseteq> c_Tag ` set cs \<and>
      (\<forall>c\<in>set cs. set (c_Dependencies c) \<subseteq> set started' \<longrightarrow> c_Tag c \<in> set started')"
  using assms
proof (induction "run_ok :: runner" starter name msg byTag cs started tr rule: start_rounds.induct)
  case (1 starter name msg byTag cs started tr)
  obtain r1 st1 cc tr1 where p: "start_pass run_ok starter name cs started False tr = (r1, st1, cc, tr1)"
    by (metis prod_cases4)
  obtain os where os: "set os \<subseteq> set cs" "ordered (set started) os" "st1 = started @ map c_Tag os" "cc \<longleftrightarrow> os \<noteq> []"
    "r1 = Inr ()" "\<forall>c\<in>set cs. set (c_Dependencies c) \<subseteq> set started \<longrightarrow> c_Tag c \<in> set st1"
    using start_pass_spec[of run_ok starter cs started False tr name] by (auto simp: p pass_spec_def)
  have st1: "distinct st1" "set st1 \<subseteq> c_Tag ` set cs"
    using os "1.prems" pass_distinct[of started os] by auto
  note unfold = start_rounds.simps[of run_ok starter name msg byTag cs started tr]
  show ?case
  proof (cases "length st1 = length cs")
    case True
    then show ?thesis by (simp add: unfold p os(5))
  next
    case len: False
    show ?thesis
    proof (cases cc)
      case True
      then show ?thesis
        using "1.hyps"[OF p[symmetric] refl refl refl os(5) len True "1.prems"(1) st1] by (simp add: unfold p os(5) len)
    next
      case False
      have "\<exists>c\<in>set cs. c_Tag c \<notin> set st1"
      proof (rule ccontr)
        assume "\<not> ?thesis"
        then have "set st1 = set (map c_Tag cs)" using st1(2) by auto
        then show False using len st1(1) "1.prems"(1) by (metis distinct_card length_map)
      qed
      then obtain c where c: "find (\<lambda>it. c_Tag it \<notin> set st1) cs = Some c"
        by (cases "find (\<lambda>it. c_Tag it \<notin> set st1) cs") (auto simp: find_None_iff)
      then have "c \<in> set cs" "c_Tag c \<notin> set st1" by (auto simp: find_Some_iff)
      then show ?thesis
        using False len c os st1 by (auto simp: unfold p)
    qed
  qed
qed

lemma start_rounds_complete_iff:
  assumes "distinct (map c_Tag cs)"
  shows "fst (start_rounds run_ok starter name msg byTag cs [] tr) = Inr () \<longleftrightarrow> (\<exists>os. set os = set cs \<and> ordered {} os)"
proof -
  obtain r st tr' where s: "start_rounds run_ok starter name msg byTag cs [] tr = (r, st, tr')" by (metis prod_cases3)
  show ?thesis
  proof
    assume "fst (start_rounds run_ok starter name msg byTag cs [] tr) = Inr ()"
    then obtain os where os: "set os \<subseteq> set cs" "ordered {} os" "length os = length cs"
      using start_rounds_ordered[OF s] by (auto simp: s)
    have "card (set os) = length cs" using ordered_distinct[OF os(2)] os(3) by (simp add: distinct_card distinct_map)
    then have "set os = set cs" using os(1) by (metis List.finite_set card_length card_seteq)
    then show "\<exists>os. set os = set cs \<and> ordered {} os" using os(2) by blast
  next
    assume "\<exists>os. set os = set cs \<and> ordered {} os"
    then obtain os where os: "set os = set cs" "ordered {} os" by blast
    show "fst (start_rounds run_ok starter name msg byTag cs [] tr) = Inr ()"
      using start_rounds_outcome[OF assms, where started = "[]" and starter = starter and name = name and msg = msg and byTag = byTag and tr = tr] ordered_all_started[OF os(2), of "set st"] os(1)
      by (auto simp: s)
  qed
qed

subsection \<open>The report of an unsatisfiable dependency\<close>

text \<open>\<open>chain byTag c ts p\<close>: from \<open>c\<close> the dependencies lead through the tags \<open>ts\<close> to \<open>p\<close>.\<close>

fun chain :: "(string \<times> component) list \<Rightarrow> component \<Rightarrow> string list \<Rightarrow> string \<Rightarrow> bool" where
  "chain byTag c [] p \<longleftrightarrow> p \<in> set (c_Dependencies c)"
| "chain byTag c (t # ts) p \<longleftrightarrow>
     t \<in> set (c_Dependencies c) \<and> (\<exists>c'. map_of byTag t = Some c' \<and> chain byTag c' ts p)"

lemma problem_tag_spec:
  "\<not> set (c_Dependencies c) \<subseteq> set started \<Longrightarrow>
     problem_tag started c \<in> set (c_Dependencies c) \<and> problem_tag started c \<notin> set started"
  by (auto simp: problem_tag_def find_None_iff find_Some_iff split: option.splits)

lemma lint_spec:
  assumes "\<forall>t c. map_of byTag t = Some c \<longrightarrow> t \<notin> set started \<longrightarrow> \<not> set (c_Dependencies c) \<subseteq> set started"
    and "\<not> set (c_Dependencies cur) \<subseteq> set started"
  shows "case lint byTag started oTree cur of
      Circular tree p \<Rightarrow> \<exists>ts. tree = oTree @ ts \<and> chain byTag cur ts p \<and> p \<in> set tree
    | NotFound p tag \<Rightarrow> map_of byTag p = None \<and> p \<notin> set started \<and>
        (\<exists>c'. (c' = cur \<or> c' \<in> ran (map_of byTag)) \<and> c_Tag c' = tag \<and> p \<in> set (c_Dependencies c'))"
  using assms
proof (induction byTag started oTree cur rule: lint.induct)
  case (1 byTag started oTree cur)
  let ?p = "problem_tag started cur"
  have p: "?p \<in> set (c_Dependencies cur)" "?p \<notin> set started" using problem_tag_spec[OF "1.prems"(2)] by auto
  note unfold = lint.simps[of byTag started oTree cur]
  show ?case
  proof (cases "?p \<in> set oTree")
    case True
    then show ?thesis using p by (simp add: unfold)
  next
    case nt: False
    show ?thesis
    proof (cases "map_of byTag ?p")
      case None
      then show ?thesis using p nt by (auto simp: unfold)
    next
      case (Some c)
      have u: "lint byTag started oTree cur = lint byTag started (oTree @ [?p]) c" using nt Some by (simp add: unfold)
      have "\<not> set (c_Dependencies c) \<subseteq> set started" using "1.prems"(1) Some p(2) by blast
      note IH = "1.IH"[OF refl nt Some "1.prems"(1) this]
      show ?thesis
      proof (cases "lint byTag started (oTree @ [?p]) c")
        case (Circular tree q)
        then obtain ts where "tree = oTree @ ?p # ts" "chain byTag c ts q" "q \<in> set tree" using IH by auto
        then show ?thesis using p Some by (auto simp: u Circular)
      next
        case (NotFound q tag)
        then show ?thesis using IH Some by (auto simp: u ran_def)
      qed
    qed
  qed
qed

lemma start_rounds_error:
  assumes "distinct (map c_Tag cs)"
    and byTag: "\<forall>t c. map_of byTag t = Some c \<longrightarrow> c \<in> set cs \<and> c_Tag c = t"
    and "fst (start_rounds run_ok starter name msg byTag cs [] tr) = Inl e"
  shows "(\<exists>c ts p. e = msg (Circular (c_Tag c # ts) p) \<and> c \<in> set cs \<and> chain byTag c ts p \<and> p \<in> set (c_Tag c # ts)) \<or>
         (\<exists>c p. e = msg (NotFound p (c_Tag c)) \<and> c \<in> set cs \<and> p \<in> set (c_Dependencies c) \<and> map_of byTag p = None)"
proof -
  obtain r st tr' where s: "start_rounds run_ok starter name msg byTag cs [] tr = (r, st, tr')" by (metis prod_cases3)
  then have r: "r = Inl e" using assms(3) by simp
  obtain c where c: "c \<in> set cs" "c_Tag c \<notin> set st" "e = msg (lint byTag st [c_Tag c] c)"
    and stuck: "\<forall>c\<in>set cs. set (c_Dependencies c) \<subseteq> set st \<longrightarrow> c_Tag c \<in> set st"
    using start_rounds_outcome[OF assms(1), where started = "[]" and starter = starter and name = name and msg = msg and byTag = byTag and tr = tr] by (auto simp: s r)
  have "\<forall>t c. map_of byTag t = Some c \<longrightarrow> t \<notin> set st \<longrightarrow> \<not> set (c_Dependencies c) \<subseteq> set st"
    using byTag stuck by blast
  moreover have "\<not> set (c_Dependencies c) \<subseteq> set st" using c stuck by blast
  ultimately have l: "case lint byTag st [c_Tag c] c of
      Circular tree p \<Rightarrow> \<exists>ts. tree = [c_Tag c] @ ts \<and> chain byTag c ts p \<and> p \<in> set tree
    | NotFound p tag \<Rightarrow> map_of byTag p = None \<and> p \<notin> set st \<and>
        (\<exists>c'. (c' = c \<or> c' \<in> ran (map_of byTag)) \<and> c_Tag c' = tag \<and> p \<in> set (c_Dependencies c'))"
    by (rule lint_spec)
  show ?thesis
  proof (cases "lint byTag st [c_Tag c] c")
    case (Circular tree p)
    then show ?thesis using l c by auto
  next
    case (NotFound p tag)
    then obtain c' where "c' = c \<or> c' \<in> ran (map_of byTag)" "c_Tag c' = tag" "p \<in> set (c_Dependencies c')" "map_of byTag p = None"
      using l by auto
    moreover from this(1) have "c' \<in> set cs" using c(1) byTag by (auto simp: ran_def)
    ultimately show ?thesis using c(3) NotFound by auto
  qed
qed

end
