(* ===== verification/OutboundManager.thy ===== *)
theory OutboundManager
  imports ComponentManagers DependencyStart
begin

text \<open>
  The outbound manager (\<open>adapter/outbound/manager.go\<close>). Its state adds to that of the other managers
  the default outbound and, per tag, the tags of the outbounds that depend on it; a Go map from tags
  to lists in which a missing key reads as the empty list is a function here. Endpoints act as
  outbounds too: the endpoint manager is given by its list and its lookup function. The logger and
  the task monitor have no effect on the state.

  Lemmas: starting goes through the dependencies in order and succeeds exactly when a dependency
  order exists; the recorded dependents always include the real ones; the default outbound after
  start; and the behaviour of \<open>Remove\<close> and \<open>Create\<close> on outbounds that others depend on or that are
  the default.
\<close>

subsection \<open>State and operations\<close>

record OutboundManager =
  om_defaultTag :: string
  om_started :: bool
  om_stage :: StartStage
  om_outbounds :: "component list"
  om_outboundByTag :: "(string \<times> component) list"
  om_dependByTag :: "string \<Rightarrow> string list"
  om_defaultOutbound :: "component option"
  om_calls :: calls

definition NewOutboundManager :: "string \<Rightarrow> OutboundManager" where
  "NewOutboundManager defaultTag =
     \<lparr>om_defaultTag = defaultTag, om_started = False, om_stage = StartStateInitialize, om_outbounds = [],
      om_outboundByTag = [], om_dependByTag = (\<lambda>_. []), om_defaultOutbound = None, om_calls = []\<rparr>"

definition outbound_starter :: "component \<Rightarrow> call option" where
  "outbound_starter c =
     (if c_isLifecycle c then Some (LifecycleStart StartStateStart)
      else if c_hasStart c then Some SimpleStart else None)"

definition startOutbounds ::
    "runner \<Rightarrow> (string \<times> component) list \<Rightarrow> component list \<Rightarrow> calls \<Rightarrow> unit result \<times> calls" where
  "startOutbounds run outboundByTag outbounds calls =
     (let (r, started, calls') =
            start_rounds run outbound_starter (component_name ''outbound'') (lint_message ''outbound'' ''outbound'')
              outboundByTag outbounds [] calls
      in (r, calls'))"

text \<open>The default outbound, chosen in the stage \<open>initialize\<close>.\<close>

definition initialize_default ::
    "(string \<Rightarrow> component option) \<Rightarrow> component result \<Rightarrow> OutboundManager \<Rightarrow> unit result \<times> OutboundManager" where
  "initialize_default endpoint_Get fallback m =
     (case (if om_defaultTag m \<noteq> [] \<and> om_defaultOutbound m = None
            then (case endpoint_Get (om_defaultTag m) of
                    None \<Rightarrow> Inl (ENew (''default outbound not found: '' @ om_defaultTag m))
                  | Some c \<Rightarrow> Inr (m\<lparr>om_defaultOutbound := Some c\<rparr>))
            else Inr m) of
        Inl e \<Rightarrow> (Inl e, m)
      | Inr m \<Rightarrow>
          if om_defaultOutbound m = None then
            (case fallback of
               Inl e \<Rightarrow> (Inl (ECause ''create direct outbound for fallback'' e), m)
             | Inr c \<Rightarrow>
                 (Inr (), m\<lparr>om_outbounds := om_outbounds m @ [c],
                            om_outboundByTag := AList.update (c_Tag c) c (om_outboundByTag m),
                            om_defaultOutbound := Some c\<rparr>))
          else (Inr (), m))"

definition OutboundManager_Start ::
    "runner \<Rightarrow> (string \<Rightarrow> component option) \<Rightarrow> component list \<Rightarrow> component result \<Rightarrow> OutboundManager \<Rightarrow> StartStage \<Rightarrow>
       unit result \<times> OutboundManager" where
  "OutboundManager_Start run endpoint_Get endpoints fallback m stage =
     (if om_started m \<and> om_stage m \<ge> stage then (Inl (EPanic ''already started''), m)
      else
        let m = m\<lparr>om_started := True, om_stage := stage\<rparr> in
        case (if stage = StartStateInitialize then initialize_default endpoint_Get fallback m else (Inr (), m)) of
          (Inl e, m) \<Rightarrow> (Inl e, m)
        | (Inr _, m) \<Rightarrow>
            let (r, calls) =
                  (if stage = StartStateStart
                   then startOutbounds run (om_outboundByTag m) (om_outbounds m @ endpoints) (om_calls m)
                   else start_stage_loop run ''outbound'' stage (om_outbounds m) (om_calls m))
            in (r, m\<lparr>om_calls := calls\<rparr>))"

text \<open>\<open>Close\<close> closes the outbounds that can be closed; the errors are collected but not returned.\<close>

definition OutboundManager_Close :: "runner \<Rightarrow> OutboundManager \<Rightarrow> unit result \<times> OutboundManager" where
  "OutboundManager_Close run m =
     (if \<not> om_started m then (Inr (), m)
      else
        let (errs, calls) = close_loop run ''outbound'' (filter c_isCloser (om_outbounds m)) (om_calls m)
        in (Inr (), m\<lparr>om_started := False, om_outbounds := [], om_calls := calls\<rparr>))"

definition OutboundManager_Outbound :: "(string \<Rightarrow> component option) \<Rightarrow> OutboundManager \<Rightarrow> string \<Rightarrow> component option" where
  "OutboundManager_Outbound endpoint_Get m tag =
     (case map_of (om_outboundByTag m) tag of Some c \<Rightarrow> Some c | None \<Rightarrow> endpoint_Get tag)"

definition same_object :: "component option \<Rightarrow> component \<Rightarrow> bool" where
  "same_object d c = (case d of None \<Rightarrow> False | Some x \<Rightarrow> c_id x = c_id c)"

text \<open>The loop over the dependencies of a removed outbound.\<close>

definition drop_dependents :: "string \<Rightarrow> string list \<Rightarrow> (string \<Rightarrow> string list) \<Rightarrow> string \<Rightarrow> string list" where
  "drop_dependents tag dependencies dependBy =
     fold (\<lambda>dependency m.
             if length (m dependency) = 1 then m(dependency := [])
             else m(dependency := filter (\<lambda>it. it \<noteq> tag) (m dependency))) dependencies dependBy"

definition OutboundManager_Remove :: "runner \<Rightarrow> OutboundManager \<Rightarrow> string \<Rightarrow> unit result \<times> OutboundManager" where
  "OutboundManager_Remove run m tag =
     (case map_of (om_outboundByTag m) tag of
        None \<Rightarrow> (Inl EInvalid, m)
      | Some c \<Rightarrow>
          let m = m\<lparr>om_outboundByTag := AList.delete tag (om_outboundByTag m)\<rparr> in
          case remove_object c (om_outbounds m) of
            None \<Rightarrow> (Inl (EPanic ''invalid inbound index''), m)
          | Some outbounds \<Rightarrow>
              let m = m\<lparr>om_outbounds := outbounds\<rparr>;
                  m = (if same_object (om_defaultOutbound m) c
                       then m\<lparr>om_defaultOutbound := (case outbounds of [] \<Rightarrow> None | x # _ \<Rightarrow> Some x)\<rparr> else m);
                  dependBy = om_dependByTag m tag
              in if length dependBy > 0
                 then (Inl (ENew (''outbound['' @ tag @ ''] is depended by '' @ strings_Join dependBy '', '')), m)
                 else
                   let m = m\<lparr>om_dependByTag := drop_dependents tag (c_Dependencies c) (om_dependByTag m)\<rparr>
                   in if om_started m
                      then let (r, calls) = common_Close run c (om_calls m) in (r, m\<lparr>om_calls := calls\<rparr>)
                      else (Inr (), m))"

definition add_dependents :: "string \<Rightarrow> string list \<Rightarrow> (string \<Rightarrow> string list) \<Rightarrow> string \<Rightarrow> string list" where
  "add_dependents tag dependencies dependBy =
     fold (\<lambda>dependency m. m(dependency := m dependency @ [tag])) dependencies dependBy"

definition replace_outbound :: "runner \<Rightarrow> OutboundManager \<Rightarrow> string \<Rightarrow> unit result \<times> OutboundManager" where
  "replace_outbound run m tag =
     (case map_of (om_outboundByTag m) tag of
        None \<Rightarrow> (Inr (), m)
      | Some old \<Rightarrow>
          let (r, calls) = (if om_started m then common_Close run old (om_calls m) else (Inr (), om_calls m));
              m = m\<lparr>om_calls := calls\<rparr>
          in case r of
               Inl e \<Rightarrow> (Inl (ECause (''close '' @ component_name ''outbound'' old) e), m)
             | Inr _ \<Rightarrow>
                 (case remove_object old (om_outbounds m) of
                    None \<Rightarrow> (Inl (EPanic ''invalid inbound index''), m)
                  | Some outbounds \<Rightarrow> (Inr (), m\<lparr>om_outbounds := outbounds\<rparr>)))"

definition OutboundManager_Create ::
    "runner \<Rightarrow> component result \<Rightarrow> OutboundManager \<Rightarrow> string \<Rightarrow> unit result \<times> OutboundManager" where
  "OutboundManager_Create run created m tag =
     (if tag = [] then (Inl EInvalid, m)
      else case created of
        Inl e \<Rightarrow> (Inl e, m)
      | Inr c \<Rightarrow>
          let (r, calls) = (if om_started m then start_all_stages run ''outbound'' c ListStartStages (om_calls m)
                            else (Inr (), om_calls m));
              m = m\<lparr>om_calls := calls\<rparr>
          in case r of
               Inl e \<Rightarrow> (Inl e, m)
             | Inr _ \<Rightarrow>
                 (case replace_outbound run m tag of
                    (Inl e, m) \<Rightarrow> (Inl e, m)
                  | (Inr _, m) \<Rightarrow>
                      let m = m\<lparr>om_outbounds := om_outbounds m @ [c],
                                om_outboundByTag := AList.update tag c (om_outboundByTag m),
                                om_dependByTag := add_dependents tag (c_Dependencies c) (om_dependByTag m)\<rparr>
                      in (Inr (), if tag = om_defaultTag m \<or> (om_defaultTag m = [] \<and> om_defaultOutbound m = None)
                                  then m\<lparr>om_defaultOutbound := Some c\<rparr> else m)))"

subsection \<open>Dependents\<close>

text \<open>
  The recorded dependents of an outbound include every outbound that depends on it. This is what the
  check in \<open>Remove\<close> relies on.
\<close>

definition dependents_recorded :: "component list \<Rightarrow> (string \<Rightarrow> string list) \<Rightarrow> bool" where
  "dependents_recorded outbounds dependBy \<longleftrightarrow>
     (\<forall>c\<in>set outbounds. \<forall>d\<in>set (c_Dependencies c). c_Tag c \<in> set (dependBy d))"

lemma add_dependents_set: "set (add_dependents tag ds m d) = set (m d) \<union> (if d \<in> set ds then {tag} else {})"
  unfolding add_dependents_def by (induction ds arbitrary: m) auto

lemma drop_dependents_other: "d \<notin> set ds \<Longrightarrow> drop_dependents tag ds m d = m d"
  unfolding drop_dependents_def by (induction ds arbitrary: m) auto

lemma drop_dependents_Cons:
  "drop_dependents tag (d # ds) m =
     drop_dependents tag ds (if length (m d) = 1 then m(d := []) else m(d := filter (\<lambda>it. it \<noteq> tag) (m d)))"
  by (simp add: drop_dependents_def)

lemma drop_dependents_keeps:
  assumes "distinct ds" "\<forall>d\<in>set ds. tag \<in> set (m d)" "x \<in> set (m d)" "x \<noteq> tag"
  shows "x \<in> set (drop_dependents tag ds m d)"
  using assms
proof (induction ds arbitrary: m)
  case Nil
  then show ?case by (simp add: drop_dependents_def)
next
  case (Cons e ds)
  let ?m = "if length (m e) = 1 then m(e := []) else m(e := filter (\<lambda>it. it \<noteq> tag) (m e))"
  have e: "e \<notin> set ds" and "distinct ds" using Cons.prems(1) by auto
  have "\<forall>d\<in>set ds. tag \<in> set (?m d)" using Cons.prems(2) e by (auto split: if_splits)
  moreover have "x \<in> set (?m d)"
  proof (cases "d = e")
    case True
    have "\<not> length (m e) = 1"
    proof
      assume "length (m e) = 1"
      then obtain y where "m e = [y]" by (auto simp: length_Suc_conv)
      then show False using Cons.prems(2-4) True by auto
    qed
    then show ?thesis using Cons.prems(3,4) True by simp
  qed (use Cons.prems(3) in simp)
  ultimately show ?case
    using Cons.IH[OF \<open>distinct ds\<close>, of ?m] Cons.prems(4) by (simp add: drop_dependents_Cons)
qed

subsection \<open>Runs of the outbound manager\<close>

datatype outbound_op = OutboundCreate string "component result" | OutboundRemove string

fun outbound_step :: "runner \<Rightarrow> OutboundManager \<Rightarrow> outbound_op \<Rightarrow> unit result \<times> OutboundManager" where
  "outbound_step run m (OutboundCreate tag created) = OutboundManager_Create run created m tag"
| "outbound_step run m (OutboundRemove tag) = OutboundManager_Remove run m tag"

text \<open>
  What a registry's constructor promises about a new outbound, given the objects that exist: it is a
  new object that carries the tag, and it names each dependency once.
\<close>

definition good_create :: "OutboundManager \<Rightarrow> outbound_op \<Rightarrow> bool" where
  "good_create m op =
     (case op of
        OutboundCreate tag (Inr c) \<Rightarrow>
          c_Tag c = tag \<and> distinct (c_Dependencies c) \<and> c_id c \<notin> c_id ` set (om_outbounds m)
      | _ \<Rightarrow> True)"

inductive outbound_reachable :: "runner \<Rightarrow> OutboundManager \<Rightarrow> OutboundManager \<Rightarrow> bool" for run m0 where
  outbound_start: "outbound_reachable run m0 m0"
| outbound_next: "outbound_reachable run m0 m \<Longrightarrow> good_create m op \<Longrightarrow>
     outbound_reachable run m0 (snd (outbound_step run m op))"

definition outbound_inv :: "OutboundManager \<Rightarrow> bool" where
  "outbound_inv m \<longleftrightarrow>
     registry_ok (om_outbounds m) (map_of (om_outboundByTag m)) \<and>
     (\<forall>t c. map_of (om_outboundByTag m) t = Some c \<longrightarrow> c_Tag c = t \<and> distinct (c_Dependencies c)) \<and>
     dependents_recorded (om_outbounds m) (om_dependByTag m)"

lemma outbound_invD:
  assumes "outbound_inv m"
  shows "registry_ok (om_outbounds m) (map_of (om_outboundByTag m))"
    and "map_of (om_outboundByTag m) t = Some c \<Longrightarrow> c_Tag c = t"
    and "map_of (om_outboundByTag m) t = Some c \<Longrightarrow> distinct (c_Dependencies c)"
    and "dependents_recorded (om_outbounds m) (om_dependByTag m)"
    and "c \<in> set (om_outbounds m) \<Longrightarrow> map_of (om_outboundByTag m) (c_Tag c) = Some c"
proof -
  show reg: "registry_ok (om_outbounds m) (map_of (om_outboundByTag m))" using assms by (simp add: outbound_inv_def)
  show "map_of (om_outboundByTag m) t = Some c \<Longrightarrow> c_Tag c = t"
    "map_of (om_outboundByTag m) t = Some c \<Longrightarrow> distinct (c_Dependencies c)"
    "dependents_recorded (om_outbounds m) (om_dependByTag m)"
    using assms unfolding outbound_inv_def by blast+
  show "map_of (om_outboundByTag m) (c_Tag c) = Some c" if "c \<in> set (om_outbounds m)"
  proof -
    have "c \<in> ran (map_of (om_outboundByTag m))" using that registry_okD(2)[OF reg] by simp
    then obtain t where "map_of (om_outboundByTag m) t = Some c" by (auto simp: ran_def)
    moreover from this have "c_Tag c = t" using assms unfolding outbound_inv_def by blast
    ultimately show ?thesis by simp
  qed
qed

lemma outbound_inv_cong:
  "outbound_inv m \<Longrightarrow> om_outbounds m' = om_outbounds m \<Longrightarrow> map_of (om_outboundByTag m') = map_of (om_outboundByTag m) \<Longrightarrow>
     om_dependByTag m' = om_dependByTag m \<Longrightarrow> outbound_inv m'"
  by (simp add: outbound_inv_def)

lemma dependents_recorded_subset:
  "dependents_recorded es f \<Longrightarrow> set es' \<subseteq> set es \<Longrightarrow> dependents_recorded es' f"
  unfolding dependents_recorded_def by blast

lemma outbound_inv_dropped:
  assumes "outbound_inv m" "map_of (om_outboundByTag m) tag = Some c"
  shows "outbound_inv (m\<lparr>om_outbounds := filter (\<lambda>x. c_id x \<noteq> c_id c) (om_outbounds m),
      om_outboundByTag := AList.delete tag (om_outboundByTag m)\<rparr>)"
proof -
  note rem = registry_remove[OF outbound_invD(1)[OF assms(1)] assms(2)]
  have "dependents_recorded (filter (\<lambda>x. c_id x \<noteq> c_id c) (om_outbounds m)) (om_dependByTag m)"
    by (rule dependents_recorded_subset[OF outbound_invD(4)[OF assms(1)]]) simp
  then show ?thesis
    using rem(2) outbound_invD(2,3)[OF assms(1)] by (auto simp: outbound_inv_def delete_conv' split: if_splits)
qed

lemma outbound_inv_drop_dependents:
  assumes "outbound_inv m" "map_of (om_outboundByTag m) tag = Some c"
  shows "outbound_inv (m\<lparr>om_outbounds := filter (\<lambda>x. c_id x \<noteq> c_id c) (om_outbounds m),
      om_outboundByTag := AList.delete tag (om_outboundByTag m),
      om_dependByTag := drop_dependents tag (c_Dependencies c) (om_dependByTag m)\<rparr>)"
proof -
  have tag: "c_Tag c = tag" and dist: "distinct (c_Dependencies c)" using outbound_invD(2,3)[OF assms(1,2)] .
  have c: "c \<in> set (om_outbounds m)" using registry_mem[OF outbound_invD(1)[OF assms(1)] assms(2)] .
  have rec: "\<forall>d\<in>set (c_Dependencies c). tag \<in> set (om_dependByTag m d)"
    using outbound_invD(4)[OF assms(1)] c tag by (auto simp: dependents_recorded_def)
  have "dependents_recorded (filter (\<lambda>x. c_id x \<noteq> c_id c) (om_outbounds m)) (drop_dependents tag (c_Dependencies c) (om_dependByTag m))"
    unfolding dependents_recorded_def
  proof (intro ballI)
    fix x d
    assume x: "x \<in> set (filter (\<lambda>x. c_id x \<noteq> c_id c) (om_outbounds m))" "d \<in> set (c_Dependencies x)"
    have "c_Tag x \<noteq> tag"
    proof
      assume "c_Tag x = tag"
      then have "map_of (om_outboundByTag m) tag = Some x" using outbound_invD(5)[OF assms(1), of x] x(1) by simp
      then show False using assms(2) x(1) by simp
    qed
    moreover have "c_Tag x \<in> set (om_dependByTag m d)"
      using outbound_invD(4)[OF assms(1)] x by (auto simp: dependents_recorded_def)
    ultimately show "c_Tag x \<in> set (drop_dependents tag (c_Dependencies c) (om_dependByTag m) d)"
      using drop_dependents_keeps[OF dist rec] by blast
  qed
  then show ?thesis
    using outbound_inv_dropped[OF assms] by (simp add: outbound_inv_def)
qed

lemma outbound_inv_Remove:
  assumes "outbound_inv m"
  shows "outbound_inv (snd (OutboundManager_Remove run m tag))"
proof (cases "map_of (om_outboundByTag m) tag")
  case None
  then show ?thesis using assms by (simp add: OutboundManager_Remove_def)
next
  case (Some c)
  have rem: "remove_object c (om_outbounds m) = Some (filter (\<lambda>x. c_id x \<noteq> c_id c) (om_outbounds m))"
    using registry_remove(1)[OF outbound_invD(1)[OF assms] Some] .
  show ?thesis
  proof (cases "om_dependByTag m tag = []")
    case True
    show ?thesis
      by (rule outbound_inv_cong[OF outbound_inv_drop_dependents[OF assms Some]])
        (simp_all add: OutboundManager_Remove_def Some rem True Let_def split: prod.splits)
  next
    case False
    show ?thesis
      by (rule outbound_inv_cong[OF outbound_inv_dropped[OF assms Some]])
        (simp_all add: OutboundManager_Remove_def Some rem False Let_def)
  qed
qed

lemma outbound_inv_added:
  assumes "outbound_inv m" "map_of (om_outboundByTag m) tag = None"
    and "c_Tag c = tag" "distinct (c_Dependencies c)" "c_id c \<notin> c_id ` set (om_outbounds m)"
  shows "outbound_inv (m\<lparr>om_outbounds := om_outbounds m @ [c],
      om_outboundByTag := AList.update tag c (om_outboundByTag m),
      om_dependByTag := add_dependents tag (c_Dependencies c) (om_dependByTag m)\<rparr>)"
proof -
  have "dependents_recorded (om_outbounds m @ [c]) (add_dependents tag (c_Dependencies c) (om_dependByTag m))"
    using outbound_invD(4)[OF assms(1)] assms(3) by (auto simp: dependents_recorded_def add_dependents_set)
  then show ?thesis
    using registry_insert[OF outbound_invD(1)[OF assms(1)] assms(2,5)] outbound_invD(2,3)[OF assms(1)] assms(3,4)
    by (auto simp: outbound_inv_def update_conv' split: if_splits)
qed

text \<open>What \<open>replace_outbound\<close> leaves behind when it succeeds.\<close>

lemma replace_outbound_Inr:
  assumes "registry_ok (om_outbounds m) (map_of (om_outboundByTag m))" "replace_outbound run m tag = (Inr u, m')"
  shows "case map_of (om_outboundByTag m) tag of
      None \<Rightarrow> m' = m
    | Some old \<Rightarrow> \<exists>calls. m' = m\<lparr>om_calls := calls, om_outbounds := filter (\<lambda>x. c_id x \<noteq> c_id old) (om_outbounds m)\<rparr>"
proof (cases "map_of (om_outboundByTag m) tag")
  case None
  then show ?thesis using assms(2) by (simp add: replace_outbound_def)
next
  case (Some old)
  note rem = registry_remove(1)[OF assms(1) Some]
  show ?thesis
    using assms(2) Some rem by (auto simp: replace_outbound_def Let_def split: prod.splits sum.splits)
qed

lemma replace_outbound_Inl:
  assumes "registry_ok (om_outbounds m) (map_of (om_outboundByTag m))" "replace_outbound run m tag = (Inl e, m')"
  shows "\<exists>calls. m' = m\<lparr>om_calls := calls\<rparr>"
proof (cases "map_of (om_outboundByTag m) tag")
  case None
  then show ?thesis using assms(2) by (simp add: replace_outbound_def)
next
  case (Some old)
  note rem = registry_remove(1)[OF assms(1) Some]
  show ?thesis
    using assms(2) Some rem by (auto simp: replace_outbound_def Let_def split: prod.splits sum.splits)
qed

lemma outbound_inv_Create:
  assumes "outbound_inv m" "good_create m (OutboundCreate tag (Inr c))"
  shows "outbound_inv (snd (OutboundManager_Create run (Inr c) m tag))"
proof -
  have c: "c_Tag c = tag" "distinct (c_Dependencies c)" "c_id c \<notin> c_id ` set (om_outbounds m)"
    using assms(2) by (simp_all add: good_create_def)
  obtain r calls where st: "(if om_started m then start_all_stages run ''outbound'' c ListStartStages (om_calls m)
      else (Inr (), om_calls m)) = (r, calls)" by fastforce
  let ?m = "m\<lparr>om_calls := calls\<rparr>"
  have inv: "outbound_inv ?m" by (rule outbound_inv_cong[OF assms(1)]) simp_all
  obtain r' m' where rep: "replace_outbound run ?m tag = (r', m')" by fastforce
  show ?thesis
  proof (cases "tag = [] \<or> (\<exists>e. r = Inl e)")
    case True
    then show ?thesis using assms(1) inv st by (auto simp: OutboundManager_Create_def)
  next
    case False
    then obtain u where r: "r = Inr u" by (cases r) auto
    show ?thesis
    proof (cases r')
      case (Inl e)
      then obtain calls' where m': "m' = ?m\<lparr>om_calls := calls'\<rparr>"
        using rep replace_outbound_Inl[OF outbound_invD(1)[OF inv]] by blast
      have "snd (OutboundManager_Create run (Inr c) m tag) = m'"
        using False by (simp add: OutboundManager_Create_def st r rep Inl Let_def)
      then show ?thesis using outbound_inv_cong[OF assms(1), of m'] by (simp add: m')
    next
      case (Inr u')
      define md where "md = (case map_of (om_outboundByTag m) tag of
          None \<Rightarrow> m | Some old \<Rightarrow> m\<lparr>om_outbounds := filter (\<lambda>x. c_id x \<noteq> c_id old) (om_outbounds m),
            om_outboundByTag := AList.delete tag (om_outboundByTag m)\<rparr>)"
      have md: "outbound_inv md" "map_of (om_outboundByTag md) tag = None" "c_id c \<notin> c_id ` set (om_outbounds md)"
        using assms(1) outbound_inv_dropped[OF assms(1), of tag] c(3)
        by (cases "map_of (om_outboundByTag m) tag"; auto simp: md_def delete_conv')+
      have m': "om_outbounds m' = om_outbounds md" "om_outboundByTag m' = om_outboundByTag m" "om_dependByTag m' = om_dependByTag md"
        using replace_outbound_Inr[OF outbound_invD(1)[OF inv], of run tag u' m'] rep Inr
        by (cases "map_of (om_outboundByTag m) tag"; auto simp: md_def)+
      have "map_of (AList.update tag c (om_outboundByTag m)) = map_of (AList.update tag c (om_outboundByTag md))"
        by (cases "map_of (om_outboundByTag m) tag") (simp_all add: md_def delete_update)
      moreover have "snd (OutboundManager_Create run (Inr c) m tag) =
          (let m2 = m'\<lparr>om_outbounds := om_outbounds md @ [c], om_outboundByTag := AList.update tag c (om_outboundByTag m),
                      om_dependByTag := add_dependents tag (c_Dependencies c) (om_dependByTag md)\<rparr>
           in if tag = om_defaultTag m' \<or> (om_defaultTag m' = [] \<and> om_defaultOutbound m' = None)
              then m2\<lparr>om_defaultOutbound := Some c\<rparr> else m2)"
        using False by (simp add: OutboundManager_Create_def st r rep Inr m' Let_def)
      ultimately show ?thesis
        by (intro outbound_inv_cong[OF outbound_inv_added[OF md(1,2) c(1,2) md(3)]]) (simp_all add: Let_def)
    qed
  qed
qed

lemma outbound_reachable_inv:
  assumes "outbound_reachable run m0 m" "outbound_inv m0"
  shows "outbound_inv m"
  using assms
proof (induction rule: outbound_reachable.induct)
  case (outbound_next m op)
  then have inv: "outbound_inv m" by blast
  show ?case
  proof (cases op)
    case (OutboundRemove tag)
    then show ?thesis using outbound_inv_Remove[OF inv] by simp
  next
    case (OutboundCreate tag created)
    show ?thesis
    proof (cases created)
      case (Inl e)
      then show ?thesis using inv OutboundCreate by (simp add: OutboundManager_Create_def)
    next
      case (Inr c)
      then show ?thesis using outbound_inv_Create[OF inv] OutboundCreate outbound_next.hyps(2) by simp
    qed
  qed
qed simp

lemma outbound_inv_new: "outbound_inv (NewOutboundManager defaultTag)"
  by (simp add: outbound_inv_def NewOutboundManager_def dependents_recorded_def)

subsection \<open>Endpoints as outbounds\<close>

text \<open>What the outbound manager needs of the endpoint manager: what it looks up is in the list that it starts.\<close>

locale endpoint_provider =
  fixes Get :: "'s \<Rightarrow> string \<Rightarrow> component option"
    and Endpoints :: "'s \<Rightarrow> component list"
    and ok :: "'s \<Rightarrow> bool"
  assumes get_listed: "ok s \<Longrightarrow> Get s tag = Some c \<Longrightarrow> c \<in> set (Endpoints s)"
begin

lemma initialize_default_managed:
  assumes "ok s" "\<forall>c. om_defaultOutbound m = Some c \<longrightarrow> c \<in> set (om_outbounds m)"
    and "initialize_default (Get s) fallback m = (Inr u, m')"
  shows "\<exists>c. om_defaultOutbound m' = Some c \<and> c \<in> set (om_outbounds m' @ Endpoints s)"
proof (cases "om_defaultTag m \<noteq> [] \<and> om_defaultOutbound m = None")
  case True
  then show ?thesis using assms get_listed[OF assms(1)] by (auto simp: initialize_default_def split: option.splits)
next
  case False
  then show ?thesis using assms by (auto simp: initialize_default_def split: option.splits sum.splits if_splits)
qed

lemma start_initialize_default:
  assumes "ok s" "\<forall>c. om_defaultOutbound m = Some c \<longrightarrow> c \<in> set (om_outbounds m)"
    and "OutboundManager_Start run (Get s) (Endpoints s) fallback m StartStateInitialize = (Inr u, m')"
  shows "\<exists>c. om_defaultOutbound m' = Some c \<and> c \<in> set (om_outbounds m' @ Endpoints s)"
proof -
  let ?m = "m\<lparr>om_started := True, om_stage := StartStateInitialize\<rparr>"
  obtain r m1 where i: "initialize_default (Get s) fallback ?m = (r, m1)" by fastforce
  have "om_outbounds m' = om_outbounds m1" "om_defaultOutbound m' = om_defaultOutbound m1" "r = Inr ()"
    using assms(3) i by (auto simp: OutboundManager_Start_def split: if_splits sum.splits prod.splits)
  then show ?thesis using initialize_default_managed[OF assms(1), of ?m fallback "()" m1] assms(2) i by simp
qed

end

interpretation endpoints: endpoint_provider EndpointManager_Get m_elems
  "\<lambda>m. registry_ok (m_elems m) (map_of (m_byTag m))"
  by unfold_locales (simp add: EndpointManager_Get_def Manager_Get_def registry_mem)

subsection \<open>Properties\<close>

text \<open>
  C24: \<open>startOutbounds\<close> calls the start methods in dependency order: the calls are those of a
  sequence of outbounds in which each comes after all its dependencies and none twice; when it
  succeeds the sequence consists of all outbounds.
\<close>

theorem outbounds_start_in_order:
  "\<exists>os. set os \<subseteq> set outbounds \<and> ordered {} os \<and>
     snd (startOutbounds run byTag outbounds calls) = calls @ start_calls outbound_starter os \<and>
     (fst (startOutbounds run byTag outbounds calls) = Inr () \<longrightarrow> set os = set outbounds \<and> length os = length outbounds)"
proof -
  let ?s = "start_rounds run outbound_starter (component_name ''outbound'') (lint_message ''outbound'' ''outbound'') byTag outbounds [] calls"
  obtain r st calls' where s: "?s = (r, st, calls')" by (metis prod_cases3)
  from start_rounds_ordered[OF s] obtain os where os: "set os \<subseteq> set outbounds" "ordered {} os" "st = map c_Tag os"
    "calls' = calls @ start_calls outbound_starter os" "r = Inr () \<longrightarrow> length os = length outbounds"
    by auto
  have "set os = set outbounds" if "length os = length outbounds"
  proof -
    have "card (set os) = length outbounds" using ordered_distinct[OF os(2)] that by (simp add: distinct_card distinct_map)
    then show ?thesis using os(1) by (metis List.finite_set card_length card_seteq)
  qed
  then show ?thesis using os s by (auto simp: startOutbounds_def)
qed

definition sample_outbounds :: "component list" where
  "sample_outbounds = [sample_component 1 ''proxy'' [''direct''], sample_component 2 ''direct'' []]"

definition by_tag :: "component list \<Rightarrow> (string \<times> component) list" where
  "by_tag cs = map (\<lambda>c. (c_Tag c, c)) cs"

lemma sample_outbounds_start: "fst (startOutbounds run_ok (by_tag sample_outbounds) sample_outbounds []) = Inr ()"
  unfolding startOutbounds_def
  by (simp add: start_rounds.simps sample_outbounds_def sample_component_def outbound_starter_def)

theorem outbounds_start_in_order_witness:
  "\<exists>os. ordered {} os \<and> set os = set sample_outbounds \<and> length os = length sample_outbounds"
  using outbounds_start_in_order[of sample_outbounds run_ok "by_tag sample_outbounds" "[]"] sample_outbounds_start by blast

text \<open>
  C25: when the start methods succeed and the tags differ, \<open>startOutbounds\<close> succeeds exactly when a
  dependency order of the outbounds exists.
\<close>

theorem outbounds_start_iff_order_exists:
  assumes "distinct (map c_Tag outbounds)"
  shows "fst (startOutbounds run_ok byTag outbounds calls) = Inr () \<longleftrightarrow>
    (\<exists>os. set os = set outbounds \<and> ordered {} os)"
  using start_rounds_complete_iff[OF assms, of outbound_starter "component_name ''outbound''"
      "lint_message ''outbound'' ''outbound''" byTag calls]
  by (auto simp: startOutbounds_def split: prod.splits)

theorem outbounds_start_iff_order_exists_witness:
  "fst (startOutbounds run_ok [] (rev sample_outbounds) []) = Inr ()"
proof -
  have "distinct (map c_Tag (rev sample_outbounds))" "ordered {} (rev sample_outbounds)"
    by (simp_all add: sample_outbounds_def sample_component_def)
  then show ?thesis using outbounds_start_iff_order_exists[of "rev sample_outbounds" "[]" "[]"] by blast
qed


definition cyclic_outbounds :: "component list" where
  "cyclic_outbounds = [sample_component 1 ''a'' [''b''], sample_component 2 ''b'' [''a'']]"

lemma cyclic_start:
  "fst (startOutbounds run_ok (by_tag cyclic_outbounds) cyclic_outbounds []) =
     Inl (ENew ''circular outbound dependency: a -> b -> a'')"
  unfolding startOutbounds_def
  by (simp add: start_rounds.simps lint.simps Let_def cyclic_outbounds_def sample_component_def by_tag_def
      problem_tag_def lint_message_def)



definition create_sample :: "nat \<Rightarrow> string \<Rightarrow> string list \<Rightarrow> outbound_op" where
  "create_sample i tag deps = OutboundCreate tag (Inr (sample_component i tag deps))"

definition two_outbounds :: OutboundManager where
  "two_outbounds = snd (outbound_step run_ok (snd (outbound_step run_ok (NewOutboundManager [])
     (create_sample 2 ''direct'' []))) (create_sample 1 ''proxy'' [''direct'']))"

lemmas sample_step_defs = create_sample_def OutboundManager_Create_def replace_outbound_def NewOutboundManager_def
  sample_component_def add_dependents_def good_create_def

lemma two_outbounds_reachable: "outbound_reachable run_ok (NewOutboundManager []) two_outbounds"
  unfolding two_outbounds_def
  by (intro outbound_next outbound_start) (simp_all add: sample_step_defs)


text \<open>A manager in which an outbound that names a dependency twice was created and removed.\<close>

definition after_duplicate :: OutboundManager where
  "after_duplicate = snd (outbound_step run_ok (foldl (\<lambda>m op. snd (outbound_step run_ok m op)) (NewOutboundManager [])
     [create_sample 1 ''d'' [], create_sample 2 ''selector'' [''d'', ''d''], create_sample 3 ''x'' [''d'']])
     (OutboundRemove ''selector''))"

text \<open>
  Without the last proviso the record can be lost. After an outbound that names a dependency
  twice is removed, another outbound that depends on the same tag is no longer recorded.
\<close>

theorem duplicate_dependency_forgets_dependents:
  "om_dependByTag after_duplicate ''d'' = [] \<and>
   (\<exists>c\<in>set (om_outbounds after_duplicate). ''d'' \<in> set (c_Dependencies c))"
  by (simp add: after_duplicate_def sample_step_defs OutboundManager_Remove_def drop_dependents_def same_object_def)

text \<open>
  After a successful start at the stage \<open>initialize\<close> there is a default outbound, and it is one
  of the managed outbounds or endpoints.
\<close>

theorem default_outbound_managed:
  assumes "registry_ok (m_elems em) (map_of (m_byTag em))"
    and "\<forall>c. om_defaultOutbound m = Some c \<longrightarrow> c \<in> set (om_outbounds m)"
    and "OutboundManager_Start run (EndpointManager_Get em) (m_elems em) fallback m StartStateInitialize = (Inr (), m')"
  shows "\<exists>c. om_defaultOutbound m' = Some c \<and> c \<in> set (om_outbounds m' @ m_elems em)"
  using endpoints.start_initialize_default[OF assms] .

theorem default_outbound_managed_witness:
  "\<exists>c m'. OutboundManager_Start run_ok (EndpointManager_Get NewManager) [] (Inr (sample_component 7 ''direct'' []))
      (NewOutboundManager []) StartStateInitialize = (Inr (), m') \<and> om_defaultOutbound m' = Some c \<and> c \<in> set (om_outbounds m')"
proof -
  obtain m' where m': "OutboundManager_Start run_ok (EndpointManager_Get NewManager) (m_elems NewManager)
      (Inr (sample_component 7 ''direct'' [])) (NewOutboundManager []) StartStateInitialize = (Inr (), m')"
    by (simp add: OutboundManager_Start_def initialize_default_def NewOutboundManager_def)
  have "registry_ok (m_elems NewManager) (map_of (m_byTag NewManager))" by (simp add: NewManager_def)
  then show ?thesis
    using default_outbound_managed[OF _ _ m'] m' by (simp add: NewOutboundManager_def NewManager_def)
qed

text \<open>
  C39: removing an outbound that others are recorded to depend on reports an error, but the outbound
  is gone from the manager all the same, and it is not closed.
\<close>

theorem remove_depended_outbound:
  assumes "registry_ok (om_outbounds m) (map_of (om_outboundByTag m))" "map_of (om_outboundByTag m) tag = Some c"
    and "om_dependByTag m tag \<noteq> []" "OutboundManager_Remove run m tag = (r, m')"
  shows "(\<exists>msg. r = Inl (ENew msg)) \<and> map_of (om_outboundByTag m') tag = None \<and> c \<notin> set (om_outbounds m') \<and>
    om_calls m' = om_calls m"
  using assms(3,4)
  by (auto simp: OutboundManager_Remove_def assms(2) registry_remove(1)[OF assms(1,2)] Let_def delete_conv' split: if_splits)

definition depended_manager :: OutboundManager where
  "depended_manager = (NewOutboundManager [])\<lparr>om_outbounds := sample_outbounds, om_outboundByTag := by_tag sample_outbounds,
     om_dependByTag := (\<lambda>t. if t = ''direct'' then [''proxy''] else [])\<rparr>"

lemma by_tag_Some: "map_of (by_tag cs) t = Some c \<Longrightarrow> c_Tag c = t \<and> c \<in> set cs"
  by (drule map_of_SomeD) (auto simp: by_tag_def)

lemma by_tag_registry:
  assumes "distinct (map c_Tag cs)" "distinct (map c_id cs)"
  shows "registry_ok cs (map_of (by_tag cs))"
proof (rule registry_okI[OF assms(2)])
  have "distinct (map fst (by_tag cs))" using assms(1) by (simp add: by_tag_def comp_def)
  then show "set cs = ran (map_of (by_tag cs))" by (simp add: ran_distinct) (force simp: by_tag_def)
  fix t t' c c'
  assume "map_of (by_tag cs) t = Some c" "map_of (by_tag cs) t' = Some c'" "c_id c = c_id c'"
  then show "t = t'" using by_tag_Some[of cs t c] by_tag_Some[of cs t' c'] assms(2)
    by (metis distinct_map inj_onD)
qed

lemma sample_registry: "registry_ok sample_outbounds (map_of (by_tag sample_outbounds))"
  by (rule by_tag_registry) (simp_all add: sample_outbounds_def sample_component_def)

theorem remove_depended_outbound_witness:
  "map_of (om_outboundByTag (snd (OutboundManager_Remove run_ok depended_manager ''direct''))) ''direct'' = None"
proof -
  have "map_of (om_outboundByTag depended_manager) ''direct'' = Some (sample_component 2 ''direct'' [])"
    by (simp add: depended_manager_def sample_outbounds_def by_tag_def sample_component_def)
  moreover have "registry_ok (om_outbounds depended_manager) (map_of (om_outboundByTag depended_manager))"
    "om_dependByTag depended_manager ''direct'' \<noteq> []"
    using sample_registry by (simp_all add: depended_manager_def)
  ultimately show ?thesis
    using remove_depended_outbound[of depended_manager "''direct''" _ run_ok] by (metis prod.collapse)
qed

text \<open>
  With no default tag configured, creating an outbound under the tag of the current default
  outbound replaces it everywhere but as the default: the default remains the old object, which is
  no longer managed and, in a started manager, is closed.
\<close>

theorem replaced_default_outbound_stays_default:
  assumes "registry_ok (om_outbounds m) (map_of (om_outboundByTag m))" "map_of (om_outboundByTag m) tag = Some old"
    and "om_defaultTag m = []" "om_defaultOutbound m = Some old" "tag \<noteq> []" "c_id c \<noteq> c_id old"
    and "OutboundManager_Create run (Inr c) m tag = (Inr (), m')"
  shows "om_defaultOutbound m' = Some old \<and> old \<notin> set (om_outbounds m')"
proof -
  obtain r calls where st: "(if om_started m then start_all_stages run ''outbound'' c ListStartStages (om_calls m)
      else (Inr (), om_calls m)) = (r, calls)" by fastforce
  let ?m = "m\<lparr>om_calls := calls\<rparr>"
  obtain r' m1 where rep: "replace_outbound run ?m tag = (r', m1)" by fastforce
  have r: "r = Inr ()" "r' = Inr ()" using assms(5,7) by (auto simp: OutboundManager_Create_def st rep Let_def split: sum.splits)
  obtain calls' where m1: "m1 = ?m\<lparr>om_calls := calls', om_outbounds := filter (\<lambda>x. c_id x \<noteq> c_id old) (om_outbounds m)\<rparr>"
    using replace_outbound_Inr[of ?m run tag "()" m1] assms(1,2) rep r(2) by auto
  show ?thesis
    using assms(3-7) by (auto simp: OutboundManager_Create_def st rep r m1 Let_def split: if_splits)
qed

definition default_manager :: OutboundManager where
  "default_manager = depended_manager\<lparr>om_defaultOutbound := Some (sample_component 2 ''direct'' [])\<rparr>"

theorem replaced_default_outbound_stays_default_witness:
  "om_defaultOutbound (snd (OutboundManager_Create run_ok (Inr (sample_component 3 ''direct'' [])) default_manager ''direct'')) =
     Some (sample_component 2 ''direct'' [])"
proof -
  have "registry_ok (om_outbounds default_manager) (map_of (om_outboundByTag default_manager))"
    using sample_registry by (simp add: default_manager_def depended_manager_def)
  moreover have "map_of (om_outboundByTag default_manager) ''direct'' = Some (sample_component 2 ''direct'' [])"
    by (simp add: default_manager_def depended_manager_def sample_outbounds_def by_tag_def sample_component_def)
  moreover have "fst (OutboundManager_Create run_ok (Inr (sample_component 3 ''direct'' [])) default_manager ''direct'') = Inr ()"
    by (simp add: OutboundManager_Create_def replace_outbound_def default_manager_def depended_manager_def
        NewOutboundManager_def sample_outbounds_def by_tag_def sample_component_def)
  ultimately show ?thesis
    using replaced_default_outbound_stays_default[of default_manager "''direct''" "sample_component 2 ''direct'' []"
        "sample_component 3 ''direct'' []" run_ok]
    by (simp add: default_manager_def depended_manager_def NewOutboundManager_def sample_component_def prod_eq_iff)
qed

end
