(* ===== verification/DNSTransportManager.thy ===== *)
theory DNSTransportManager
  imports OutboundManager
begin

text \<open>
  The manager of DNS servers (\<open>dns/transport_manager.go\<close>). It starts servers in dependency order like
  the outbound manager, and keeps a default server and at most one fake-IP server. A fake-IP server
  must not be the default: \<open>Create\<close> checks this. \<open>Remove\<close>, which chooses a new default, checks the
  opposite.

  Lemmas: the start order; that servers created one after the other never make a fake-IP server the
  default; what \<open>Remove\<close> does to the default server.
\<close>

record TransportManager =
  tm_defaultTag :: string
  tm_started :: bool
  tm_stage :: StartStage
  tm_transports :: "component list"
  tm_transportByTag :: "(string \<times> component) list"
  tm_dependByTag :: "string \<Rightarrow> string list"
  tm_defaultTransport :: "component option"
  tm_fakeIPTransport :: "component option"
  tm_calls :: calls

definition NewTransportManager :: "string \<Rightarrow> TransportManager" where
  "NewTransportManager defaultTag =
     \<lparr>tm_defaultTag = defaultTag, tm_started = False, tm_stage = StartStateInitialize, tm_transports = [],
      tm_transportByTag = [], tm_dependByTag = (\<lambda>_. []), tm_defaultTransport = None, tm_fakeIPTransport = None,
      tm_calls = []\<rparr>"

definition transport_starter :: "component \<Rightarrow> call option" where
  "transport_starter c = (if c_isLifecycle c then Some (LifecycleStart StartStateStart) else None)"

definition startTransports ::
    "runner \<Rightarrow> (string \<times> component) list \<Rightarrow> component list \<Rightarrow> calls \<Rightarrow> unit result \<times> calls" where
  "startTransports run transportByTag transports calls =
     (let (r, started, calls') =
            start_rounds run transport_starter (component_name ''dns'') (lint_message ''server'' ''server'')
              transportByTag transports [] calls
      in (r, calls'))"

definition initialize_default_transport :: "component result \<Rightarrow> TransportManager \<Rightarrow> unit result \<times> TransportManager" where
  "initialize_default_transport fallback m =
     (if tm_defaultTag m \<noteq> [] \<and> tm_defaultTransport m = None
      then (Inl (ENew (''default DNS server not found: '' @ tm_defaultTag m)), m)
      else if tm_defaultTransport m = None then
        (case fallback of
           Inl e \<Rightarrow> (Inl (ECause ''default DNS server fallback'' e), m)
         | Inr c \<Rightarrow>
             (Inr (), m\<lparr>tm_transports := tm_transports m @ [c],
                        tm_transportByTag := AList.update (c_Tag c) c (tm_transportByTag m),
                        tm_defaultTransport := Some c\<rparr>))
      else (Inr (), m))"

definition TransportManager_Start ::
    "runner \<Rightarrow> component result \<Rightarrow> TransportManager \<Rightarrow> StartStage \<Rightarrow> unit result \<times> TransportManager" where
  "TransportManager_Start run fallback m stage =
     (if tm_started m \<and> tm_stage m \<ge> stage then (Inl (EPanic ''already started''), m)
      else
        let m = m\<lparr>tm_started := True, tm_stage := stage\<rparr> in
        case (if stage = StartStateInitialize then initialize_default_transport fallback m else (Inr (), m)) of
          (Inl e, m) \<Rightarrow> (Inl e, m)
        | (Inr _, m) \<Rightarrow>
            let (r, calls) =
                  (if stage = StartStateStart
                   then startTransports run (tm_transportByTag m) (tm_transports m) (tm_calls m)
                   else start_stage_loop run ''dns'' stage (tm_transports m) (tm_calls m))
            in (r, m\<lparr>tm_calls := calls\<rparr>))"

definition TransportManager_Close :: "runner \<Rightarrow> TransportManager \<Rightarrow> unit result \<times> TransportManager" where
  "TransportManager_Close run m =
     (if \<not> tm_started m then (Inr (), m)
      else
        let (errs, calls) = close_loop run ''server'' (filter c_isCloser (tm_transports m)) (tm_calls m)
        in (Inr (), m\<lparr>tm_started := False, tm_transports := [], tm_calls := calls\<rparr>))"

definition TransportManager_Transport :: "TransportManager \<Rightarrow> string \<Rightarrow> component option" where
  "TransportManager_Transport m tag = map_of (tm_transportByTag m) tag"

text \<open>The choice of a new default server in \<open>Remove\<close>: \<open>Inl\<close> is the early return.\<close>

definition next_default :: "component \<Rightarrow> TransportManager \<Rightarrow> error + TransportManager" where
  "next_default c m =
     (if same_object (tm_defaultTransport m) c then
        (case tm_transports m of
           [] \<Rightarrow> Inr (m\<lparr>tm_defaultTransport := None\<rparr>)
         | nextTransport # _ \<Rightarrow>
             if c_Type nextTransport \<noteq> ''fakeip'' then Inl (ENew ''default server cannot be fakeip'')
             else Inr (m\<lparr>tm_defaultTransport := Some nextTransport\<rparr>))
      else Inr m)"

definition TransportManager_Remove :: "runner \<Rightarrow> TransportManager \<Rightarrow> string \<Rightarrow> unit result \<times> TransportManager" where
  "TransportManager_Remove run m tag =
     (case map_of (tm_transportByTag m) tag of
        None \<Rightarrow> (Inl EInvalid, m)
      | Some c \<Rightarrow>
          let m = m\<lparr>tm_transportByTag := AList.delete tag (tm_transportByTag m)\<rparr> in
          case remove_object c (tm_transports m) of
            None \<Rightarrow> (Inl (EPanic ''invalid inbound index''), m)
          | Some transports \<Rightarrow>
              let m = m\<lparr>tm_transports := transports\<rparr> in
              case next_default c m of
                Inl e \<Rightarrow> (Inl e, m)
              | Inr m \<Rightarrow>
                  let dependBy = tm_dependByTag m tag in
                  if length dependBy > 0
                  then (Inl (ENew (''server['' @ tag @ ''] is depended by '' @ strings_Join dependBy '', '')), m)
                  else
                    let m = m\<lparr>tm_dependByTag := drop_dependents tag (c_Dependencies c) (tm_dependByTag m)\<rparr>
                    in if tm_started m
                       then (Inr (), m\<lparr>tm_calls := snd (invoke run c Close (tm_calls m))\<rparr>)
                       else (Inr (), m))"

definition replace_transport :: "runner \<Rightarrow> TransportManager \<Rightarrow> string \<Rightarrow> unit result \<times> TransportManager" where
  "replace_transport run m tag =
     (case map_of (tm_transportByTag m) tag of
        None \<Rightarrow> (Inr (), m)
      | Some old \<Rightarrow>
          let (r, calls) = (if tm_started m then common_Close run old (tm_calls m) else (Inr (), tm_calls m));
              m = m\<lparr>tm_calls := calls\<rparr>
          in case r of
               Inl e \<Rightarrow> (Inl (ECause (''close '' @ component_name ''dns'' old) e), m)
             | Inr _ \<Rightarrow>
                 (case remove_object old (tm_transports m) of
                    None \<Rightarrow> (Inl (EPanic ''invalid inbound index''), m)
                  | Some transports \<Rightarrow> (Inr (), m\<lparr>tm_transports := transports\<rparr>)))"

text \<open>The end of \<open>Create\<close>, after the server is in the list: the default and the fake-IP server.\<close>

definition adopt_transport :: "string \<Rightarrow> component \<Rightarrow> TransportManager \<Rightarrow> unit result \<times> TransportManager" where
  "adopt_transport tag c m =
     (let isDefault = (tag = tm_defaultTag m \<or> (tm_defaultTag m = [] \<and> tm_defaultTransport m = None)) in
      if isDefault \<and> c_Type c = ''fakeip'' then (Inl (ENew ''default server cannot be fakeip''), m)
      else
        let m = (if isDefault then m\<lparr>tm_defaultTransport := Some c\<rparr> else m) in
        if c_Type c = ''fakeip'' then
          (if tm_fakeIPTransport m \<noteq> None then (Inl (ENew ''multiple fakeip server are not supported''), m)
           else (Inr (), m\<lparr>tm_fakeIPTransport := Some c\<rparr>))
        else (Inr (), m))"

definition TransportManager_Create ::
    "runner \<Rightarrow> component result \<Rightarrow> TransportManager \<Rightarrow> string \<Rightarrow> unit result \<times> TransportManager" where
  "TransportManager_Create run created m tag =
     (if tag = [] then (Inl EInvalid, m)
      else case created of
        Inl e \<Rightarrow> (Inl e, m)
      | Inr c \<Rightarrow>
          let (r, calls) = (if tm_started m then start_all_stages run ''dns'' c ListStartStages (tm_calls m)
                            else (Inr (), tm_calls m));
              m = m\<lparr>tm_calls := calls\<rparr>
          in case r of
               Inl e \<Rightarrow> (Inl e, m)
             | Inr _ \<Rightarrow>
                 (case replace_transport run m tag of
                    (Inl e, m) \<Rightarrow> (Inl e, m)
                  | (Inr _, m) \<Rightarrow>
                      adopt_transport tag c
                        (m\<lparr>tm_transports := tm_transports m @ [c],
                           tm_transportByTag := AList.update tag c (tm_transportByTag m),
                           tm_dependByTag := add_dependents tag (c_Dependencies c) (tm_dependByTag m)\<rparr>)))"

subsection \<open>The default and the fake-IP server\<close>

definition default_ok :: "TransportManager \<Rightarrow> bool" where
  "default_ok m \<longleftrightarrow>
     (\<forall>c. tm_defaultTransport m = Some c \<longrightarrow> c_Type c \<noteq> ''fakeip'') \<and>
     (\<forall>c. tm_fakeIPTransport m = Some c \<longrightarrow> c_Type c = ''fakeip'')"

lemma replace_transport_default:
  "replace_transport run m tag = (r, m') \<Longrightarrow>
     tm_defaultTransport m' = tm_defaultTransport m \<and> tm_fakeIPTransport m' = tm_fakeIPTransport m"
  by (auto simp: replace_transport_def Let_def split: option.splits prod.splits sum.splits)

lemma adopt_transport_ok: "default_ok m \<Longrightarrow> default_ok (snd (adopt_transport tag c m))"
  by (auto simp: adopt_transport_def default_ok_def Let_def)

lemma Create_default_ok:
  assumes "default_ok m"
  shows "default_ok (snd (TransportManager_Create run created m tag))"
proof (cases created)
  case (Inl e)
  then show ?thesis using assms by (simp add: TransportManager_Create_def)
next
  case (Inr c)
  obtain r calls where st: "(if tm_started m then start_all_stages run ''dns'' c ListStartStages (tm_calls m)
      else (Inr (), tm_calls m)) = (r, calls)" by fastforce
  obtain r' m1 where rep: "replace_transport run (m\<lparr>tm_calls := calls\<rparr>) tag = (r', m1)" by fastforce
  have "default_ok (m\<lparr>tm_calls := calls\<rparr>)" "default_ok m1"
    using assms replace_transport_default[OF rep] by (simp_all add: default_ok_def)
  then show ?thesis
    using assms adopt_transport_ok[of "m1\<lparr>tm_transports := tm_transports m1 @ [c],
        tm_transportByTag := AList.update tag c (tm_transportByTag m1),
        tm_dependByTag := add_dependents tag (c_Dependencies c) (tm_dependByTag m1)\<rparr>" tag c]
    by (simp add: TransportManager_Create_def Inr st rep Let_def default_ok_def split: sum.splits)
qed

fun create_all :: "runner \<Rightarrow> (string \<times> component result) list \<Rightarrow> TransportManager \<Rightarrow> TransportManager" where
  "create_all run [] m = m"
| "create_all run ((tag, created) # cs) m = create_all run cs (snd (TransportManager_Create run created m tag))"

lemma create_all_default_ok: "default_ok m \<Longrightarrow> default_ok (create_all run cs m)"
  by (induction run cs m rule: create_all.induct) (simp_all add: Create_default_ok)

subsection \<open>Properties\<close>



text \<open>
  Whatever servers are created, and whichever creations fail, the default server is never a
  fake-IP server and the server kept for fake IPs always is one.
\<close>

theorem created_default_is_not_fakeip:
  "(\<forall>c. tm_defaultTransport (create_all run cs (NewTransportManager defaultTag)) = Some c \<longrightarrow> c_Type c \<noteq> ''fakeip'') \<and>
   (\<forall>c. tm_fakeIPTransport (create_all run cs (NewTransportManager defaultTag)) = Some c \<longrightarrow> c_Type c = ''fakeip'')"
proof -
  have "default_ok (NewTransportManager defaultTag)" by (simp add: default_ok_def NewTransportManager_def)
  from create_all_default_ok[OF this] show ?thesis by (simp only: default_ok_def)
qed

definition fakeip_component :: component where
  "fakeip_component = (sample_component 9 ''fake'' [])\<lparr>c_Type := ''fakeip''\<rparr>"

theorem created_default_is_not_fakeip_witness:
  "tm_defaultTransport (create_all run_ok [(''a'', Inr (sample_component 1 ''a'' [])), (''fake'', Inr fakeip_component)]
     (NewTransportManager [])) = Some (sample_component 1 ''a'' []) \<and> c_Type (sample_component 1 ''a'' []) \<noteq> ''fakeip''"
  using created_default_is_not_fakeip[of run_ok "[(''a'', Inr (sample_component 1 ''a'' [])), (''fake'', Inr fakeip_component)]" "[]"]
  by (simp add: TransportManager_Create_def replace_transport_def adopt_transport_def NewTransportManager_def
      fakeip_component_def sample_component_def)

text \<open>
  C40: removing the default server while others remain never installs a usable default. If the next
  server is an ordinary one, the removal reports that the default server cannot be a fake-IP server
  and the default remains the removed server; if the next server is a fake-IP server, it becomes the
  default.
\<close>

theorem remove_default_transport:
  assumes "registry_ok (tm_transports m) (map_of (tm_transportByTag m))" "map_of (tm_transportByTag m) tag = Some c"
    and "tm_defaultTransport m = Some c" "filter (\<lambda>x. c_id x \<noteq> c_id c) (tm_transports m) = nextTransport # rest"
    and "TransportManager_Remove run m tag = (r, m')"
  shows "if c_Type nextTransport = ''fakeip'' then tm_defaultTransport m' = Some nextTransport
    else r = Inl (ENew ''default server cannot be fakeip'') \<and> tm_defaultTransport m' = Some c \<and>
         map_of (tm_transportByTag m') tag = None"
  using assms(3,5)
  by (auto simp: TransportManager_Remove_def assms(2) registry_remove(1)[OF assms(1,2)] next_default_def assms(4)
      same_object_def delete_conv' Let_def split: if_splits)

definition two_servers :: TransportManager where
  "two_servers = (NewTransportManager [])\<lparr>tm_transports := sample_outbounds, tm_transportByTag := by_tag sample_outbounds,
     tm_defaultTransport := Some (sample_component 1 ''proxy'' [''direct''])\<rparr>"

theorem remove_default_transport_witness:
  "fst (TransportManager_Remove run_ok two_servers ''proxy'') = Inl (ENew ''default server cannot be fakeip'')"
proof -
  have "registry_ok (tm_transports two_servers) (map_of (tm_transportByTag two_servers))"
    using sample_registry by (simp add: two_servers_def)
  from remove_default_transport[OF this, of "''proxy''" "sample_component 1 ''proxy'' [''direct'']"
      "sample_component 2 ''direct'' []" "[]" run_ok]
  show ?thesis
    by (simp add: two_servers_def sample_outbounds_def by_tag_def sample_component_def NewTransportManager_def prod_eq_iff)
qed

end
