(* ===== verification/ByteCodec.thy ===== *)
theory ByteCodec
  imports Netip
begin

text \<open>
  Byte-level encodings of Go's standard library that the binary formats of the program are made of:
  big-endian numbers (\<open>encoding/binary\<close>), strings as bytes, and the binary forms of
  \<open>netip.Addr\<close> and \<open>netip.Prefix\<close>. Every decoder reads back what its encoder writes.
\<close>

subsection \<open>Big-endian numbers\<close>

fun be_bytes :: "nat \<Rightarrow> nat \<Rightarrow> bytes" where
  "be_bytes 0 n = []"
| "be_bytes (Suc k) n = be_bytes k (n div 256) @ [of_nat n]"

definition be_value :: "bytes \<Rightarrow> nat" where
  "be_value bs = fold (\<lambda>b n. 256 * n + unat b) bs 0"

lemma length_be_bytes [simp]: "length (be_bytes k n) = k"
  by (induction k n rule: be_bytes.induct) auto

lemma be_value_Nil [simp]: "be_value [] = 0"
  by (simp add: be_value_def)

lemma be_value_snoc [simp]: "be_value (bs @ [b]) = 256 * be_value bs + unat b"
  by (simp add: be_value_def)

lemma unat_of_nat_u8: "unat (of_nat n :: u8) = n mod 256"
  by (simp add: unat_of_nat)

lemma unat_u8_less: "unat (b :: u8) < 256"
  using unsigned_less [of b, where 'a = nat] by simp

lemma be_value_be_bytes: "be_value (be_bytes k n) = n mod 256 ^ k"
proof (induction k n rule: be_bytes.induct)
  case (2 k n)
  have "256 * (n div 256 mod 256 ^ k) + n mod 256 = n mod (256 * 256 ^ k)"
    by (simp add: mod_mult2_eq)
  then show ?case using 2 by (simp add: unat_of_nat_u8)
qed simp

lemma be_value_be_bytes_less: "n < 256 ^ k \<Longrightarrow> be_value (be_bytes k n) = n"
  by (simp add: be_value_be_bytes)

lemma be_value_less: "be_value bs < 256 ^ length bs"
proof (induction bs rule: rev_induct)
  case (snoc b bs)
  have "unat b < 256" by (rule unat_u8_less)
  then have "256 * be_value bs + unat b < 256 * Suc (be_value bs)" by simp
  also have "\<dots> \<le> 256 * 256 ^ length bs" using snoc by (intro mult_le_mono2) simp
  finally show ?case by simp
qed simp

lemma be_bytes_be_value: "be_bytes (length bs) (be_value bs) = bs"
proof (induction bs rule: rev_induct)
  case (snoc b bs)
  have "(256 :: u8) = 0" by (rule word_uint_eqI) simp
  then have "256 * x = 0" for x :: u8 by (metis mult_zero_left)
  then show ?case using snoc unat_u8_less [of b] by simp
qed simp

lemma be_bytes_inject: "n < 256 ^ k \<Longrightarrow> m < 256 ^ k \<Longrightarrow> be_bytes k n = be_bytes k m \<longleftrightarrow> n = m"
  by (metis be_value_be_bytes_less)

subsection \<open>Strings as bytes\<close>

definition bytes_of :: "string \<Rightarrow> bytes" where
  "bytes_of s = map (\<lambda>c. of_nat (of_char c)) s"

definition string_of :: "bytes \<Rightarrow> string" where
  "string_of bs = map (\<lambda>b. char_of (unat b)) bs"

lemma string_of_bytes_of [simp]: "string_of (bytes_of s) = s"
proof -
  have "char_of (unat (of_nat (of_char c) :: u8)) = c" for c
    by (simp add: unat_of_nat_u8)
  then show ?thesis by (induction s) (auto simp: string_of_def bytes_of_def)
qed

lemma bytes_of_string_of [simp]: "bytes_of (string_of bs) = bs"
proof -
  have "of_nat (of_char (char_of (unat b) :: char)) = b" for b :: u8
  proof -
    have "unat b < 256" by (rule unat_u8_less)
    then show ?thesis by simp
  qed
  then show ?thesis by (induction bs) (auto simp: string_of_def bytes_of_def)
qed

lemma length_bytes_of [simp]: "length (bytes_of s) = length s"
  by (simp add: bytes_of_def)

lemma bytes_of_inject [simp]: "bytes_of s = bytes_of t \<longleftrightarrow> s = t"
  by (metis string_of_bytes_of)

lemma bytes_of_Nil [simp]: "bytes_of s = [] \<longleftrightarrow> s = []" "bytes_of [] = []"
  by (auto simp: bytes_of_def)

subsection \<open>Addresses and prefixes\<close>

fun addr_AsSlice :: "Addr \<Rightarrow> bytes" where
  "addr_AsSlice AddrInvalid = []"
| "addr_AsSlice (Addr4 a) = be_bytes 4 (unat a)"
| "addr_AsSlice (Addr6 a z) = be_bytes 16 (unat a)"

text \<open>\<open>netip.AddrFromSlice\<close>; \<open>None\<close> is its second result \<open>false\<close>.\<close>

definition addr_FromSlice :: "bytes \<Rightarrow> Addr option" where
  "addr_FromSlice b =
     (if length b = 4 then Some (Addr4 (of_nat (be_value b)))
      else if length b = 16 then Some (Addr6 (of_nat (be_value b)) []) else None)"

text \<open>
  \<open>MarshalBinary\<close> and \<open>UnmarshalBinary\<close>: an IPv6 address is followed by its zone; a prefix is its
  address and one byte with the length, 255 for the length -1 of an invalid prefix.
\<close>

fun addr_MarshalBinary :: "Addr \<Rightarrow> bytes" where
  "addr_MarshalBinary AddrInvalid = []"
| "addr_MarshalBinary (Addr4 a) = be_bytes 4 (unat a)"
| "addr_MarshalBinary (Addr6 a z) = be_bytes 16 (unat a) @ bytes_of z"

definition addr_UnmarshalBinary :: "bytes \<Rightarrow> Addr result" where
  "addr_UnmarshalBinary b =
     (if length b = 0 then Inr AddrInvalid
      else if length b = 4 then Inr (Addr4 (of_nat (be_value b)))
      else if length b = 16 then Inr (Addr6 (of_nat (be_value b)) [])
      else if length b > 16 then Inr (Addr6 (of_nat (be_value (take 16 b))) (string_of (drop 16 b)))
      else Inl (ENew ''unexpected slice size''))"

definition prefix_MarshalBinary :: "Prefix \<Rightarrow> bytes" where
  "prefix_MarshalBinary p =
     addr_MarshalBinary (addr_withoutZone (prefix_Addr p)) @ [of_int (prefix_Bits p)]"

definition prefix_UnmarshalBinary :: "bytes \<Rightarrow> Prefix result" where
  "prefix_UnmarshalBinary b =
     (if length b < 1 then Inl (ENew ''unexpected slice size'')
      else res_bind (addr_UnmarshalBinary (butlast b)) (\<lambda>a. Inr (prefix_From a (uint (last b)))))"

text \<open>The prefixes that \<open>netip.PrefixFrom\<close> and the zero value yield.\<close>

definition prefix_proper :: "Prefix \<Rightarrow> bool" where
  "prefix_proper p \<longleftrightarrow> addr_withoutZone (prefix_Addr p) = prefix_Addr p \<and>
     prefix_bitsPlusOne p \<le> (if addr_IsValid (prefix_Addr p) then addr_BitLen (prefix_Addr p) + 1 else 0)"

lemma prefix_proper_From [simp]: "prefix_proper (prefix_From a bits)"
  by (cases a) (auto simp: prefix_proper_def prefix_From_def)

lemma unat_less_pow: "unat (x :: u32) < 256 ^ 4" "unat (y :: u128) < 256 ^ 16"
  using unsigned_less [of x, where 'a = nat] unsigned_less [of y, where 'a = nat] by simp_all

lemma addr_round_trip: "addr_UnmarshalBinary (addr_MarshalBinary a) = Inr a"
  using unat_less_pow
  by (cases a) (auto simp: addr_UnmarshalBinary_def be_value_be_bytes_less)

lemma addr_FromSlice_AsSlice:
  "addr_IsValid a \<Longrightarrow> addr_FromSlice (addr_AsSlice a) = Some (addr_withoutZone a)"
  using unat_less_pow by (cases a) (auto simp: addr_FromSlice_def be_value_be_bytes_less)

lemma uint_bits:
  assumes "prefix_proper p"
  shows "uint (of_int (prefix_Bits p) :: u8) = (if prefix_IsValid p then prefix_Bits p else 255)"
proof -
  have "prefix_bitsPlusOne p \<le> 129"
    using assms by (cases "prefix_Addr p") (auto simp: prefix_proper_def)
  then show ?thesis
    unfolding prefix_Bits_def prefix_IsValid_def uint_word_of_int_eq take_bit_eq_mod by auto
qed

lemma prefix_round_trip:
  assumes "prefix_proper p"
  shows "prefix_UnmarshalBinary (prefix_MarshalBinary p) = Inr p"
proof -
  have "prefix_UnmarshalBinary (prefix_MarshalBinary p) =
      Inr (prefix_From (prefix_Addr p) (if prefix_IsValid p then prefix_Bits p else 255))"
    using assms uint_bits [OF assms] addr_round_trip [of "prefix_Addr p"]
    by (simp add: prefix_UnmarshalBinary_def prefix_MarshalBinary_def prefix_proper_def)
  moreover have "prefix_From (prefix_Addr p) (if prefix_IsValid p then prefix_Bits p else 255) = p"
    using assms by (cases p, cases "prefix_Addr p")
      (auto simp: prefix_From_def prefix_proper_def prefix_IsValid_def prefix_Bits_def)
  ultimately show ?thesis by simp
qed

lemma prefix_MarshalBinary_length: "prefix_proper p \<Longrightarrow> length (prefix_MarshalBinary p) \<le> 17"
  by (cases p, cases "prefix_Addr p") (auto simp: prefix_MarshalBinary_def prefix_proper_def)

end
