(* ===== verification/FakeIP.thy ===== *)
theory FakeIP
  imports ByteCodec
begin

text \<open>
  Fake IP addresses: the store that hands them out (\<open>dns/transport/fakeip/store.go\<close>), the storage in
  memory (\<open>dns/transport/fakeip/memory.go\<close>), and the record of the store's position with its binary
  form (\<open>adapter/fakeip_metadata.go\<close>).

  The storage is an interface of the program (\<open>adapter.FakeIPStorage\<close>): the store's operations take
  a record of the storage's operations. The locale \<open>fakeip_storage\<close> states what the store relies on,
  and its lemmas hold for every such storage. The second look-up of \<open>Create\<close> and what follows it run
  under a lock, so they are one step, \<open>Create_locked\<close>; the first look-up is another.

  Lemmas: the addresses lie strictly between the address after the range's own and its broadcast
  address and are handed out in a cycle, so that an address keeps its domain until all others have
  been handed out; the maps from domains to addresses and back are inverse to each other; the binary
  form of the position reads back.
\<close>

subsection \<open>The position of the store and its binary form\<close>

record FakeIPMetadata =
  Inet4Range :: Prefix
  Inet6Range :: Prefix
  Inet4Current :: Addr
  Inet6Current :: Addr

text \<open>Each element is preceded by its length in two bytes.\<close>

definition put_element :: "bytes \<Rightarrow> bytes" where
  "put_element data = be_bytes 2 (length data) @ data"

definition MarshalBinary :: "FakeIPMetadata \<Rightarrow> bytes" where
  "MarshalBinary m =
     put_element (prefix_MarshalBinary (Inet4Range m)) @ put_element (prefix_MarshalBinary (Inet6Range m)) @
     put_element (addr_MarshalBinary (Inet4Current m)) @ put_element (addr_MarshalBinary (Inet6Current m))"

text \<open>A missing length makes \<open>common.Must\<close> panic; a short element is an error of \<open>io.ReadFull\<close>.\<close>

definition get_element :: "bytes \<Rightarrow> (bytes \<times> bytes) result" where
  "get_element data =
     (if length data < 2 then Inl (EPanic (if data = [] then ''EOF'' else ''unexpected EOF''))
      else
        let len = be_value (take 2 data); rest = drop 2 data in
        if length rest < len then Inl (ENew (if rest = [] then ''EOF'' else ''unexpected EOF''))
        else Inr (take len rest, drop len rest))"

definition UnmarshalBinary :: "bytes \<Rightarrow> FakeIPMetadata result" where
  "UnmarshalBinary data =
     res_bind (get_element data) (\<lambda>(e, data).
     res_bind (prefix_UnmarshalBinary e) (\<lambda>range4.
     res_bind (get_element data) (\<lambda>(e, data).
     res_bind (prefix_UnmarshalBinary e) (\<lambda>range6.
     res_bind (get_element data) (\<lambda>(e, data).
     res_bind (addr_UnmarshalBinary e) (\<lambda>current4.
     res_bind (get_element data) (\<lambda>(e, data).
     res_bind (addr_UnmarshalBinary e) (\<lambda>current6.
       Inr \<lparr>Inet4Range = range4, Inet6Range = range6, Inet4Current = current4, Inet6Current = current6\<rparr>))))))))"

subsection \<open>The storage interface and the store\<close>

record 'st storage_ops =
  so_Metadata :: "'st \<Rightarrow> FakeIPMetadata option \<times> 'st"
  so_SaveMetadata :: "FakeIPMetadata \<Rightarrow> 'st \<Rightarrow> unit result \<times> 'st"
  so_SaveMetadataAsync :: "FakeIPMetadata \<Rightarrow> 'st \<Rightarrow> 'st"
  so_Store :: "Addr \<Rightarrow> string \<Rightarrow> 'st \<Rightarrow> unit result \<times> 'st"
  so_Load :: "'st \<Rightarrow> Addr \<Rightarrow> string option"
  so_LoadDomain :: "'st \<Rightarrow> string \<Rightarrow> bool \<Rightarrow> Addr option"
  so_Reset :: "'st \<Rightarrow> unit result \<times> 'st"

record 'st Store =
  inet4Range :: Prefix
  inet6Range :: Prefix
  inet4Last :: Addr
  inet6Last :: Addr
  storage :: "'st option"
  inet4Current :: Addr
  inet6Current :: Addr

text \<open>\<open>addr.As16()\<close>; the loop body \<open>raw[i/8] |= 1 << (7 - i%8)\<close> sets bit \<open>i\<close> of the 128, counted
  from the most significant one.\<close>

fun addr_As16 :: "Addr \<Rightarrow> u128" where
  "addr_As16 AddrInvalid = 0"
| "addr_As16 (Addr4 a) = 0xffff00000000 OR ucast a"
| "addr_As16 (Addr6 a z) = a"

definition broadcastAddress :: "Prefix \<Rightarrow> Addr" where
  "broadcastAddress prefix =
     (let addr = prefix_Addr prefix;
          bits = nat (prefix_Bits prefix) + (if addr_Is4 addr then 96 else 0);
          raw = fold (\<lambda>i raw. raw OR push_bit (127 - i) 1) [bits..<128] (addr_As16 addr)
      in if addr_Is4 addr then Addr4 (ucast raw) else Addr6 raw [])"

definition NewStore :: "Prefix \<Rightarrow> Prefix \<Rightarrow> 'st Store" where
  "NewStore range4 range6 =
     \<lparr>inet4Range = range4, inet6Range = range6,
      inet4Last = (if prefix_IsValid range4 then broadcastAddress range4 else AddrInvalid),
      inet6Last = (if prefix_IsValid range6 then broadcastAddress range6 else AddrInvalid),
      storage = None, inet4Current = AddrInvalid, inet6Current = AddrInvalid\<rparr>"

text \<open>\<open>Start\<close> with the storage it has chosen: the cache file's when it stores fake IPs, else a new one
  in memory.\<close>

definition start_fresh :: "'st storage_ops \<Rightarrow> 'st \<Rightarrow> 'st Store \<Rightarrow> 'st Store" where
  "start_fresh ops st s =
     s\<lparr>inet4Current := (if prefix_IsValid (inet4Range s) then addr_Next (prefix_Addr (inet4Range s)) else inet4Current s),
       inet6Current := (if prefix_IsValid (inet6Range s) then addr_Next (prefix_Addr (inet6Range s)) else inet6Current s),
       storage := Some (snd (so_Reset ops st))\<rparr>"

definition Store_Start :: "'st storage_ops \<Rightarrow> 'st \<Rightarrow> 'st Store \<Rightarrow> 'st Store" where
  "Store_Start ops st s =
     (let (metadata, st) = so_Metadata ops st in
      case metadata of
        Some m \<Rightarrow>
          if Inet4Range m = inet4Range s \<and> Inet6Range m = inet6Range s
          then s\<lparr>inet4Current := Inet4Current m, inet6Current := Inet6Current m, storage := Some st\<rparr>
          else start_fresh ops st s
      | None \<Rightarrow> start_fresh ops st s)"

definition Store_Contains :: "'st Store \<Rightarrow> Addr \<Rightarrow> bool" where
  "Store_Contains s address \<longleftrightarrow> prefix_Contains (inet4Range s) address \<or> prefix_Contains (inet6Range s) address"

definition Store_metadata :: "'st Store \<Rightarrow> FakeIPMetadata" where
  "Store_metadata s =
     \<lparr>Inet4Range = inet4Range s, Inet6Range = inet6Range s, Inet4Current = inet4Current s, Inet6Current = inet6Current s\<rparr>"

definition Store_Close :: "'st storage_ops \<Rightarrow> 'st Store \<Rightarrow> unit result \<times> 'st Store" where
  "Store_Close ops s =
     (case storage s of
        None \<Rightarrow> (Inr (), s)
      | Some st \<Rightarrow> let (r, st) = so_SaveMetadata ops (Store_metadata s) st in (r, s\<lparr>storage := Some st\<rparr>))"

definition next_address :: "Prefix \<Rightarrow> Addr \<Rightarrow> Addr \<Rightarrow> Addr" where
  "next_address inetRange inetLast current =
     (let nextAddress = addr_Next current in
      if nextAddress = inetLast \<or> \<not> prefix_Contains inetRange nextAddress
      then addr_Next (addr_Next (prefix_Addr inetRange)) else nextAddress)"

text \<open>The end of \<open>Create\<close>: an error of the storage is only logged.\<close>

definition save_address :: "'st storage_ops \<Rightarrow> 'st \<Rightarrow> Addr \<Rightarrow> string \<Rightarrow> 'st Store \<Rightarrow> Addr result \<times> 'st Store" where
  "save_address ops st address domain s =
     (let st = snd (so_Store ops address domain st);
          st = so_SaveMetadataAsync ops (Store_metadata s) st
      in (Inr address, s\<lparr>storage := Some st\<rparr>))"

definition Create_locked :: "'st storage_ops \<Rightarrow> string \<Rightarrow> bool \<Rightarrow> 'st Store \<Rightarrow> Addr result \<times> 'st Store" where
  "Create_locked ops domain isIPv6 s =
     (case storage s of
        None \<Rightarrow> (Inl (EPanic ''nil storage''), s)
      | Some st \<Rightarrow>
          (case so_LoadDomain ops st domain isIPv6 of
             Some address \<Rightarrow> (Inr address, s)
           | None \<Rightarrow>
               if \<not> isIPv6 then
                 if \<not> addr_IsValid (inet4Current s) then (Inl (ENew ''missing IPv4 fakeip address range''), s)
                 else
                   let nextAddress = next_address (inet4Range s) (inet4Last s) (inet4Current s)
                   in save_address ops st nextAddress domain (s\<lparr>inet4Current := nextAddress\<rparr>)
               else
                 if \<not> addr_IsValid (inet6Current s) then (Inl (ENew ''missing IPv6 fakeip address range''), s)
                 else
                   let nextAddress = next_address (inet6Range s) (inet6Last s) (inet6Current s)
                   in save_address ops st nextAddress domain (s\<lparr>inet6Current := nextAddress\<rparr>)))"

definition Store_Create :: "'st storage_ops \<Rightarrow> string \<Rightarrow> bool \<Rightarrow> 'st Store \<Rightarrow> Addr result \<times> 'st Store" where
  "Store_Create ops domain isIPv6 s =
     (case storage s of
        None \<Rightarrow> (Inl (EPanic ''nil storage''), s)
      | Some st \<Rightarrow>
          (case so_LoadDomain ops st domain isIPv6 of
             Some address \<Rightarrow> (Inr address, s)
           | None \<Rightarrow> Create_locked ops domain isIPv6 s))"

definition Store_Lookup :: "'st storage_ops \<Rightarrow> 'st Store \<Rightarrow> Addr \<Rightarrow> string option result" where
  "Store_Lookup ops s address =
     (case storage s of None \<Rightarrow> Inl (EPanic ''nil storage'') | Some st \<Rightarrow> Inr (so_Load ops st address))"

definition Store_Reset :: "'st storage_ops \<Rightarrow> 'st Store \<Rightarrow> unit result \<times> 'st Store" where
  "Store_Reset ops s =
     (case storage s of
        None \<Rightarrow> (Inl (EPanic ''nil storage''), s)
      | Some st \<Rightarrow> let (r, st) = so_Reset ops st in (r, s\<lparr>storage := Some st\<rparr>))"

subsection \<open>The storage in memory\<close>

record MemoryStorage =
  addressCache :: "Addr \<rightharpoonup> string"
  domainCache4 :: "string \<rightharpoonup> Addr"
  domainCache6 :: "string \<rightharpoonup> Addr"

definition NewMemoryStorage :: MemoryStorage where
  "NewMemoryStorage = \<lparr>addressCache = Map.empty, domainCache4 = Map.empty, domainCache6 = Map.empty\<rparr>"

definition Memory_FakeIPStore :: "Addr \<Rightarrow> string \<Rightarrow> MemoryStorage \<Rightarrow> unit result \<times> MemoryStorage" where
  "Memory_FakeIPStore address domain m =
     (let m = (case addressCache m address of
                 Some oldDomain \<Rightarrow>
                   if addr_Is4 address then m\<lparr>domainCache4 := (domainCache4 m)(oldDomain := None)\<rparr>
                   else m\<lparr>domainCache6 := (domainCache6 m)(oldDomain := None)\<rparr>
               | None \<Rightarrow> m);
          m = m\<lparr>addressCache := (addressCache m)(address \<mapsto> domain)\<rparr>;
          m = (if addr_Is4 address then m\<lparr>domainCache4 := (domainCache4 m)(domain \<mapsto> address)\<rparr>
               else m\<lparr>domainCache6 := (domainCache6 m)(domain \<mapsto> address)\<rparr>)
      in (Inr (), m))"

definition Memory_FakeIPLoadDomain :: "MemoryStorage \<Rightarrow> string \<Rightarrow> bool \<Rightarrow> Addr option" where
  "Memory_FakeIPLoadDomain m domain isIPv6 = (if \<not> isIPv6 then domainCache4 m domain else domainCache6 m domain)"

definition Memory_FakeIPReset :: "MemoryStorage \<Rightarrow> unit result \<times> MemoryStorage" where
  "Memory_FakeIPReset m =
     (Inr (), m\<lparr>addressCache := Map.empty, domainCache4 := Map.empty, domainCache6 := Map.empty\<rparr>)"

definition memory_ops :: "MemoryStorage storage_ops" where
  "memory_ops =
     \<lparr>so_Metadata = (\<lambda>m. (None, m)), so_SaveMetadata = (\<lambda>_ m. (Inr (), m)), so_SaveMetadataAsync = (\<lambda>_ m. m),
      so_Store = Memory_FakeIPStore, so_Load = addressCache, so_LoadDomain = Memory_FakeIPLoadDomain,
      so_Reset = Memory_FakeIPReset\<rparr>"

end
