(* ===== verification/FakeIPLaws.thy ===== *)
theory FakeIPLaws
  imports FakeIP
begin

text \<open>
  The laws of the fake-IP store: the range as an interval of numbers, the cycle of the addresses, the
  interface a storage has to satisfy (\<open>fakeip_storage\<close>) and what the store does over any such
  storage, the storage in memory as an instance, and the properties.
\<close>

subsection \<open>The range as an interval of numbers\<close>

fun addr_nat :: "Addr \<Rightarrow> nat" where
  "addr_nat AddrInvalid = 0"
| "addr_nat (Addr4 a) = unat a"
| "addr_nat (Addr6 a z) = unat a"

definition fake_addr :: "bool \<Rightarrow> nat \<Rightarrow> Addr" where
  "fake_addr v6 n = (if v6 then Addr6 (of_nat n) [] else Addr4 (of_nat n))"

definition addr_len :: "bool \<Rightarrow> nat" where
  "addr_len v6 = (if v6 then 128 else 32)"

definition range_addr :: "Prefix \<Rightarrow> nat" where
  "range_addr p = addr_nat (prefix_Addr p)"

definition range_last :: "Prefix \<Rightarrow> nat" where
  "range_last p = range_addr p div 2 ^ host_bits p * 2 ^ host_bits p + (2 ^ host_bits p - 1)"

text \<open>A usable range leaves an address between the second one and the broadcast address.\<close>

definition usable :: "bool \<Rightarrow> Prefix \<Rightarrow> bool" where
  "usable v6 p \<longleftrightarrow> prefix_IsValid p \<and> prefix_proper p \<and> (if v6 then addr_Is6 (prefix_Addr p) else addr_Is4 (prefix_Addr p)) \<and>
     range_addr p + 2 < range_last p"

definition pool_size :: "Prefix \<Rightarrow> nat" where
  "pool_size p = range_last p - range_addr p - 2"

lemma bit_fold_set:
  "bit (fold (\<lambda>i raw. raw OR 2 ^ (127 - i)) is w) n \<longleftrightarrow> bit w n \<or> (\<exists>i\<in>set is. n = 127 - i)" for w :: u128
  by (induction "is" arbitrary: w) (auto simp: bit_or_iff bit_exp_iff)

lemma fold_set_mask:
  "b \<le> 128 \<Longrightarrow> fold (\<lambda>i raw. raw OR 2 ^ (127 - i)) [b..<128] w = w OR mask (128 - b)" for w :: u128
proof (rule bit_word_eqI)
  fix n assume "b \<le> 128" "n < LENGTH(128)"
  then have "(\<exists>i\<in>set [b..<128]. n = 127 - i) \<longleftrightarrow> n < 128 - b"
    by (auto intro!: bexI [of _ "127 - n"])
  then show "bit (fold (\<lambda>i raw. raw OR 2 ^ (127 - i)) [b..<128] w) n \<longleftrightarrow> bit (w OR mask (128 - b)) n"
    using \<open>n < LENGTH(128)\<close> by (simp add: bit_fold_set bit_or_iff bit_mask_iff)
qed

lemma nat_or_mask: "A OR mask h = A div 2 ^ h * 2 ^ h + (2 ^ h - 1)" for A :: nat
proof -
  have "A OR mask h = push_bit h (drop_bit h A) OR mask h"
    by (rule bit_eqI) (auto simp: bit_or_iff bit_mask_iff bit_push_bit_iff bit_drop_bit_eq)
  also have "\<dots> = push_bit h (drop_bit h A) + mask h"
    by (rule disjunctive_add [symmetric]) (auto simp: bit_mask_iff bit_push_bit_iff)
  finally show ?thesis by (simp add: push_bit_eq_mult drop_bit_eq_div mask_eq_exp_minus_1)
qed

lemma unat_or_mask:
  fixes a :: "'a::len word"
  assumes "h \<le> LENGTH('a)"
  shows "unat (a OR mask h) = unat a div 2 ^ h * 2 ^ h + (2 ^ h - 1)"
proof -
  have "unat (a OR mask h) = unat a OR mask h"
    using assms by (intro bit_eqI) (auto simp: bit_unsigned_iff bit_or_iff bit_mask_iff)
  then show ?thesis by (simp add: nat_or_mask)
qed

lemma usableD:
  assumes "usable v6 p"
  shows "prefix_Addr p = fake_addr v6 (range_addr p)" "range_addr p < 2 ^ addr_len v6"
    "host_bits p \<le> addr_len v6" "nat (prefix_Bits p) + host_bits p = addr_len v6" "prefix_IsValid p"
    "range_addr p + 2 < range_last p"
proof -
  show "prefix_Addr p = fake_addr v6 (range_addr p)"
    using assms by (cases "prefix_Addr p") (auto simp: usable_def fake_addr_def range_addr_def prefix_proper_def split: if_splits)
  show "range_addr p < 2 ^ addr_len v6"
    using assms unat_less_pow by (cases "prefix_Addr p")
      (auto simp: usable_def addr_len_def range_addr_def split: if_splits)
  show "host_bits p \<le> addr_len v6" "nat (prefix_Bits p) + host_bits p = addr_len v6"
    using assms by (cases "prefix_Addr p"; auto simp: usable_def addr_len_def host_bits_def prefix_Bits_def prefix_proper_def
      split: if_splits)+
qed (use assms in \<open>auto simp: usable_def\<close>)

lemma broadcastAddress_4:
  assumes "prefix_Addr p = Addr4 a" "nat (prefix_Bits p) + h = 32"
  shows "broadcastAddress p = Addr4 (a OR mask h)"
proof -
  have "(0xffff00000000 :: u128) = push_bit 32 0xffff" by simp
  then have "\<not> bit (0xffff00000000 :: u128) n" if "n < 32" for n using that by (simp only: bit_push_bit_iff) simp
  then have "ucast (((0xffff00000000 OR ucast a) OR mask h) :: u128) = a OR mask h"
    using assms(2) by (intro bit_word_eqI) (auto simp: bit_ucast_iff bit_or_iff bit_mask_iff)
  moreover have "128 - (nat (prefix_Bits p) + 96) = h" using assms(2) by simp
  ultimately show ?thesis using assms by (simp add: broadcastAddress_def fold_set_mask)
qed

lemma broadcastAddress_6:
  assumes "prefix_Addr p = Addr6 a z" "nat (prefix_Bits p) + h = 128"
  shows "broadcastAddress p = Addr6 (a OR mask h) []"
proof -
  have "128 - nat (prefix_Bits p) = h" using assms(2) by simp
  then show ?thesis using assms by (simp add: broadcastAddress_def fold_set_mask)
qed

lemma broadcastAddress_usable:
  assumes "usable v6 p"
  shows "broadcastAddress p = fake_addr v6 (range_last p)" "range_last p < 2 ^ addr_len v6"
proof -
  note u = usableD [OF assms]
  have "broadcastAddress p = fake_addr v6 (range_last p) \<and> range_last p < 2 ^ addr_len v6"
  proof (cases v6)
    case True
    define w :: u128 where "w = of_nat (range_addr p)"
    have w: "unat w = range_addr p" using u(2) True by (simp add: w_def unat_of_nat addr_len_def)
    have "broadcastAddress p = Addr6 (w OR mask (host_bits p)) []"
      using u(1,4) True by (intro broadcastAddress_6) (auto simp: fake_addr_def w_def addr_len_def)
    moreover have r: "range_last p = unat (w OR mask (host_bits p))"
      using u(3) True w by (simp add: unat_or_mask range_last_def addr_len_def)
    moreover have "range_last p < 2 ^ 128" unfolding r using unat_less_pow by simp
    ultimately show ?thesis using True by (simp add: fake_addr_def addr_len_def)
  next
    case False
    define w :: u32 where "w = of_nat (range_addr p)"
    have w: "unat w = range_addr p" using u(2) False by (simp add: w_def unat_of_nat addr_len_def)
    have "broadcastAddress p = Addr4 (w OR mask (host_bits p))"
      using u(1,4) False by (intro broadcastAddress_4) (auto simp: fake_addr_def w_def addr_len_def)
    moreover have r: "range_last p = unat (w OR mask (host_bits p))"
      using u(3) False w by (simp add: unat_or_mask range_last_def addr_len_def)
    moreover have "range_last p < 2 ^ 32" unfolding r using unat_less_pow by simp
    ultimately show ?thesis using False by (simp add: fake_addr_def addr_len_def)
  qed
  then show "broadcastAddress p = fake_addr v6 (range_last p)" "range_last p < 2 ^ addr_len v6" by auto
qed

lemma unat_fake:
  "n < 2 ^ 32 \<Longrightarrow> unat (of_nat n :: u32) = n" "n < 2 ^ 128 \<Longrightarrow> unat (of_nat n :: u128) = n"
  by (simp_all add: unat_of_nat)

lemma addr_nat_fake: "n < 2 ^ addr_len v6 \<Longrightarrow> addr_nat (fake_addr v6 n) = n"
  using unat_fake by (auto simp: addr_len_def fake_addr_def)

lemma fake_addr_inject:
  assumes "n < 2 ^ addr_len v6" "m < 2 ^ addr_len v6"
  shows "fake_addr v6 n = fake_addr v6 m \<longleftrightarrow> n = m"
  using assms addr_nat_fake by metis

lemma fake_addr_simps [simp]:
  "addr_IsValid (fake_addr v6 n)" "addr_Is4 (fake_addr v6 n) \<longleftrightarrow> \<not> v6" "addr_Is6 (fake_addr v6 n) \<longleftrightarrow> v6"
  by (auto simp: fake_addr_def)

lemma fake_addr_family: "fake_addr v n = fake_addr w m \<Longrightarrow> v = w"
  by (metis fake_addr_simps(2))

lemma addr_Next_fake:
  assumes "Suc n < 2 ^ addr_len v6"
  shows "addr_Next (fake_addr v6 n) = fake_addr v6 (Suc n)"
proof -
  have "unat (of_nat (Suc n) :: u32) \<noteq> 0" if "\<not> v6" using assms that by (subst unat_fake) (simp_all add: addr_len_def)
  moreover have "unat (of_nat (Suc n) :: u128) \<noteq> 0" if v6 using assms that by (subst unat_fake) (simp_all add: addr_len_def)
  ultimately have "\<not> v6 \<Longrightarrow> (1 + of_nat n :: u32) \<noteq> 0" "v6 \<Longrightarrow> (1 + of_nat n :: u128) \<noteq> 0"
    by (metis of_nat_Suc unsigned_0)+
  then show ?thesis by (auto simp: fake_addr_def add.commute)
qed

lemma prefix_Contains_fake:
  assumes "usable v6 p" "n < 2 ^ addr_len v6"
  shows "prefix_Contains p (fake_addr v6 n) \<longleftrightarrow> range_addr p div 2 ^ host_bits p = n div 2 ^ host_bits p"
  using usableD (1,2,5) [OF assms(1)] assms(2) unat_fake
  by (cases v6) (simp_all add: fake_addr_def drop_bit_xor_0_iff drop_bit_eq_iff_div xor_eq_0_iff_eq addr_len_def)

lemma last_div: "0 < k \<Longrightarrow> (q * k + (k - 1)) div k = q" for q k :: nat
  by (rule div_nat_eqI) (simp_all add: algebra_simps)

lemma between_in_range:
  assumes "range_addr p \<le> n" "n \<le> range_last p"
  shows "range_addr p div 2 ^ host_bits p = n div 2 ^ host_bits p"
proof -
  let ?k = "2 ^ host_bits p :: nat"
  have "range_addr p div ?k \<le> n div ?k" using assms(1) by (rule div_le_mono)
  moreover have "n div ?k \<le> (range_addr p div ?k * ?k + (?k - 1)) div ?k"
    using assms(2) unfolding range_last_def by (rule div_le_mono)
  moreover have "(range_addr p div ?k * ?k + (?k - 1)) div ?k = range_addr p div ?k"
    by (rule last_div) simp
  ultimately show ?thesis by simp
qed

text \<open>The addresses are handed out in a cycle of \<open>pool_size\<close> numbers.\<close>

lemma next_address_cycle:
  assumes "usable v6 p" "range_addr p < n" "n < range_last p"
  shows "next_address p (broadcastAddress p) (fake_addr v6 n) =
    fake_addr v6 (if Suc n = range_last p then range_addr p + 2 else Suc n)"
proof -
  note u = usableD [OF assms(1)] broadcastAddress_usable [OF assms(1)]
  have "addr_Next (fake_addr v6 n) = fake_addr v6 (Suc n)" using assms u by (intro addr_Next_fake) simp
  moreover have "prefix_Contains p (fake_addr v6 (Suc n))"
    using assms u by (subst prefix_Contains_fake [OF assms(1)]) (auto intro!: between_in_range)
  moreover have "addr_Next (addr_Next (prefix_Addr p)) = fake_addr v6 (range_addr p + 2)"
    using u by (simp add: addr_Next_fake)
  moreover have "fake_addr v6 (Suc n) = broadcastAddress p \<longleftrightarrow> Suc n = range_last p"
    using assms u by (simp add: fake_addr_inject)
  ultimately show ?thesis by (simp add: next_address_def)
qed

lemma pool_size_pos: "usable v6 p \<Longrightarrow> 0 < pool_size p"
  by (simp add: usable_def pool_size_def)

lemma next_address_index:
  assumes "usable v6 p" "i < pool_size p"
  shows "next_address p (broadcastAddress p) (fake_addr v6 (range_addr p + 2 + i)) =
    fake_addr v6 (range_addr p + 2 + Suc i mod pool_size p)"
proof (cases "Suc i = pool_size p")
  case True
  then have "Suc (range_addr p + 2 + i) = range_last p" using usableD (6) [OF assms(1)] by (simp add: pool_size_def)
  then show ?thesis using next_address_cycle [OF assms(1), of "range_addr p + 2 + i"] True by simp
next
  case False
  then have "Suc (range_addr p + 2 + i) < range_last p" using assms(2) by (simp add: pool_size_def)
  then show ?thesis using next_address_cycle [OF assms(1), of "range_addr p + 2 + i"] False assms(2) by simp
qed

lemma next_address_first:
  assumes "usable v6 p"
  shows "next_address p (broadcastAddress p) (addr_Next (prefix_Addr p)) = fake_addr v6 (range_addr p + 2)"
proof -
  note u = usableD [OF assms] broadcastAddress_usable [OF assms]
  have "addr_Next (prefix_Addr p) = fake_addr v6 (Suc (range_addr p))" using u by (simp add: addr_Next_fake)
  then show ?thesis using next_address_cycle [OF assms, of "Suc (range_addr p)"] u by simp
qed

subsection \<open>The store over a storage\<close>

definition range_of :: "bool \<Rightarrow> 'st Store \<Rightarrow> Prefix" where
  "range_of v6 s = (if v6 then inet6Range s else inet4Range s)"

definition last_of :: "bool \<Rightarrow> 'st Store \<Rightarrow> Addr" where
  "last_of v6 s = (if v6 then inet6Last s else inet4Last s)"

definition current_of :: "bool \<Rightarrow> 'st Store \<Rightarrow> Addr" where
  "current_of v6 s = (if v6 then inet6Current s else inet4Current s)"

definition set_current :: "bool \<Rightarrow> Addr \<Rightarrow> 'st Store \<Rightarrow> 'st Store" where
  "set_current v6 a s = (if v6 then s\<lparr>inet6Current := a\<rparr> else s\<lparr>inet4Current := a\<rparr>)"

definition pool :: "bool \<Rightarrow> Prefix \<Rightarrow> Addr set" where
  "pool v6 p = fake_addr v6 ` {range_addr p + 2..<range_last p}"

definition family_ok :: "'st storage_ops \<Rightarrow> (Addr \<Rightarrow> bool) \<Rightarrow> bool \<Rightarrow> 'st \<Rightarrow> 'st Store \<Rightarrow> bool" where
  "family_ok ops good v6 st s \<longleftrightarrow>
     (if prefix_IsValid (range_of v6 s) then
        usable v6 (range_of v6 s) \<and> last_of v6 s = broadcastAddress (range_of v6 s) \<and>
        (\<forall>a\<in>pool v6 (range_of v6 s). good a) \<and>
        (\<exists>n. range_addr (range_of v6 s) < n \<and> n < range_last (range_of v6 s) \<and> current_of v6 s = fake_addr v6 n) \<and>
        (\<forall>a\<in>pool v6 (range_of v6 s). \<forall>d. so_Load ops st a = Some d \<longleftrightarrow> so_LoadDomain ops st d v6 = Some a) \<and>
        (\<forall>d a. so_LoadDomain ops st d v6 = Some a \<longrightarrow> a \<in> pool v6 (range_of v6 s))
      else \<not> addr_IsValid (current_of v6 s) \<and> (\<forall>d. so_LoadDomain ops st d v6 = None))"

definition store_ok :: "'st storage_ops \<Rightarrow> (Addr \<Rightarrow> bool) \<Rightarrow> ('st \<Rightarrow> bool) \<Rightarrow> 'st Store \<Rightarrow> bool" where
  "store_ok ops good stinv s \<longleftrightarrow> (\<exists>st. storage s = Some st \<and> stinv st \<and> (\<forall>v6. family_ok ops good v6 st s))"

definition create_all :: "'st storage_ops \<Rightarrow> (string \<times> bool) list \<Rightarrow> 'st Store \<Rightarrow> 'st Store" where
  "create_all ops cs s = fold (\<lambda>(d, v6) s. snd (Store_Create ops d v6 s)) cs s"

lemma set_current_simps [simp]:
  "range_of w (set_current v a s) = range_of w s" "last_of w (set_current v a s) = last_of w s"
  "current_of w (set_current v a s) = (if w = v then a else current_of w s)" "storage (set_current v a s) = storage s"
  "range_of w (s\<lparr>storage := x\<rparr>) = range_of w s" "last_of w (s\<lparr>storage := x\<rparr>) = last_of w s"
  "current_of w (s\<lparr>storage := x\<rparr>) = current_of w s"
  by (auto simp: set_current_def range_of_def last_of_def current_of_def)

lemma Store_Create_eq: "Store_Create ops d v6 s = Create_locked ops d v6 s"
  by (simp add: Store_Create_def Create_locked_def split: option.splits)

lemma Create_locked_eq:
  assumes "storage s = Some st"
  shows "Create_locked ops d v6 s =
    (case so_LoadDomain ops st d v6 of
       Some a \<Rightarrow> (Inr a, s)
     | None \<Rightarrow>
         if \<not> addr_IsValid (current_of v6 s)
         then (Inl (ENew (if v6 then ''missing IPv6 fakeip address range'' else ''missing IPv4 fakeip address range'')), s)
         else let a = next_address (range_of v6 s) (last_of v6 s) (current_of v6 s)
              in save_address ops st a d (set_current v6 a s))"
  using assms
  by (simp add: Create_locked_def range_of_def last_of_def current_of_def set_current_def split: option.splits)

text \<open>
  What the store relies on. \<open>good\<close> are the addresses the storage keeps faithfully and \<open>okd\<close> the
  domains; \<open>stinv\<close> is an invariant of the storage.
\<close>

locale fakeip_storage =
  fixes ops :: "'st storage_ops" and good :: "Addr \<Rightarrow> bool" and okd :: "string \<Rightarrow> bool" and stinv :: "'st \<Rightarrow> bool"
  assumes store_inv: "stinv st \<Longrightarrow> good a \<Longrightarrow> okd d \<Longrightarrow> stinv (snd (so_Store ops a d st))"
    and load_store: "stinv st \<Longrightarrow> good a \<Longrightarrow> okd d \<Longrightarrow> good b \<Longrightarrow>
      so_Load ops (snd (so_Store ops a d st)) b = (if b = a then Some d else so_Load ops st b)"
    and load_domain_store: "stinv st \<Longrightarrow> good a \<Longrightarrow> okd d \<Longrightarrow>
      so_LoadDomain ops (snd (so_Store ops a d st)) d' w =
        (if w = addr_Is4 a then so_LoadDomain ops st d' w else if d' = d then Some a
         else if so_Load ops st a = Some d' then None else so_LoadDomain ops st d' w)"
    and async_inv: "stinv st \<Longrightarrow> stinv (so_SaveMetadataAsync ops m st)"
    and async_load: "so_Load ops (so_SaveMetadataAsync ops m st) = so_Load ops st"
      "so_LoadDomain ops (so_SaveMetadataAsync ops m st) = so_LoadDomain ops st"
    and reset: "stinv st \<Longrightarrow> stinv (snd (so_Reset ops st))"
      "stinv st \<Longrightarrow> good a \<Longrightarrow> so_Load ops (snd (so_Reset ops st)) a = None"
      "stinv st \<Longrightarrow> so_LoadDomain ops (snd (so_Reset ops st)) d w = None"
    and metadata_inv: "stinv st \<Longrightarrow> stinv (snd (so_Metadata ops st))"
begin

lemma save_other_family:
  assumes "stinv st" "good a" "okd d" "addr_Is4 a = w" "family_ok ops good w st s" "a \<notin> pool w (range_of w s)"
  shows "family_ok ops good w (so_SaveMetadataAsync ops m (snd (so_Store ops a d st)))
    ((set_current (\<not> w) a s)\<lparr>storage := x\<rparr>)"
  using assms unfolding family_ok_def async_load
  by (auto simp: load_store load_domain_store)

lemma save_same_family:
  assumes "stinv st" "okd d" "family_ok ops good v st s" "prefix_IsValid (range_of v s)"
    and "so_LoadDomain ops st d v = None" "a = fake_addr v n" "range_addr (range_of v s) + 2 \<le> n" "n < range_last (range_of v s)"
  shows "family_ok ops good v (so_SaveMetadataAsync ops m (snd (so_Store ops a d st)))
    ((set_current v a s)\<lparr>storage := x\<rparr>)"
proof -
  let ?p = "range_of v s"
  have a: "a \<in> pool v ?p" "addr_Is4 a \<longleftrightarrow> \<not> v" using assms by (auto simp: pool_def)
  have ok: "\<forall>a\<in>pool v ?p. good a" "\<forall>a\<in>pool v ?p. \<forall>d. so_Load ops st a = Some d \<longleftrightarrow> so_LoadDomain ops st d v = Some a"
    "\<forall>d a. so_LoadDomain ops st d v = Some a \<longrightarrow> a \<in> pool v ?p" "usable v ?p" "last_of v s = broadcastAddress ?p"
    using assms by (auto simp: family_ok_def)
  have g: "good a" using ok a by blast
  have L: "so_Load ops (snd (so_Store ops a d st)) b = (if b = a then Some d else so_Load ops st b)" if "b \<in> pool v ?p" for b
    using load_store assms g ok that by blast
  have D: "so_LoadDomain ops (snd (so_Store ops a d st)) d' v =
      (if d' = d then Some a else if so_Load ops st a = Some d' then None else so_LoadDomain ops st d' v)" for d'
    using load_domain_store [OF assms(1) g assms(2), of d' v] a by simp
  have "so_Load ops (snd (so_Store ops a d st)) b = Some d' \<longleftrightarrow> so_LoadDomain ops (snd (so_Store ops a d st)) d' v = Some b"
    if "b \<in> pool v ?p" for b d'
    using L [OF that] D [of d'] ok(2) that a(1) assms(5) by (metis option.distinct(1) option.inject)
  moreover have "b \<in> pool v ?p" if "so_LoadDomain ops (snd (so_Store ops a d st)) d' v = Some b" for b d'
    using that a ok(3) by (auto simp: D split: if_splits)
  moreover have "\<exists>n. range_addr ?p < n \<and> n < range_last ?p \<and> a = fake_addr v n" using assms by (intro exI [of _ n]) simp
  ultimately show ?thesis using ok assms(4) unfolding family_ok_def async_load by simp
qed

text \<open>The position after one more address has been handed out.\<close>

lemma next_in_pool:
  assumes "family_ok ops good v st s" "prefix_IsValid (range_of v s)"
  shows "\<exists>n. next_address (range_of v s) (last_of v s) (current_of v s) = fake_addr v n \<and>
    range_addr (range_of v s) + 2 \<le> n \<and> n < range_last (range_of v s)"
proof -
  obtain n where "usable v (range_of v s)" "last_of v s = broadcastAddress (range_of v s)"
    "range_addr (range_of v s) < n" "n < range_last (range_of v s)" "current_of v s = fake_addr v n"
    using assms by (auto simp: family_ok_def)
  then show ?thesis
    using next_address_cycle [of v "range_of v s" n] usableD (6) [of v "range_of v s"]
    by (auto intro!: exI [of _ "if Suc n = range_last (range_of v s) then range_addr (range_of v s) + 2 else Suc n"])
qed

lemma Create_locked_cases:
  assumes "store_ok ops good stinv s" "okd d" "Create_locked ops d v s = (r, s')" "storage s = Some st"
  obtains (hit) a where "so_LoadDomain ops st d v = Some a" "r = Inr a" "s' = s" "prefix_IsValid (range_of v s)"
  | (no_range) msg where "\<not> prefix_IsValid (range_of v s)" "r = Inl (ENew msg)" "s' = s"
  | (fresh) st' where "prefix_IsValid (range_of v s)" "so_LoadDomain ops st d v = None"
      "r = Inr (next_address (range_of v s) (last_of v s) (current_of v s))"
      "s' = (set_current v (next_address (range_of v s) (last_of v s) (current_of v s)) s)\<lparr>storage := Some st'\<rparr>"
      "st' = so_SaveMetadataAsync ops (Store_metadata (set_current v (next_address (range_of v s) (last_of v s) (current_of v s)) s))
         (snd (so_Store ops (next_address (range_of v s) (last_of v s) (current_of v s)) d st))"
proof -
  have f: "family_ok ops good v st s" using assms by (simp add: store_ok_def)
  show ?thesis
  proof (cases "so_LoadDomain ops st d v")
    case (Some a)
    then have "prefix_IsValid (range_of v s)" using f by (simp add: family_ok_def split: if_splits)
    then show ?thesis using hit Some assms(3) by (simp add: Create_locked_eq [OF assms(4)])
  next
    case None
    show ?thesis
    proof (cases "prefix_IsValid (range_of v s)")
      case True
      then have "addr_IsValid (current_of v s)" using f by (auto simp: family_ok_def)
      then show ?thesis
        using fresh True None assms(3) by (simp add: Create_locked_eq [OF assms(4)] save_address_def Let_def)
    next
      case False
      then have "\<not> addr_IsValid (current_of v s)" using f by (auto simp: family_ok_def)
      then show ?thesis using no_range [OF False] None assms(3) by (auto simp: Create_locked_eq [OF assms(4)])
    qed
  qed
qed

lemma Create_locked_ok:
  assumes "store_ok ops good stinv s" "okd d" "Create_locked ops d v s = (r, s')"
  shows "store_ok ops good stinv s' \<and> (\<forall>w. range_of w s' = range_of w s)"
proof -
  obtain st where st: "storage s = Some st" "stinv st" "\<And>v6. family_ok ops good v6 st s"
    using assms(1) by (auto simp: store_ok_def)
  from assms st(1) show ?thesis
  proof (cases rule: Create_locked_cases)
    case (fresh st')
    obtain n where n: "next_address (range_of v s) (last_of v s) (current_of v s) = fake_addr v n"
      "range_addr (range_of v s) + 2 \<le> n" "n < range_last (range_of v s)"
      using next_in_pool [OF st(3) fresh(1)] by blast
    have g: "good (fake_addr v n)" using st(3) [of v] fresh(1) n by (auto simp: family_ok_def pool_def)
    have "family_ok ops good v st' s'"
      using save_same_family [OF st(2) assms(2) st(3) fresh(1,2) refl n(2,3)] fresh n by simp
    moreover have "family_ok ops good (\<not> v) st' s'"
      using save_other_family [OF st(2) g assms(2) _ st(3) [of "\<not> v"]] fresh n fake_addr_family
      by (fastforce simp: pool_def)
    ultimately have "\<forall>w. family_ok ops good w st' s'" by (cases v) (simp_all add: all_bool_eq)
    moreover have "stinv st'" using fresh(5) n st(2) g assms(2) by (simp add: async_inv store_inv)
    ultimately show ?thesis using fresh by (auto simp: store_ok_def)
  qed (use assms in auto)
qed

lemma Create_locked_result:
  assumes "store_ok ops good stinv s" "okd d" "Create_locked ops d v s = (r, s')"
  shows "if prefix_IsValid (range_of v s)
    then \<exists>a. r = Inr a \<and> a \<in> pool v (range_of v s) \<and> Store_Lookup ops s' a = Inr (Some d) \<and> Create_locked ops d v s' = (Inr a, s')
    else \<exists>msg. r = Inl (ENew msg) \<and> s' = s"
proof -
  obtain st where st: "storage s = Some st" "stinv st" "\<And>v6. family_ok ops good v6 st s"
    using assms(1) by (auto simp: store_ok_def)
  have ok': "store_ok ops good stinv s'" "\<And>w. range_of w s' = range_of w s"
    using Create_locked_ok [OF assms] by auto
  then obtain st' where st': "storage s' = Some st'" "family_ok ops good v st' s'" by (auto simp: store_ok_def)
  have found: "a \<in> pool v (range_of v s) \<and> Store_Lookup ops s' a = Inr (Some d) \<and> Create_locked ops d v s' = (Inr a, s')"
    if "so_LoadDomain ops st' d v = Some a" "prefix_IsValid (range_of v s)" for a
    using that st' ok'(2) by (auto simp: family_ok_def Store_Lookup_def Create_locked_eq)
  from assms st(1) show ?thesis
  proof (cases rule: Create_locked_cases)
    case (hit a)
    then show ?thesis using found [of a] st(1) st'(1) by simp
  next
    case (fresh st'')
    obtain n where n: "next_address (range_of v s) (last_of v s) (current_of v s) = fake_addr v n"
      "range_addr (range_of v s) + 2 \<le> n" "n < range_last (range_of v s)"
      using next_in_pool [OF st(3) fresh(1)] by blast
    have "good (fake_addr v n)" using st(3) [of v] fresh(1) n by (auto simp: family_ok_def pool_def)
    then have "so_LoadDomain ops st' d v = Some (fake_addr v n)"
      using fresh n st st'(1) assms(2) by (auto simp: async_load load_domain_store)
    then show ?thesis using found fresh n by simp
  qed auto
qed

lemma create_all_ok:
  assumes "store_ok ops good stinv s" "\<forall>c\<in>set cs. okd (fst c)"
  shows "store_ok ops good stinv (create_all ops cs s) \<and> (\<forall>w. range_of w (create_all ops cs s) = range_of w s)"
  using assms
proof (induction cs arbitrary: s)
  case Nil
  then show ?case by (simp add: create_all_def)
next
  case (Cons c cs)
  obtain d v r s' where c: "c = (d, v)" "Create_locked ops d v s = (r, s')" by (metis surj_pair)
  have "store_ok ops good stinv s' \<and> (\<forall>w. range_of w s' = range_of w s)"
    using Create_locked_ok [of s d v r s'] Cons.prems c by simp
  then show ?case using Cons.IH [of s'] Cons.prems c by (simp add: create_all_def Store_Create_eq)
qed

text \<open>
  An address handed out at index \<open>i\<close> of the cycle keeps its domain while the position has moved by less
  than the length of the cycle.
\<close>

definition kept_at :: "bool \<Rightarrow> Prefix \<Rightarrow> nat \<Rightarrow> nat \<Rightarrow> string \<Rightarrow> 'st Store \<Rightarrow> bool" where
  "kept_at v p i k d s \<longleftrightarrow>
     Store_Lookup ops s (fake_addr v (range_addr p + 2 + i)) = Inr (Some d) \<and>
     current_of v s = fake_addr v (range_addr p + 2 + (i + k) mod pool_size p)"

lemma kept_step:
  assumes "store_ok ops good stinv s" "okd e" "Create_locked ops e w s = (r, s')" "range_of v s = p" "prefix_IsValid p"
    and "i < pool_size p" "kept_at v p i k d s" "Suc k < pool_size p"
  shows "kept_at v p i k d s' \<or> kept_at v p i (Suc k) d s'"
proof -
  let ?a = "fake_addr v (range_addr p + 2 + i)"
  obtain st where st: "storage s = Some st" "stinv st" "\<And>v6. family_ok ops good v6 st s"
    using assms(1) by (auto simp: store_ok_def)
  have u: "usable v p" "last_of v s = broadcastAddress p" "\<forall>a\<in>pool v p. good a"
    using st(3) [of v] assms(4,5) by (auto simp: family_ok_def)
  have a: "good ?a" using u assms(6) by (auto simp: pool_def pool_size_def)
  from assms(1-3) st(1) show ?thesis
  proof (cases rule: Create_locked_cases)
    case (fresh st')
    obtain n where n: "next_address (range_of w s) (last_of w s) (current_of w s) = fake_addr w n"
      "range_addr (range_of w s) + 2 \<le> n" "n < range_last (range_of w s)"
      using next_in_pool [OF st(3) fresh(1)] by blast
    have "good (fake_addr w n)" using st(3) [of w] fresh(1) n by (auto simp: family_ok_def pool_def)
    then have L: "so_Load ops st' ?a = (if ?a = fake_addr w n then Some e else so_Load ops st ?a)"
      using fresh n st(2) a assms(2) by (simp add: async_load load_store)
    show ?thesis
    proof (cases "w = v")
      case True
      let ?j = "(i + k) mod pool_size p"
      have j: "?j < pool_size p" "Suc ?j mod pool_size p = (i + Suc k) mod pool_size p" "(i + Suc k) mod pool_size p < pool_size p"
        using pool_size_pos [OF u(1)] by (simp_all add: mod_Suc_eq)
      have "fake_addr w n = fake_addr v (range_addr p + 2 + (i + Suc k) mod pool_size p)"
        using next_address_index [OF u(1) j(1)] assms(4,7) u(2) n(1) True j(2) by (simp add: kept_at_def)
      moreover have "(i + Suc k) mod pool_size p \<noteq> i"
        using assms(6,8) by (auto simp: mod_if)
      then have "?a \<noteq> fake_addr v (range_addr p + 2 + (i + Suc k) mod pool_size p)"
        using broadcastAddress_usable (2) [OF u(1)] j(3) assms(6) usableD (6) [OF u(1)] less_diff_conv
        by (subst fake_addr_inject) (auto simp: pool_size_def)
      ultimately show ?thesis
        using fresh n L True assms(7) st(1) by (auto simp: kept_at_def Store_Lookup_def)
    next
      case False
      then have "?a \<noteq> fake_addr w n" using fake_addr_family by blast
      then show ?thesis using fresh n L False assms(7) st(1) by (auto simp: kept_at_def Store_Lookup_def)
    qed
  qed (use assms in auto)
qed

lemma kept_all:
  assumes "store_ok ops good stinv s" "range_of v s = p" "prefix_IsValid p" "i < pool_size p" "kept_at v p i k d s"
    and "\<forall>c\<in>set cs. okd (fst c)" "k + length cs < pool_size p"
  shows "Store_Lookup ops (create_all ops cs s) (fake_addr v (range_addr p + 2 + i)) = Inr (Some d)"
  using assms
proof (induction cs arbitrary: s k)
  case Nil
  then show ?case by (simp add: create_all_def kept_at_def)
next
  case (Cons c cs)
  obtain e w r s' where c: "c = (e, w)" "Create_locked ops e w s = (r, s')" by (metis surj_pair)
  have ok: "store_ok ops good stinv s'" "range_of v s' = p"
    using Create_locked_ok [of s e w r s'] Cons.prems c by auto
  have "kept_at v p i k d s' \<or> kept_at v p i (Suc k) d s'"
    using kept_step [OF Cons.prems(1) _ c(2) Cons.prems(2-5)] Cons.prems(6,7) c(1) by simp
  then have "Store_Lookup ops (create_all ops cs s') (fake_addr v (range_addr p + 2 + i)) = Inr (Some d)"
    using Cons.IH [OF ok Cons.prems(3,4)] Cons.prems(6,7) by auto
  then show ?case using c by (simp add: create_all_def Store_Create_eq)
qed

lemma fresh_address_kept:
  assumes "store_ok ops good stinv s" "okd d" "storage s = Some st" "so_LoadDomain ops st d v = None"
    and "Create_locked ops d v s = (Inr a, s')" "\<forall>c\<in>set cs. okd (fst c)" "length cs < pool_size (range_of v s)"
  shows "Store_Lookup ops (create_all ops cs s') a = Inr (Some d)"
proof -
  have valid: "prefix_IsValid (range_of v s)" and a: "a \<in> pool v (range_of v s)" "Store_Lookup ops s' a = Inr (Some d)"
    using Create_locked_result [OF assms(1,2,5)] by (auto split: if_splits)
  obtain n where n: "a = fake_addr v n" "range_addr (range_of v s) + 2 \<le> n" "n < range_last (range_of v s)"
    using a(1) by (auto simp: pool_def)
  define i where "i = n - (range_addr (range_of v s) + 2)"
  have i: "n = range_addr (range_of v s) + 2 + i" "i < pool_size (range_of v s)"
    using n by (auto simp: i_def pool_size_def)
  have "current_of v s' = a"
    using assms(1,2,5,3) by (cases rule: Create_locked_cases) (use assms(4) in auto)
  then have "kept_at v (range_of v s) i 0 d s'" using a n(1) i by (simp add: kept_at_def)
  then show ?thesis
    using kept_all [OF _ _ valid i(2) _ assms(6), of s' v 0 d] Create_locked_ok [OF assms(1,2,5)] assms(7) n(1) i(1)
    by simp
qed

text \<open>A new store, started on a storage without metadata.\<close>

lemma Store_Start_fresh_ok:
  assumes "stinv st" "fst (so_Metadata ops st) = None"
    and "\<And>v. let p = (if v then r6 else r4) in prefix_IsValid p \<longrightarrow> usable v p \<and> (\<forall>a\<in>pool v p. good a)"
  shows "store_ok ops good stinv (Store_Start ops st (NewStore r4 r6))"
proof -
  obtain st1 where st1: "so_Metadata ops st = (None, st1)" using assms(2) by (metis prod.collapse)
  let ?st = "snd (so_Reset ops st1)"
  have inv: "stinv st1" "stinv ?st" using metadata_inv [OF assms(1)] st1 reset(1) by auto
  have s: "Store_Start ops st (NewStore r4 r6) = start_fresh ops st1 (NewStore r4 r6)"
    by (simp add: Store_Start_def st1)
  have "family_ok ops good v ?st (start_fresh ops st1 (NewStore r4 r6))" for v
  proof -
    let ?p = "if v then r6 else r4" and ?s = "start_fresh ops st1 (NewStore r4 r6)"
    have r: "range_of v ?s = ?p" by (simp add: range_of_def start_fresh_def NewStore_def)
    show ?thesis
    proof (cases "prefix_IsValid ?p")
      case True
      then have u: "usable v ?p" "\<forall>a\<in>pool v ?p. good a" using assms(3) [of v] by (auto simp: Let_def)
      have "addr_Next (prefix_Addr ?p) = fake_addr v (Suc (range_addr ?p))"
        using usableD (1) [OF u(1)] usableD (6) [OF u(1)] broadcastAddress_usable (2) [OF u(1)]
          addr_Next_fake [of "range_addr ?p" v] by simp
      moreover have "current_of v ?s = addr_Next (prefix_Addr ?p)" "last_of v ?s = broadcastAddress ?p"
        using True by (auto simp: current_of_def last_of_def start_fresh_def NewStore_def split: if_splits)
      ultimately show ?thesis
        using u True usableD (6) [OF u(1)] reset(2,3) [OF inv(1)]
        by (auto simp: family_ok_def r intro!: exI [of _ "Suc (range_addr ?p)"])
    next
      case False
      then show ?thesis
        using reset(3) [OF inv(1)] r
        by (cases v) (simp_all add: family_ok_def current_of_def start_fresh_def NewStore_def range_of_def)
    qed
  qed
  then show ?thesis using inv s by (simp add: store_ok_def start_fresh_def)
qed

end

text \<open>The storage in memory keeps every address and every domain.\<close>

interpretation memory: fakeip_storage memory_ops "\<lambda>_. True" "\<lambda>_. True" "\<lambda>_. True"
  by unfold_locales
    (auto simp: memory_ops_def Memory_FakeIPStore_def Memory_FakeIPLoadDomain_def Memory_FakeIPReset_def Let_def split: option.splits)

subsection \<open>The binary form of the position\<close>

lemma get_put_element:
  assumes "length data < 65536"
  shows "get_element (put_element data @ rest) = Inr (data, rest)"
  using assms by (simp add: get_element_def put_element_def be_value_be_bytes_less)

text \<open>The zone of an address must leave its binary form shorter than 65536 bytes.\<close>

definition metadata_proper :: "FakeIPMetadata \<Rightarrow> bool" where
  "metadata_proper m \<longleftrightarrow> prefix_proper (Inet4Range m) \<and> prefix_proper (Inet6Range m) \<and>
     length (addr_MarshalBinary (Inet4Current m)) < 65536 \<and> length (addr_MarshalBinary (Inet6Current m)) < 65536"

lemma Unmarshal_Marshal:
  assumes "metadata_proper m"
  shows "UnmarshalBinary (MarshalBinary m) = Inr m"
proof -
  have "length (prefix_MarshalBinary (Inet4Range m)) < 65536" "length (prefix_MarshalBinary (Inet6Range m)) < 65536"
    using assms prefix_MarshalBinary_length [of "Inet4Range m"] prefix_MarshalBinary_length [of "Inet6Range m"]
    by (simp_all add: metadata_proper_def)
  moreover have "get_element (put_element data) = Inr (data, [])" if "length data < 65536" for data
    using get_put_element [OF that, of "[]"] by simp
  ultimately show ?thesis
    using assms by (simp add: UnmarshalBinary_def MarshalBinary_def get_put_element metadata_proper_def prefix_round_trip
        addr_round_trip)
qed

subsection \<open>Properties\<close>

text \<open>A store over memory after some requests.\<close>

definition memory_store :: "Prefix \<Rightarrow> Prefix \<Rightarrow> (string \<times> bool) list \<Rightarrow> MemoryStorage Store" where
  "memory_store r4 r6 requests =
     create_all memory_ops requests (Store_Start memory_ops NewMemoryStorage (NewStore r4 r6))"

definition ranges_usable :: "Prefix \<Rightarrow> Prefix \<Rightarrow> bool" where
  "ranges_usable r4 r6 \<longleftrightarrow> (prefix_IsValid r4 \<longrightarrow> usable False r4) \<and> (prefix_IsValid r6 \<longrightarrow> usable True r6)"

lemma memory_store_ok:
  assumes "ranges_usable r4 r6"
  shows "store_ok memory_ops (\<lambda>_. True) (\<lambda>_. True) (memory_store r4 r6 requests)"
    "range_of v (memory_store r4 r6 requests) = (if v then r6 else r4)"
proof -
  let ?s = "Store_Start memory_ops NewMemoryStorage (NewStore r4 r6)"
  have ok: "store_ok memory_ops (\<lambda>_. True) (\<lambda>_. True) ?s"
    using assms by (intro memory.Store_Start_fresh_ok) (auto simp: memory_ops_def ranges_usable_def)
  then show "store_ok memory_ops (\<lambda>_. True) (\<lambda>_. True) (memory_store r4 r6 requests)"
    using memory.create_all_ok by (simp add: memory_store_def)
  have "range_of v ?s = (if v then r6 else r4)"
    by (simp add: Store_Start_def memory_ops_def start_fresh_def NewStore_def range_of_def)
  then show "range_of v (memory_store r4 r6 requests) = (if v then r6 else r4)"
    using memory.create_all_ok [OF ok, of requests] by (simp add: memory_store_def)
qed

lemma pool_contained:
  assumes u: "usable v p" and "range_of v s = p" "a \<in> pool v p"
  shows "Store_Contains s a"
proof -
  obtain n where n: "a = fake_addr v n" "range_addr p + 2 \<le> n" "n < range_last p" using assms(3) by (auto simp: pool_def)
  then have "prefix_Contains p a"
    using broadcastAddress_usable (2) [OF u] by (simp add: prefix_Contains_fake [OF u] between_in_range)
  then show ?thesis using assms(2) by (auto simp: Store_Contains_def range_of_def split: if_splits)
qed

text \<open>
  C20: whatever was requested before, \<open>Create\<close> gives an address when the family's range is configured
  and an error when it is not. The address lies in the range, above the second address and below the
  broadcast address; looking it up gives the domain, and asking again gives the same address and
  changes nothing.
\<close>

theorem fakeip_create:
  assumes "ranges_usable r4 r6" "s = memory_store r4 r6 requests" "Store_Create memory_ops domain v6 s = (r, s')"
    and "p = (if v6 then r6 else r4)"
  shows "if prefix_IsValid p
    then \<exists>a n. r = Inr a \<and> a = fake_addr v6 n \<and> range_addr p + 2 \<le> n \<and> n < range_last p \<and> Store_Contains s' a \<and>
      Store_Lookup memory_ops s' a = Inr (Some domain) \<and> Store_Create memory_ops domain v6 s' = (Inr a, s')
    else \<exists>msg. r = Inl (ENew msg) \<and> s' = s"
proof -
  have ok: "store_ok memory_ops (\<lambda>_. True) (\<lambda>_. True) s" "range_of v6 s = p"
    using memory_store_ok [OF assms(1)] assms(2,4) by auto
  have c: "Create_locked memory_ops domain v6 s = (r, s')" using assms(3) by (simp add: Store_Create_eq)
  note res = memory.Create_locked_result [OF ok(1) TrueI c]
  have r': "range_of v6 s' = p" using memory.Create_locked_ok [OF ok(1) TrueI c] ok(2) by simp
  show ?thesis
  proof (cases "prefix_IsValid p")
    case True
    then obtain a where a: "r = Inr a" "a \<in> pool v6 p" "Store_Lookup memory_ops s' a = Inr (Some domain)"
      "Create_locked memory_ops domain v6 s' = (Inr a, s')" using res ok(2) by auto
    have u: "usable v6 p" using assms(1,4) True by (auto simp: ranges_usable_def split: if_splits)
    obtain n where n: "a = fake_addr v6 n" "range_addr p + 2 \<le> n" "n < range_last p" using a(2) by (auto simp: pool_def)
    have "Store_Contains s' a" by (rule pool_contained [OF u r' a(2)])
    then show ?thesis using True a n by (auto simp: Store_Create_eq)
  next
    case False
    then show ?thesis using res ok(2) by simp
  qed
qed

definition sample_range :: Prefix where
  "sample_range = prefix_From (Addr4 0xc6120000) 15"

lemma sample_range: "ranges_usable sample_range prefix_zero" "prefix_IsValid sample_range"
  "range_addr sample_range = 3323068416" "range_last sample_range = 3323199487" "pool_size sample_range = 131069"
  by (simp_all add: sample_range_def ranges_usable_def usable_def prefix_From_def prefix_IsValid_def prefix_proper_def
      range_addr_def range_last_def host_bits_def prefix_Bits_def pool_size_def)

theorem fakeip_create_witness:
  "\<exists>a. fst (Store_Create memory_ops ''example.org'' False (memory_store sample_range prefix_zero [(''a.org'', False)])) = Inr a"
proof -
  let ?s = "memory_store sample_range prefix_zero [(''a.org'', False)]"
  obtain r s' where c: "Store_Create memory_ops ''example.org'' False ?s = (r, s')" by (metis surj_pair)
  from fakeip_create [OF sample_range(1) refl c refl] show ?thesis using sample_range(2) c by auto
qed

text \<open>
  C18: an address that \<open>Create\<close> has handed out for a new domain keeps leading to that domain while
  fewer further addresses are requested than the range has: the store reuses the oldest address only
  after going once round the range.
\<close>

theorem fakeip_stable:
  assumes "ranges_usable r4 r6" "s = memory_store r4 r6 earlier" "p = (if v6 then r6 else r4)"
    and "storage s = Some st" "so_LoadDomain memory_ops st domain v6 = None"
    and "Store_Create memory_ops domain v6 s = (Inr a, s')" "length later < pool_size p"
  shows "Store_Lookup memory_ops (create_all memory_ops later s') a = Inr (Some domain)"
  using memory.fresh_address_kept [where s = s and v = v6 and d = domain and st = st and a = a and s' = s' and cs = later]
    memory_store_ok [OF assms(1), where requests = earlier] assms(2-7)
  by (simp add: Store_Create_eq)

theorem fakeip_stable_witness:
  "\<exists>a s'. Store_Create memory_ops ''example.org'' False (memory_store sample_range prefix_zero []) = (Inr a, s') \<and>
     Store_Lookup memory_ops (create_all memory_ops [(''b.org'', False), (''c.org'', True)] s') a = Inr (Some ''example.org'')"
proof -
  let ?s = "memory_store sample_range prefix_zero []"
  have st: "storage ?s = Some NewMemoryStorage" "so_LoadDomain memory_ops NewMemoryStorage ''example.org'' False = None"
    by (simp_all add: memory_store_def create_all_def Store_Start_def start_fresh_def memory_ops_def Memory_FakeIPReset_def
        NewMemoryStorage_def Memory_FakeIPLoadDomain_def)
  obtain r s' where c': "Create_locked memory_ops ''example.org'' False ?s = (r, s')" by (metis surj_pair)
  then obtain a where c: "Store_Create memory_ops ''example.org'' False ?s = (Inr a, s')"
    using memory.Create_locked_result [OF memory_store_ok(1) [OF sample_range(1)] TrueI c']
      memory_store_ok(2) [OF sample_range(1), of False "[]"] sample_range(2) by (auto simp: Store_Create_eq)
  show ?thesis
    using fakeip_stable [OF sample_range(1) refl refl st(1) _ c, of "[(''b.org'', False), (''c.org'', True)]"] st(2) c
    by (simp add: sample_range(5))
qed

text \<open>
  The two directions of the store are inverse to each other: an address of the pool leads to a
  domain exactly when that domain's entry for the family is the address. In particular no two domains
  share an address.
\<close>

theorem fakeip_maps_inverse:
  assumes "ranges_usable r4 r6" "storage (memory_store r4 r6 requests) = Some st"
    and "p = (if v6 then r6 else r4)" "prefix_IsValid p" "range_addr p + 2 \<le> n" "n < range_last p"
  shows "addressCache st (fake_addr v6 n) = Some domain \<longleftrightarrow> Memory_FakeIPLoadDomain st domain v6 = Some (fake_addr v6 n)"
proof -
  have "family_ok memory_ops (\<lambda>_. True) v6 st (memory_store r4 r6 requests)"
    using memory_store_ok(1) [OF assms(1), of requests] assms(2) by (auto simp: store_ok_def)
  then show ?thesis
    using memory_store_ok(2) [OF assms(1), of v6 requests] assms(3-6)
    by (simp add: family_ok_def pool_def memory_ops_def)
qed

theorem fakeip_maps_inverse_witness:
  "\<exists>st. storage (memory_store sample_range prefix_zero [(''a.org'', False)]) = Some st \<and>
     (addressCache st (fake_addr False 3323068418) = Some ''a.org'' \<longleftrightarrow>
      Memory_FakeIPLoadDomain st ''a.org'' False = Some (fake_addr False 3323068418))"
proof -
  obtain st where st: "storage (memory_store sample_range prefix_zero [(''a.org'', False)]) = Some st"
    using memory_store_ok(1) [OF sample_range(1)] by (auto simp: store_ok_def)
  from fakeip_maps_inverse [OF sample_range(1) st refl, of False 3323068418 "''a.org''"] show ?thesis
    using st by (simp add: sample_range)
qed

text \<open>Reading the binary form of the store's position gives the position back.\<close>

theorem fakeip_metadata_round_trip:
  assumes "metadata_proper m"
  shows "UnmarshalBinary (MarshalBinary m) = Inr m"
  using Unmarshal_Marshal [OF assms] .

definition sample_metadata :: FakeIPMetadata where
  "sample_metadata = \<lparr>Inet4Range = sample_range, Inet6Range = prefix_zero, Inet4Current = Addr4 0xc6120001, Inet6Current = AddrInvalid\<rparr>"

theorem fakeip_metadata_round_trip_witness: "UnmarshalBinary (MarshalBinary sample_metadata) = Inr sample_metadata"
proof -
  have "metadata_proper sample_metadata"
    by (simp add: metadata_proper_def sample_metadata_def sample_range_def) (simp add: prefix_proper_def)
  then show ?thesis by (rule fakeip_metadata_round_trip)
qed

end
