(* ===== verification/DNSMessage.thy ===== *)
theory DNSMessage
  imports Metadata ByteCodec
begin

text \<open>
  DNS messages as the DNS client and the transports handle them (the structs of \<open>miekg/dns\<close> they
  build and read), the fixed responses (\<open>dns/client.go\<close>), the client-subnet option
  (\<open>dns/extension_edns0_subnet.go\<close>) and the times to live of a response.

  Header bits that the code neither sets nor reads are left out. A record is its header and its body; as in Go, the type in the header is independent of the body.
  \<open>MsgView\<close> is the part of a message that address matching reads (theory \<open>Metadata\<close>).
\<close>

subsection \<open>Messages\<close>

record RR_Header =
  hdr_Name :: string
  hdr_Rrtype :: u16
  hdr_Class :: u16
  hdr_Ttl :: u32

text \<open>The options of an \<open>OPT\<close> record: \<open>EDNS0_SUBNET\<close> with its family, source netmask, source scope
  and address, and any other with its code.\<close>

datatype EDNS0 = EDNS0_SUBNET u16 u8 u8 bytes | EDNS0_Other u16 bytes

datatype RRBody =
    RR_A bytes
  | RR_AAAA bytes
  | RR_CNAME string
  | RR_TXT "string list"
  | RR_MX u16 string
  | RR_SOA (rr_Minttl: u32)
  | RR_HTTPS "svcb_value list"
  | RR_OPT "EDNS0 list"
  | RR_Other bytes

datatype dnsRR = dnsRR (rr_Header: RR_Header) (rr_Body: RRBody)

record Question =
  q_Name :: string
  q_Qtype :: u16
  q_Qclass :: u16

record Msg =
  msg_Id :: u16
  msg_Response :: bool
  msg_Authoritative :: bool
  msg_RecursionDesired :: bool
  msg_RecursionAvailable :: bool
  msg_Rcode :: int
  msg_Question :: "Question list"
  msg_Answer :: "dnsRR list"
  msg_Ns :: "dnsRR list"
  msg_Extra :: "dnsRR list"

definition TypeA :: u16 where "TypeA = 1"
definition TypeCNAME :: u16 where "TypeCNAME = 5"
definition TypeAAAA :: u16 where "TypeAAAA = 28"
definition TypeOPT :: u16 where "TypeOPT = 41"
definition TypeHTTPS :: u16 where "TypeHTTPS = 65"
definition ClassINET :: u16 where "ClassINET = 1"
definition EDNS0SUBNET :: u16 where "EDNS0SUBNET = 8"
definition EDNS0PADDING :: u16 where "EDNS0PADDING = 12"
definition RcodeFormatError :: int where "RcodeFormatError = 1"
definition RcodeNameError :: int where "RcodeNameError = 3"

lemmas dns_constants = TypeA_def TypeCNAME_def TypeAAAA_def TypeOPT_def TypeHTTPS_def ClassINET_def EDNS0SUBNET_def
  EDNS0PADDING_def RcodeSuccess_def RcodeFormatError_def RcodeNameError_def

fun edns_Option :: "EDNS0 \<Rightarrow> u16" where
  "edns_Option (EDNS0_SUBNET _ _ _ _) = EDNS0SUBNET"
| "edns_Option (EDNS0_Other code _) = code"

text \<open>What \<open>adapter.DNSResponseAddresses\<close> reads of a message.\<close>

fun rr_view :: "dnsRR \<Rightarrow> RR" where
  "rr_view (dnsRR h (RR_A ip)) = RR (hdr_Name h) (RData_A ip)"
| "rr_view (dnsRR h (RR_AAAA ip)) = RR (hdr_Name h) (RData_AAAA ip)"
| "rr_view (dnsRR h (RR_HTTPS vs)) = RR (hdr_Name h) (RData_HTTPS vs)"
| "rr_view (dnsRR h _) = RR (hdr_Name h) (RData_Other (hdr_Rrtype h) [])"

definition MsgView :: "Msg \<Rightarrow> dnsMsg" where
  "MsgView m = \<lparr>Rcode = msg_Rcode m, Answer = map rr_view (msg_Answer m), Ns = map rr_view (msg_Ns m),
     Extra = map rr_view (msg_Extra m)\<rparr>"

definition MessageToAddresses :: "(bytes \<Rightarrow> Addr) \<Rightarrow> Msg \<Rightarrow> Addr list" where
  "MessageToAddresses AddrFromIP response = DNSResponseAddresses AddrFromIP (Some (MsgView response))"

subsection \<open>Fixed responses\<close>

definition FixedResponseStatus :: "Msg \<Rightarrow> int \<Rightarrow> Msg" where
  "FixedResponseStatus message rcode =
     \<lparr>msg_Id = msg_Id message, msg_Response = True, msg_Authoritative = True, msg_RecursionDesired = True,
      msg_RecursionAvailable = True, msg_Rcode = rcode, msg_Question = msg_Question message,
      msg_Answer = [], msg_Ns = [], msg_Extra = []\<rparr>"

text \<open>The message all the following functions start from.\<close>

definition fixed_success :: "u16 \<Rightarrow> Question \<Rightarrow> dnsRR list \<Rightarrow> Msg" where
  "fixed_success id' question answer =
     \<lparr>msg_Id = id', msg_Response = True, msg_Authoritative = True, msg_RecursionDesired = True,
      msg_RecursionAvailable = True, msg_Rcode = RcodeSuccess, msg_Question = [question],
      msg_Answer = answer, msg_Ns = [], msg_Extra = []\<rparr>"

definition answer_header :: "Question \<Rightarrow> u16 \<Rightarrow> u32 \<Rightarrow> RR_Header" where
  "answer_header question t timeToLive =
     \<lparr>hdr_Name = q_Name question, hdr_Rrtype = t, hdr_Class = ClassINET, hdr_Ttl = timeToLive\<rparr>"

definition address_answer :: "Question \<Rightarrow> u32 \<Rightarrow> Addr \<Rightarrow> dnsRR list" where
  "address_answer question timeToLive address =
     (if addr_Is4 address \<and> q_Qtype question = TypeA
      then [dnsRR (answer_header question TypeA timeToLive) (RR_A (addr_AsSlice address))]
      else if addr_Is6 address \<and> q_Qtype question = TypeAAAA
      then [dnsRR (answer_header question TypeAAAA timeToLive) (RR_AAAA (addr_AsSlice address))]
      else [])"

definition FixedResponse :: "u16 \<Rightarrow> Question \<Rightarrow> Addr list \<Rightarrow> u32 \<Rightarrow> Msg" where
  "FixedResponse id' question addresses timeToLive =
     fixed_success id' question (concat (map (address_answer question timeToLive) addresses))"

definition FixedResponseCNAME :: "u16 \<Rightarrow> Question \<Rightarrow> string \<Rightarrow> u32 \<Rightarrow> Msg" where
  "FixedResponseCNAME id' question rec timeToLive =
     fixed_success id' question [dnsRR (answer_header question TypeCNAME timeToLive) (RR_CNAME rec)]"

definition FixedResponseTXT :: "u16 \<Rightarrow> Question \<Rightarrow> string list \<Rightarrow> u32 \<Rightarrow> Msg" where
  "FixedResponseTXT id' question records timeToLive =
     fixed_success id' question [dnsRR (answer_header question TypeA timeToLive) (RR_TXT records)]"

definition FixedResponseMX :: "u16 \<Rightarrow> Question \<Rightarrow> (u16 \<times> string) list \<Rightarrow> u32 \<Rightarrow> Msg" where
  "FixedResponseMX id' question records timeToLive =
     fixed_success id' question
       (map (\<lambda>(pref, host). dnsRR (answer_header question TypeA timeToLive) (RR_MX pref host)) records)"

text \<open>\<open>IsFqdn\<close> is \<open>dns.IsFqdn\<close> of \<open>miekg/dns\<close>.\<close>

definition FqdnToDomain :: "(string \<Rightarrow> bool) \<Rightarrow> string \<Rightarrow> string" where
  "FqdnToDomain IsFqdn fqdn = (if IsFqdn fqdn then butlast fqdn else fqdn)"

lemma FixedResponse_addresses:
  assumes "\<And>a. a \<in> set addresses \<Longrightarrow> AddrFromIP (addr_AsSlice a) = a"
  shows "MessageToAddresses AddrFromIP (FixedResponse id' question addresses ttl) =
    filter (\<lambda>a. addr_Is4 a \<and> q_Qtype question = TypeA \<or> addr_Is6 a \<and> q_Qtype question = TypeAAAA) addresses"
proof -
  have "concat (map (rr_addresses AddrFromIP) (map rr_view (concat (map (address_answer question ttl) addresses)))) =
    filter (\<lambda>a. addr_Is4 a \<and> q_Qtype question = TypeA \<or> addr_Is6 a \<and> q_Qtype question = TypeAAAA) addresses"
    using assms
  proof (induction addresses)
    case (Cons a addresses)
    then have "AddrFromIP (addr_AsSlice a) = a" by simp
    with Cons show ?case by (cases a) (auto simp: address_answer_def)
  qed simp
  then show ?thesis
    by (simp add: MessageToAddresses_def DNSResponseAddresses_def MsgView_def FixedResponse_def fixed_success_def)
qed

subsection \<open>The client-subnet option\<close>

fun first_subnet :: "EDNS0 list \<Rightarrow> nat option" where
  "first_subnet [] = None"
| "first_subnet (EDNS0_SUBNET _ _ _ _ # opts) = Some 0"
| "first_subnet (EDNS0_Other _ _ # opts) = map_option Suc (first_subnet opts)"

text \<open>The type assertion \<open>record.(*dns.OPT)\<close>.\<close>

definition as_OPT :: "dnsRR \<Rightarrow> EDNS0 list option" where
  "as_OPT record = (case rr_Body record of RR_OPT opts \<Rightarrow> Some opts | _ \<Rightarrow> None)"

definition subnet_value :: "EDNS0 \<Rightarrow> Prefix" where
  "subnet_value opt =
     (case opt of
        EDNS0_SUBNET _ netmask _ address \<Rightarrow>
          (case addr_FromSlice address of
             None \<Rightarrow> prefix_zero
           | Some a \<Rightarrow> prefix_From (addr_Unmap a) (uint netmask))
      | EDNS0_Other _ _ \<Rightarrow> prefix_zero)"

fun clientSubnetFromRecords :: "dnsRR list \<Rightarrow> Prefix" where
  "clientSubnetFromRecords [] = prefix_zero"
| "clientSubnetFromRecords (record # records) =
     (case as_OPT record of
        None \<Rightarrow> clientSubnetFromRecords records
      | Some opts \<Rightarrow>
          (case first_subnet opts of
             None \<Rightarrow> clientSubnetFromRecords records
           | Some j \<Rightarrow> subnet_value (opts ! j)))"

definition clientSubnetFromMessage :: "Msg \<Rightarrow> Prefix" where
  "clientSubnetFromMessage message = clientSubnetFromRecords (msg_Extra message)"

definition map_OPT :: "(EDNS0 list \<Rightarrow> EDNS0 list) \<Rightarrow> dnsRR \<Rightarrow> dnsRR" where
  "map_OPT f record = (case as_OPT record of None \<Rightarrow> record | Some opts \<Rightarrow> dnsRR (rr_Header record) (RR_OPT (f opts)))"

definition has_subnet :: "dnsRR \<Rightarrow> bool" where
  "has_subnet record =
     (case as_OPT record of None \<Rightarrow> False | Some opts \<Rightarrow> list_ex (\<lambda>opt. edns_Option opt = EDNS0SUBNET) opts)"

definition removeClientSubnet :: "Msg \<Rightarrow> Msg" where
  "removeClientSubnet message =
     (if \<not> list_ex has_subnet (msg_Extra message) then message
      else message\<lparr>msg_Extra := map (map_OPT (filter (\<lambda>opt. edns_Option opt \<noteq> EDNS0SUBNET))) (msg_Extra message)\<rparr>)"

text \<open>
  The search of \<open>setClientSubnet\<close>: the position of the \<open>OPT\<close> record and of the option in it. A type
  assertion that fails sets the variable to nil, so a record of another type after an \<open>OPT\<close> record
  makes the loop forget it.
\<close>

fun find_exists :: "nat \<Rightarrow> dnsRR list \<Rightarrow> nat option \<Rightarrow> nat option \<times> nat option" where
  "find_exists i [] optRecord = (optRecord, None)"
| "find_exists i (record # records) optRecord =
     (case as_OPT record of
        None \<Rightarrow> find_exists (Suc i) records None
      | Some opts \<Rightarrow>
          (case first_subnet opts of
             Some j \<Rightarrow> (Some i, Some j)
           | None \<Rightarrow> find_exists (Suc i) records (Some i)))"

definition subnet_option :: "Prefix \<Rightarrow> u8 \<Rightarrow> EDNS0" where
  "subnet_option clientSubnet scope =
     EDNS0_SUBNET (if addr_Is4 (prefix_Addr clientSubnet) then 1 else 2) (of_int (prefix_Bits clientSubnet)) scope
       (addr_AsSlice (prefix_Addr clientSubnet))"

fun edns_scope :: "EDNS0 \<Rightarrow> u8" where
  "edns_scope (EDNS0_SUBNET _ _ scope _) = scope"
| "edns_scope (EDNS0_Other _ _) = 0"

definition set_subnet :: "Prefix \<Rightarrow> nat option \<Rightarrow> EDNS0 list \<Rightarrow> EDNS0 list" where
  "set_subnet clientSubnet subnetOption opts =
     (case subnetOption of
        None \<Rightarrow> opts @ [subnet_option clientSubnet 0]
      | Some j \<Rightarrow> opts[j := subnet_option clientSubnet (edns_scope (opts ! j))])"

text \<open>
  \<open>SetClientSubnet\<close>: it changes a deep copy of the message, or a shallow copy with a new \<open>OPT\<close> record.
\<close>

definition SetClientSubnet :: "Msg \<Rightarrow> Prefix \<Rightarrow> Msg" where
  "SetClientSubnet message clientSubnet =
     (let extra = msg_Extra message; (optRecord, subnetOption) = find_exists 0 extra None in
      case optRecord of
        None \<Rightarrow>
          message\<lparr>msg_Extra := extra @
            [dnsRR \<lparr>hdr_Name = ''.'', hdr_Rrtype = TypeOPT, hdr_Class = 0, hdr_Ttl = 0\<rparr>
               (RR_OPT [subnet_option clientSubnet 0])]\<rparr>
      | Some i \<Rightarrow> message\<lparr>msg_Extra := extra[i := map_OPT (set_subnet clientSubnet subnetOption) (extra ! i)]\<rparr>)"

subsection \<open>Times to live\<close>

fun extractNegativeTTL :: "dnsRR list \<Rightarrow> u32 option" where
  "extractNegativeTTL [] = None"
| "extractNegativeTTL (dnsRR h (RR_SOA minttl) # records) =
     Some (if hdr_Ttl h < minttl then hdr_Ttl h else minttl)"
| "extractNegativeTTL (record # records) = extractNegativeTTL records"

definition ttl_step :: "dnsRR \<Rightarrow> u32 \<Rightarrow> u32" where
  "ttl_step record timeToLive =
     (if hdr_Rrtype (rr_Header record) = TypeOPT then timeToLive
      else if timeToLive = 0 \<or> hdr_Ttl (rr_Header record) > 0 \<and> hdr_Ttl (rr_Header record) < timeToLive
      then hdr_Ttl (rr_Header record) else timeToLive)"

definition computeTimeToLive :: "Msg \<Rightarrow> u32" where
  "computeTimeToLive response =
     (let scan = fold ttl_step (msg_Answer response @ msg_Ns response @ msg_Extra response) 0 in
      if msg_Answer response = [] then
        (case extractNegativeTTL (msg_Ns response) of Some soaTTL \<Rightarrow> soaTTL | None \<Rightarrow> scan)
      else scan)"

fun set_ttl :: "u32 \<Rightarrow> dnsRR \<Rightarrow> dnsRR" where
  "set_ttl timeToLive (dnsRR h b) = dnsRR (if hdr_Rrtype h = TypeOPT then h else h\<lparr>hdr_Ttl := timeToLive\<rparr>) b"

definition normalizeTTL :: "Msg \<Rightarrow> u32 \<Rightarrow> Msg" where
  "normalizeTTL response timeToLive =
     response\<lparr>msg_Answer := map (set_ttl timeToLive) (msg_Answer response),
              msg_Ns := map (set_ttl timeToLive) (msg_Ns response),
              msg_Extra := map (set_ttl timeToLive) (msg_Extra response)\<rparr>"

definition svcb_Key_is4 :: "svcb_value \<Rightarrow> bool" where
  "svcb_Key_is4 v = (case v of SVCBIPv4Hint _ \<Rightarrow> True | _ \<Rightarrow> False)"

definition svcb_Key_is6 :: "svcb_value \<Rightarrow> bool" where
  "svcb_Key_is6 v = (case v of SVCBIPv6Hint _ \<Rightarrow> True | _ \<Rightarrow> False)"

definition stripDNSPadding :: "Msg \<Rightarrow> Msg" where
  "stripDNSPadding response = response\<lparr>msg_Extra := map (map_OPT (filter (\<lambda>opt. edns_Option opt \<noteq> EDNS0PADDING))) (msg_Extra response)\<rparr>"

subsection \<open>Laws\<close>

text \<open>A subnet is sent faithfully when it is a prefix of \<open>PrefixFrom\<close> and not an IPv4-mapped one.\<close>

definition plain_subnet :: "Prefix \<Rightarrow> bool" where
  "plain_subnet p \<longleftrightarrow> prefix_proper p \<and> prefix_IsValid p \<and> addr_Unmap (prefix_Addr p) = prefix_Addr p"

lemma first_subnet_SomeD:
  "first_subnet opts = Some j \<Longrightarrow> j < length opts \<and> (\<exists>f n s a. opts ! j = EDNS0_SUBNET f n s a) \<and> first_subnet (take j opts) = None"
  by (induction opts arbitrary: j rule: first_subnet.induct) auto

lemma first_subnet_append:
  "first_subnet (xs @ ys) = (case first_subnet xs of Some j \<Rightarrow> Some j | None \<Rightarrow> map_option (\<lambda>j. length xs + j) (first_subnet ys))"
proof (cases "first_subnet ys")
  case None
  then show ?thesis by (induction xs rule: first_subnet.induct) (auto split: option.splits)
next
  case (Some j)
  then show ?thesis by (induction xs rule: first_subnet.induct) (auto split: option.splits)
qed

lemma first_subnet_option [simp]: "first_subnet (subnet_option p s # opts) = Some 0"
  by (simp add: subnet_option_def)

lemma as_OPT_simps [simp]: "as_OPT (dnsRR h (RR_OPT opts)) = Some opts"
  by (simp add: as_OPT_def)

lemma first_subnet_update:
  assumes "first_subnet opts = Some j"
  shows "first_subnet (opts[j := subnet_option p s]) = Some j"
proof -
  have "opts[j := subnet_option p s] = take j opts @ subnet_option p s # drop (Suc j) opts"
    using first_subnet_SomeD [OF assms] by (simp add: upd_conv_take_nth_drop)
  then show ?thesis
    using first_subnet_SomeD [OF assms] by (simp add: first_subnet_append)
qed

lemma subnet_value_option:
  assumes "plain_subnet p"
  shows "subnet_value (subnet_option p s) = p"
proof -
  have v: "addr_IsValid (prefix_Addr p)" "addr_withoutZone (prefix_Addr p) = prefix_Addr p"
    using assms by (auto simp: plain_subnet_def prefix_proper_def prefix_IsValid_def split: if_splits)
  have "prefix_From (prefix_Addr p) (prefix_Bits p) = p"
    using assms by (cases p, cases "prefix_Addr p")
      (auto simp: plain_subnet_def prefix_From_def prefix_proper_def prefix_IsValid_def prefix_Bits_def)
  then show ?thesis
    using assms v uint_bits [of p] addr_FromSlice_AsSlice [OF v(1)]
    by (simp add: subnet_value_def subnet_option_def plain_subnet_def)
qed

definition no_subnet :: "dnsRR list \<Rightarrow> bool" where
  "no_subnet rs \<longleftrightarrow> (\<forall>r\<in>set rs. \<forall>opts. as_OPT r = Some opts \<longrightarrow> first_subnet opts = None)"

lemma no_subnet_simps [simp]:
  "no_subnet []"
  "no_subnet (r # rs) \<longleftrightarrow> (\<forall>opts. as_OPT r = Some opts \<longrightarrow> first_subnet opts = None) \<and> no_subnet rs"
  by (auto simp: no_subnet_def)

lemma clientSubnet_none: "no_subnet rs \<Longrightarrow> clientSubnetFromRecords rs = prefix_zero"
  by (induction rs) (auto split: option.splits)

lemma clientSubnet_at:
  "no_subnet xs \<Longrightarrow> as_OPT r = Some opts \<Longrightarrow> first_subnet opts = Some j \<Longrightarrow>
     clientSubnetFromRecords (xs @ r # ys) = subnet_value (opts ! j)"
  by (induction xs) (auto split: option.splits)

lemma find_exists_spec:
  assumes "find_exists i rs o' = (opt, sub)"
  shows "(sub = None \<and> no_subnet rs \<and> (opt = None \<or> rs = [] \<and> opt = o' \<or> (\<exists>k<length rs. opt = Some (i + k) \<and> as_OPT (rs ! k) \<noteq> None)))
    \<or> (\<exists>k j opts. sub = Some j \<and> opt = Some (i + k) \<and> k < length rs \<and> as_OPT (rs ! k) = Some opts \<and>
         first_subnet opts = Some j \<and> no_subnet (take k rs))"
  using assms
proof (induction rs arbitrary: i o')
  case (Cons r rs)
  have step: ?case
    if f: "find_exists (Suc i) rs o'' = (opt, sub)" and r: "\<forall>opts. as_OPT r = Some opts \<longrightarrow> first_subnet opts = None"
      and o: "o'' = None \<or> o'' = Some i \<and> as_OPT r \<noteq> None" for o''
    using Cons.IH [OF f]
  proof (elim disjE exE conjE)
    fix k assume "sub = None" "no_subnet rs" "k < length rs" "opt = Some (Suc i + k)" "as_OPT (rs ! k) \<noteq> None"
    then show ?thesis using r by (intro disjI1) (auto intro!: exI [of _ "Suc k"])
  next
    fix k j opts assume "sub = Some j" "opt = Some (Suc i + k)" "k < length rs" "as_OPT (rs ! k) = Some opts"
      "first_subnet opts = Some j" "no_subnet (take k rs)"
    then show ?thesis using r by (intro disjI2) (auto intro!: exI [of _ "Suc k"])
  qed (use r o in auto)
  show ?case
  proof (cases "as_OPT r")
    case None
    then show ?thesis using Cons.prems step [of None] by simp
  next
    case (Some opts)
    show ?thesis
    proof (cases "first_subnet opts")
      case None
      then show ?thesis using Some Cons.prems step [of "Some i"] by simp
    next
      case (Some j)
      then show ?thesis using \<open>as_OPT r = Some opts\<close> Cons.prems
        by (intro disjI2 exI [of _ 0] exI [of _ j] exI [of _ opts]) simp
    qed
  qed
qed auto

lemma as_OPT_map_OPT: "as_OPT (map_OPT f r) = map_option f (as_OPT r)"
  by (auto simp: map_OPT_def as_OPT_def split: option.splits)

lemma no_subnet_removed: "no_subnet (map (map_OPT (filter (\<lambda>opt. edns_Option opt \<noteq> EDNS0SUBNET))) rs)"
proof -
  have "first_subnet (filter (\<lambda>opt. edns_Option opt \<noteq> EDNS0SUBNET) opts) = None" for opts
  proof (induction opts)
    case (Cons opt opts)
    then show ?case by (cases opt) auto
  qed simp
  then show ?thesis by (auto simp: no_subnet_def as_OPT_map_OPT)
qed

lemma no_subnet_not_has: "\<not> list_ex has_subnet rs \<Longrightarrow> no_subnet rs"
proof -
  have "first_subnet opts = None" if "\<not> list_ex (\<lambda>opt. edns_Option opt = EDNS0SUBNET) opts" for opts
    using that by (induction opts rule: first_subnet.induct) auto
  then show "\<not> list_ex has_subnet rs \<Longrightarrow> no_subnet rs"
    by (auto simp: no_subnet_def list_ex_iff has_subnet_def split: option.splits)
qed

lemma clientSubnet_removed: "clientSubnetFromMessage (removeClientSubnet m) = prefix_zero"
  using no_subnet_removed no_subnet_not_has
  by (auto simp: removeClientSubnet_def clientSubnetFromMessage_def clientSubnet_none)

lemma clientSubnet_set:
  assumes "plain_subnet p"
  shows "clientSubnetFromMessage (SetClientSubnet m p) = p"
proof -
  let ?x = "msg_Extra m"
  obtain opt sub where f: "find_exists 0 ?x None = (opt, sub)" by (metis surj_pair)
  have upd: "?x[k := r] = take k ?x @ r # drop (Suc k) ?x" if "k < length ?x" for k r
    using that by (simp add: upd_conv_take_nth_drop)
  from find_exists_spec [OF f] show ?thesis
  proof (elim disjE exE conjE)
    assume "sub = None" "no_subnet ?x" "opt = None"
    then show ?thesis
      using clientSubnet_at [OF \<open>no_subnet ?x\<close>, of _ "[subnet_option p 0]" 0 "[]"] f assms
      by (simp add: SetClientSubnet_def clientSubnetFromMessage_def subnet_value_option)
  next
    assume "opt = None" "?x = []" "sub = None"
    then show ?thesis
      using f assms by (simp add: SetClientSubnet_def clientSubnetFromMessage_def subnet_value_option)
  next
    fix k assume k: "sub = None" "no_subnet ?x" "k < length ?x" "opt = Some (0 + k)" "as_OPT (?x ! k) \<noteq> None"
    then obtain opts where o: "as_OPT (?x ! k) = Some opts" by auto
    have n: "first_subnet opts = None" "no_subnet (take k ?x)"
      using k o by (auto simp: no_subnet_def dest: in_set_takeD nth_mem)
    have "first_subnet (opts @ [subnet_option p 0]) = Some (length opts)"
      using n by (simp add: first_subnet_append)
    then show ?thesis
      using clientSubnet_at [OF n(2), of "map_OPT (set_subnet p None) (?x ! k)" "opts @ [subnet_option p 0]"] f k o assms
      by (simp add: SetClientSubnet_def clientSubnetFromMessage_def upd as_OPT_map_OPT set_subnet_def subnet_value_option Let_def)
  next
    fix k j opts assume k: "sub = Some j" "opt = Some (0 + k)" "k < length ?x" "as_OPT (?x ! k) = Some opts"
      "first_subnet opts = Some j" "no_subnet (take k ?x)"
    have "j < length opts" using first_subnet_SomeD [OF k(5)] by simp
    then show ?thesis
      using clientSubnet_at [OF k(6), of "map_OPT (set_subnet p (Some j)) (?x ! k)" "opts[j := subnet_option p (edns_scope (opts ! j))]" j]
        f k assms first_subnet_update [OF k(5)]
      by (simp add: SetClientSubnet_def clientSubnetFromMessage_def upd as_OPT_map_OPT set_subnet_def subnet_value_option Let_def)
  qed
qed

text \<open>The time to live is the least positive one of the records, 0 when there is none.\<close>

definition positive_ttls :: "dnsRR list \<Rightarrow> u32 set" where
  "positive_ttls rs = {hdr_Ttl (rr_Header r) | r. r \<in> set rs \<and> hdr_Rrtype (rr_Header r) \<noteq> TypeOPT \<and> hdr_Ttl (rr_Header r) > 0}"

lemma Min_two: "finite P \<Longrightarrow> Min (insert a (insert b P)) = Min (insert (min a b) P)" for a b :: "'a::linorder"
  by (cases "P = {}") (simp_all add: min.assoc)

lemma ttl_scan:
  "fold ttl_step rs t = (if positive_ttls rs \<union> ({t} - {0}) = {} then 0 else Min (positive_ttls rs \<union> ({t} - {0})))"
proof (induction rs arbitrary: t)
  case Nil
  then show ?case by (simp add: positive_ttls_def)
next
  case (Cons r rs)
  let ?T = "hdr_Ttl (rr_Header r)"
  have fin: "finite (positive_ttls rs)" by (simp add: positive_ttls_def)
  show ?case
  proof (cases "hdr_Rrtype (rr_Header r) \<noteq> TypeOPT \<and> ?T > 0")
    case False
    then have "positive_ttls (r # rs) = positive_ttls rs" by (auto simp: positive_ttls_def)
    moreover have "ttl_step r t = t" using False by (auto simp: ttl_step_def word_gt_0)
    ultimately show ?thesis using Cons.IH [of t] by simp
  next
    case True
    then have p: "positive_ttls (r # rs) = insert ?T (positive_ttls rs)" "?T \<noteq> 0"
      by (auto simp: positive_ttls_def word_gt_0)
    show ?thesis
    proof (cases "t = 0")
      case True
      then show ?thesis using Cons.IH [of ?T] p \<open>_ \<and> ?T > 0\<close> by (simp add: ttl_step_def)
    next
      case False
      then have "ttl_step r t = min ?T t" "min ?T t \<noteq> 0"
        using \<open>_ \<and> ?T > 0\<close> p(2) by (auto simp: ttl_step_def min_def)
      then show ?thesis using Cons.IH [of "min ?T t"] p False Min_two [OF fin, of t ?T] by (simp add: min.commute)
    qed
  qed
qed

lemma computeTimeToLive_spec:
  "computeTimeToLive m =
     (case (if msg_Answer m = [] then extractNegativeTTL (msg_Ns m) else None) of
        Some soaTTL \<Rightarrow> soaTTL
      | None \<Rightarrow> (let P = positive_ttls (msg_Answer m @ msg_Ns m @ msg_Extra m) in if P = {} then 0 else Min P))"
proof -
  let ?P = "positive_ttls (msg_Answer m @ msg_Ns m @ msg_Extra m)"
  have "?P \<union> ({0} - {0}) = ?P" by simp
  then have e: "fold ttl_step (msg_Answer m @ msg_Ns m @ msg_Extra m) 0 = (if ?P = {} then 0 else Min ?P)"
    using ttl_scan [of "msg_Answer m @ msg_Ns m @ msg_Extra m" 0] by metis
  show ?thesis
    unfolding computeTimeToLive_def Let_def e by (cases "msg_Answer m = []"; cases "extractNegativeTTL (msg_Ns m)") simp_all
qed

end
