(* ===== verification/FakeIPTransport.thy ===== *)
theory FakeIPTransport
  imports FakeIPLaws DNSMessage Lifecycle
begin

text \<open>
  The fake-IP DNS server (\<open>dns/transport/fakeip/fakeip.go\<close>): it answers an address query with an
  address of its store. \<open>IsFqdn\<close> and \<open>AddrFromIP\<close> are functions of the libraries \<open>miekg/dns\<close> and
  \<open>sing\<close>. Lemma: what the answer's address leads back to.
\<close>

record 'st Transport =
  store :: "'st Store"
  inet4Enabled :: bool
  inet6Enabled :: bool

definition DefaultDNSTTL :: u32 where
  "DefaultDNSTTL = 600"

definition NewTransport :: "Prefix option \<Rightarrow> Prefix option \<Rightarrow> 'st Transport result" where
  "NewTransport options4 options6 =
     (let range4 = (case options4 of None \<Rightarrow> prefix_zero | Some p \<Rightarrow> p);
          range6 = (case options6 of None \<Rightarrow> prefix_zero | Some p \<Rightarrow> p)
      in if \<not> prefix_IsValid range4 \<and> \<not> prefix_IsValid range6
         then Inl (ENew ''at least one of inet4_range or inet6_range must be set'')
         else Inr \<lparr>store = NewStore range4 range6, inet4Enabled = prefix_IsValid range4, inet6Enabled = prefix_IsValid range6\<rparr>)"

definition Transport_Start :: "'st storage_ops \<Rightarrow> 'st \<Rightarrow> 'st Transport \<Rightarrow> StartStage \<Rightarrow> 'st Transport" where
  "Transport_Start ops st t stage =
     (if stage \<noteq> StartStateStart then t else t\<lparr>store := Store_Start ops st (store t)\<rparr>)"

definition Transport_Close :: "'st storage_ops \<Rightarrow> 'st Transport \<Rightarrow> unit result \<times> 'st Transport" where
  "Transport_Close ops t = (let (r, s) = Store_Close ops (store t) in (r, t\<lparr>store := s\<rparr>))"

definition Transport_Exchange ::
    "'st storage_ops \<Rightarrow> (string \<Rightarrow> bool) \<Rightarrow> 'st Transport \<Rightarrow> Msg \<Rightarrow> Msg result \<times> 'st Transport" where
  "Transport_Exchange ops IsFqdn t message =
     (case msg_Question message of
        [] \<Rightarrow> (Inl (EPanic ''index out of range''), t)
      | question # _ \<Rightarrow>
          if q_Qtype question \<noteq> TypeA \<and> q_Qtype question \<noteq> TypeAAAA
          then (Inl (ENew ''only IP queries are supported by fakeip''), t)
          else if q_Qtype question = TypeA \<and> \<not> inet4Enabled t \<or> q_Qtype question = TypeAAAA \<and> \<not> inet6Enabled t
          then (Inr (FixedResponseStatus message RcodeSuccess), t)
          else
            (case Store_Create ops (FqdnToDomain IsFqdn (q_Name question)) (q_Qtype question = TypeAAAA) (store t) of
               (Inl e, s) \<Rightarrow> (Inl e, t\<lparr>store := s\<rparr>)
             | (Inr address, s) \<Rightarrow>
                 (Inr (FixedResponse (msg_Id message) question [address] DefaultDNSTTL), t\<lparr>store := s\<rparr>)))"

text \<open>The server over memory, built and started, after some requests to its store.\<close>

definition memory_transport :: "Prefix option \<Rightarrow> Prefix option \<Rightarrow> (string \<times> bool) list \<Rightarrow> MemoryStorage Transport result" where
  "memory_transport o4 o6 requests =
     res_bind (NewTransport o4 o6) (\<lambda>t. let t = Transport_Start memory_ops NewMemoryStorage t StartStateStart in
       Inr (t\<lparr>store := create_all memory_ops requests (store t)\<rparr>))"

lemma memory_transport_store:
  assumes "memory_transport o4 o6 requests = Inr t"
  shows "\<exists>r4 r6. store t = memory_store r4 r6 requests \<and> inet4Enabled t = prefix_IsValid r4 \<and> inet6Enabled t = prefix_IsValid r6 \<and>
    (r4 = (case o4 of None \<Rightarrow> prefix_zero | Some p \<Rightarrow> p)) \<and> (r6 = (case o6 of None \<Rightarrow> prefix_zero | Some p \<Rightarrow> p))"
  using assms
  by (auto simp: memory_transport_def res_bind_def NewTransport_def Transport_Start_def memory_store_def Let_def
      split: if_splits)

text \<open>The answer of the server: one address of the pool, which the store contains and leads back to the name.\<close>

lemma Transport_Exchange_fake:
  assumes "memory_transport o4 o6 requests = Inr t"
    and "r4 = (case o4 of None \<Rightarrow> prefix_zero | Some p \<Rightarrow> p)" "r6 = (case o6 of None \<Rightarrow> prefix_zero | Some p \<Rightarrow> p)"
    and "ranges_usable r4 r6" "msg_Question message = question # rest"
    and "q_Qtype question = TypeA \<and> prefix_IsValid r4 \<or> q_Qtype question = TypeAAAA \<and> prefix_IsValid r6"
    and "\<And>a. addr_IsValid a \<Longrightarrow> addr_withoutZone a = a \<Longrightarrow> AddrFromIP (addr_AsSlice a) = a"
    and "Transport_Exchange memory_ops IsFqdn t message = (r, t')"
  shows "\<exists>a. r = Inr (FixedResponse (msg_Id message) question [a] DefaultDNSTTL) \<and>
    MessageToAddresses AddrFromIP (FixedResponse (msg_Id message) question [a] DefaultDNSTTL) = [a] \<and>
    addr_IsValid a \<and> Store_Contains (store t') a \<and>
    Store_Lookup memory_ops (store t') a = Inr (Some (FqdnToDomain IsFqdn (q_Name question)))"
proof -
  let ?v = "q_Qtype question = TypeAAAA" and ?d = "FqdnToDomain IsFqdn (q_Name question)"
  have s: "store t = memory_store r4 r6 requests" "inet4Enabled t = prefix_IsValid r4" "inet6Enabled t = prefix_IsValid r6"
    using memory_transport_store [OF assms(1)] assms(2,3) by auto
  obtain rc s' where c: "Create_locked memory_ops ?d ?v (store t) = (rc, s')" by (metis surj_pair)
  have ok: "store_ok memory_ops (\<lambda>_. True) (\<lambda>_. True) (store t)" "prefix_IsValid (range_of ?v (store t))"
    using memory_store_ok [OF assms(4)] s assms(6) by (auto simp: TypeA_def TypeAAAA_def)
  obtain a where a: "rc = Inr a" "a \<in> pool ?v (range_of ?v (store t))" "Store_Lookup memory_ops s' a = Inr (Some ?d)"
    using memory.Create_locked_result [OF ok(1) TrueI c] ok(2) by auto
  obtain n where n: "a = fake_addr ?v n" using a(2) by (auto simp: pool_def)
  then have "AddrFromIP (addr_AsSlice a) = a" by (intro assms(7)) (simp_all add: fake_addr_def)
  then have m: "MessageToAddresses AddrFromIP (FixedResponse (msg_Id message) question [a] DefaultDNSTTL) = [a]"
    using assms(6) n by (subst FixedResponse_addresses) (auto simp: TypeA_def TypeAAAA_def)
  have r: "r = Inr (FixedResponse (msg_Id message) question [a] DefaultDNSTTL)" "store t' = s'"
    using assms(5,6,8) s c a(1) by (auto simp: Transport_Exchange_def Store_Create_eq TypeA_def TypeAAAA_def)
  have "range_of ?v (store t) = (if ?v then r6 else r4)" unfolding s(1) by (rule memory_store_ok(2) [OF assms(4)])
  then have "usable ?v (range_of ?v (store t))" using assms(4) ok(2) by (cases ?v) (auto simp: ranges_usable_def)
  moreover have "range_of ?v s' = range_of ?v (store t)" using memory.Create_locked_ok [OF ok(1) TrueI c] by blast
  ultimately have "Store_Contains s' a" using a(2) by (intro pool_contained)
  moreover have "addr_IsValid a" unfolding n by (simp add: fake_addr_def)
  ultimately show ?thesis using a(3) m unfolding r by blast
qed

text \<open>
  C19: the server answers a query for an address of a configured family with the query's id, and with
  exactly one address; the store leads from it back to the queried name (without its final dot), and
  the metadata's address functions read it off the answer.
\<close>

theorem fakeip_exchange:
  assumes "memory_transport o4 o6 requests = Inr t"
    and "r4 = (case o4 of None \<Rightarrow> prefix_zero | Some p \<Rightarrow> p)" "r6 = (case o6 of None \<Rightarrow> prefix_zero | Some p \<Rightarrow> p)"
    and "ranges_usable r4 r6" "msg_Question message = question # rest"
    and "q_Qtype question = TypeA \<and> prefix_IsValid r4 \<or> q_Qtype question = TypeAAAA \<and> prefix_IsValid r6"
    and "\<And>a. addr_IsValid a \<Longrightarrow> addr_withoutZone a = a \<Longrightarrow> AddrFromIP (addr_AsSlice a) = a"
    and "Transport_Exchange memory_ops IsFqdn t message = (r, t')"
  shows "\<exists>response a. r = Inr response \<and> msg_Id response = msg_Id message \<and> msg_Rcode response = RcodeSuccess \<and>
    MessageToAddresses AddrFromIP response = [a] \<and>
    Store_Lookup memory_ops (store t') a = Inr (Some (FqdnToDomain IsFqdn (q_Name question)))"
proof -
  have fixed: "msg_Id (FixedResponse i question as ttl) = i" "msg_Rcode (FixedResponse i question as ttl) = RcodeSuccess" for i as ttl
    by (simp_all add: FixedResponse_def fixed_success_def)
  from Transport_Exchange_fake [OF assms] show ?thesis using fixed by blast
qed

definition sample_query :: Msg where
  "sample_query =
     \<lparr>msg_Id = 7, msg_Response = False, msg_Authoritative = False, msg_RecursionDesired = True, msg_RecursionAvailable = False,
      msg_Rcode = RcodeSuccess, msg_Question = [\<lparr>q_Name = ''example.org.'', q_Qtype = TypeA, q_Qclass = ClassINET\<rparr>],
      msg_Answer = [], msg_Ns = [], msg_Extra = []\<rparr>"

definition slice_addr :: "bytes \<Rightarrow> Addr" where
  "slice_addr b = (case addr_FromSlice b of None \<Rightarrow> AddrInvalid | Some a \<Rightarrow> a)"

theorem fakeip_exchange_witness:
  "\<exists>t response a. memory_transport (Some sample_range) None [] = Inr t \<and>
     fst (Transport_Exchange memory_ops (\<lambda>_. True) t sample_query) = Inr response \<and>
     msg_Id response = 7 \<and> MessageToAddresses slice_addr response = [a]"
proof -
  obtain t where t: "memory_transport (Some sample_range) None [] = Inr t"
    using sample_range(2) by (simp add: memory_transport_def NewTransport_def Let_def)
  obtain r t' where x: "Transport_Exchange memory_ops (\<lambda>_. True) t sample_query = (r, t')" by (metis surj_pair)
  have l: "slice_addr (addr_AsSlice a) = a" if "addr_IsValid a" "addr_withoutZone a = a" for a
    using addr_FromSlice_AsSlice [OF that(1)] that(2) by (simp add: slice_addr_def)
  have "\<exists>response a. r = Inr response \<and> msg_Id response = msg_Id sample_query \<and> msg_Rcode response = RcodeSuccess \<and>
      MessageToAddresses slice_addr response = [a] \<and>
      Store_Lookup memory_ops (store t') a = Inr (Some (FqdnToDomain (\<lambda>_. True) (q_Name \<lparr>q_Name = ''example.org.'', q_Qtype = TypeA, q_Qclass = ClassINET\<rparr>)))"
    using sample_range(1,2)
    by (intro fakeip_exchange [OF t refl refl, where message = sample_query and rest = "[]" and AddrFromIP = slice_addr] l x)
      (simp_all add: sample_query_def)
  then show ?thesis using t x by (auto simp: sample_query_def)
qed

end
