(* ===== verification/DNSClient.thy ===== *)
theory DNSClient
  imports DNSMessage
begin

text \<open>
  The DNS client (\<open>dns/client.go\<close>): cache keys, the exchange of a message with a DNS server through
  the cache, the refresh of stale entries in the background, and the times to live.

  Times are nanoseconds. The caches, the store of rejected responses and the functions of
  \<open>miekg/dns\<close> that the client calls are operations of a record \<open>client_env\<close> on a state \<open>'w\<close> the client
  only passes on. An exchange has a beginning and an end with the server's reply between them; other
  exchanges may run in between, so each of the two is one step. The number of seconds left of an entry
  is the exact quotient.

  Lemmas: whatever is served from the memory cache was received before, from the same server for the
  same question and client subnet, and is no older than its time to live; the subnet in the cache key
  is the one in the message sent.
\<close>

type_synonym u64 = "64 word"

subsection \<open>Data\<close>

record dnsCacheKey =
  ck_Question :: Question
  ck_transportTag :: string
  ck_clientSubnet :: Prefix
  ck_environment :: u64

record DNSQueryOptions =
  qo_Strategy :: u8
  qo_DisableCache :: bool
  qo_DisableOptimisticCache :: bool
  qo_RewriteTTL :: "u32 option"
  qo_ClientSubnet :: Prefix
  qo_RemoveClientSubnet :: bool

definition DomainStrategyPreferIPv6 :: u8 where "DomainStrategyPreferIPv6 = 2"
definition DomainStrategyIPv4Only :: u8 where "DomainStrategyIPv4Only = 3"
definition DomainStrategyIPv6Only :: u8 where "DomainStrategyIPv6Only = 4"

datatype dns_error = ErrNotCached | ErrResponseRejected | ErrResponseRejectedCached | RcodeError int | Loopback string | OtherError error

text \<open>What an exchange with a server brings: a message, an error with a response code, or another error.\<close>

datatype reply = ReplyMsg Msg | ReplyRcode int | ReplyError error

record 'w client_env =
  lru_Add :: "dnsCacheKey \<Rightarrow> Msg \<Rightarrow> 'w \<Rightarrow> 'w"
  lru_AddWithLifetime :: "int \<Rightarrow> dnsCacheKey \<Rightarrow> Msg \<Rightarrow> int \<Rightarrow> 'w \<Rightarrow> 'w"
  lru_Get :: "'w \<Rightarrow> dnsCacheKey \<Rightarrow> Msg option"
  lru_GetWithLifetimeNoExpire :: "'w \<Rightarrow> dnsCacheKey \<Rightarrow> (Msg \<times> int) option"
  lru_Remove :: "dnsCacheKey \<Rightarrow> 'w \<Rightarrow> 'w"
  lru_Purge :: "'w \<Rightarrow> 'w"
  ds_LoadDNSCache :: "'w \<Rightarrow> string \<Rightarrow> string \<Rightarrow> u16 \<Rightarrow> (bytes \<times> int) option"
  ds_SaveDNSCacheAsync :: "string \<Rightarrow> string \<Rightarrow> u16 \<Rightarrow> bytes \<Rightarrow> int \<Rightarrow> 'w \<Rightarrow> 'w"
  ds_ClearDNSCache :: "'w \<Rightarrow> 'w"
  rd_LoadRDRC :: "'w \<Rightarrow> string \<Rightarrow> string \<Rightarrow> u16 \<Rightarrow> bool"
  rd_SaveRDRCAsync :: "string \<Rightarrow> string \<Rightarrow> u16 \<Rightarrow> 'w \<Rightarrow> 'w"
  lib_Pack :: "Msg \<Rightarrow> bytes option"
  lib_Unpack :: "bytes \<Rightarrow> Msg option"
  lib_PrefixString :: "Prefix \<Rightarrow> string"
  lib_FormatUint36 :: "u64 \<Rightarrow> string"
  lib_IsEdns0 :: "Msg \<Rightarrow> dnsRR option"
  lib_Version :: "dnsRR \<Rightarrow> u8"
  lib_SetEdns0 :: "dnsRR \<Rightarrow> Msg \<Rightarrow> Msg"

text \<open>\<open>cl_rdrc\<close>, \<open>cl_dnsCache\<close> and \<open>cl_cache\<close> say whether the client has the store of that name.\<close>

record 'w Client =
  cl_disableCache :: bool
  cl_disableExpire :: bool
  cl_optimisticTimeout :: int
  cl_clientSubnet :: Prefix
  cl_rdrc :: bool
  cl_dnsCache :: bool
  cl_cache :: bool
  cl_backgroundRefresh :: "dnsCacheKey list"
  cl_world :: 'w

definition initializeMemoryCache :: "'w Client \<Rightarrow> 'w Client" where
  "initializeMemoryCache c = (if cl_disableCache c \<or> cl_cache c then c else c\<lparr>cl_cache := True\<rparr>)"

text \<open>\<open>Start\<close>, given whether the two functions that provide stores exist and return one.\<close>

definition Client_Start :: "bool \<Rightarrow> bool \<Rightarrow> 'w Client \<Rightarrow> 'w Client" where
  "Client_Start rdrc dnsCache c =
     (let c = c\<lparr>cl_rdrc := rdrc, cl_dnsCache := dnsCache\<rparr> in
      if \<not> cl_dnsCache c then initializeMemoryCache c else c)"

subsection \<open>Cache keys\<close>

text \<open>64-bit FNV-1a, and the hash of the environment of a server that has one.\<close>

definition fnv64a :: "bytes \<Rightarrow> u64" where
  "fnv64a bs = fold (\<lambda>b h. (h XOR ucast b) * 1099511628211) bs 14695981039346656037"

definition environmentHash :: "string list option \<Rightarrow> u64 \<Rightarrow> u64" where
  "environmentHash environment networkEnvironment =
     (case environment of
        None \<Rightarrow> 0
      | Some entries \<Rightarrow>
          if entries = [] then networkEnvironment
          else fnv64a (concat (map (\<lambda>entry. bytes_of entry @ [0]) entries) @ be_bytes 8 (unat networkEnvironment)))"

definition persistentName :: "'w client_env \<Rightarrow> dnsCacheKey \<Rightarrow> string" where
  "persistentName env k =
     ck_transportTag k @
     (if prefix_IsValid (ck_clientSubnet k) then [CHR 0x00] @ lib_PrefixString env (ck_clientSubnet k) else []) @
     (if ck_environment k \<noteq> 0 then [CHR 0x01] @ lib_FormatUint36 env (ck_environment k) else [])"

definition newCacheKey :: "'w Client \<Rightarrow> string \<Rightarrow> u64 \<Rightarrow> Question \<Rightarrow> Msg \<Rightarrow> DNSQueryOptions \<Rightarrow> dnsCacheKey" where
  "newCacheKey c tag environment question message options =
     (let clientSubnet =
        (if qo_RemoveClientSubnet options then prefix_zero
         else if prefix_IsValid (qo_ClientSubnet options) then qo_ClientSubnet options
         else if prefix_IsValid (cl_clientSubnet c) then cl_clientSubnet c
         else clientSubnetFromMessage message)
      in \<lparr>ck_Question = question, ck_transportTag = tag, ck_clientSubnet = clientSubnet, ck_environment = environment\<rparr>)"

definition finishCacheKey :: "u64 \<Rightarrow> dnsCacheKey \<Rightarrow> dnsCacheKey \<times> bool" where
  "finishCacheKey environment key =
     (if environment = ck_environment key \<or> ck_environment key = 0 then (key\<lparr>ck_environment := environment\<rparr>, True)
      else (key, False))"

subsection \<open>Loading and storing\<close>

definition storeCache :: "'w client_env \<Rightarrow> int \<Rightarrow> dnsCacheKey \<Rightarrow> Msg \<Rightarrow> u32 \<Rightarrow> 'w Client \<Rightarrow> 'w Client" where
  "storeCache env now key message timeToLive c =
     (if timeToLive = 0 then c
      else if cl_dnsCache c then
        (case lib_Pack env message of
           None \<Rightarrow> c
         | Some packed \<Rightarrow>
             c\<lparr>cl_world := ds_SaveDNSCacheAsync env (persistentName env key) (q_Name (ck_Question key)) (q_Qtype (ck_Question key))
                  packed (now + 1000000000 * uint timeToLive) (cl_world c)\<rparr>)
      else if \<not> cl_cache c then c
      else if cl_disableExpire c then c\<lparr>cl_world := lru_Add env key message (cl_world c)\<rparr>
      else c\<lparr>cl_world := lru_AddWithLifetime env now key message (1000000000 * uint timeToLive) (cl_world c)\<rparr>)"

text \<open>An entry seen at a time: too old, stale but served optimistically, or with its remaining seconds.\<close>

definition aged_response :: "int \<Rightarrow> int \<Rightarrow> Msg \<Rightarrow> int \<Rightarrow> (Msg \<times> int \<times> bool) option" where
  "aged_response optimisticTimeout now response expireAt =
     (if now > expireAt then
        (if optimisticTimeout > 0 \<and> now < expireAt + optimisticTimeout then Some (normalizeTTL response 1, 0, True) else None)
      else
        let nowTTL = max ((expireAt - now) div 1000000000) 0
        in Some (normalizeTTL response (of_int nowTTL), nowTTL, False))"

definition loadPersistentResponse :: "'w client_env \<Rightarrow> int \<Rightarrow> dnsCacheKey \<Rightarrow> 'w Client \<Rightarrow> (Msg \<times> int \<times> bool) option" where
  "loadPersistentResponse env now key c =
     (case ds_LoadDNSCache env (cl_world c) (persistentName env key) (q_Name (ck_Question key)) (q_Qtype (ck_Question key)) of
        None \<Rightarrow> None
      | Some (rawMessage, expireAt) \<Rightarrow>
          (case lib_Unpack env rawMessage of
             None \<Rightarrow> None
           | Some response \<Rightarrow>
               if cl_disableExpire c then Some (response, 0, False)
               else aged_response (cl_optimisticTimeout c) now response expireAt))"

definition loadResponse :: "'w client_env \<Rightarrow> int \<Rightarrow> dnsCacheKey \<Rightarrow> 'w Client \<Rightarrow> (Msg \<times> int \<times> bool) option \<times> 'w Client" where
  "loadResponse env now key c =
     (if cl_dnsCache c then (loadPersistentResponse env now key c, c)
      else if \<not> cl_cache c then (None, c)
      else if cl_disableExpire c then (map_option (\<lambda>response. (response, 0, False)) (lru_Get env (cl_world c) key), c)
      else
        (case lru_GetWithLifetimeNoExpire env (cl_world c) key of
           None \<Rightarrow> (None, c)
         | Some (response, expireAt) \<Rightarrow>
             (case aged_response (cl_optimisticTimeout c) now response expireAt of
                Some x \<Rightarrow> (Some x, c)
              | None \<Rightarrow> (None, c\<lparr>cl_world := lru_Remove env key (cl_world c)\<rparr>))))"

definition ClearCache :: "'w client_env \<Rightarrow> 'w Client \<Rightarrow> 'w Client" where
  "ClearCache env c =
     (let c = (if cl_cache c then c\<lparr>cl_world := lru_Purge env (cl_world c)\<rparr> else c) in
      if cl_dnsCache c then c\<lparr>cl_world := ds_ClearDNSCache env (cl_world c)\<rparr> else c)"

definition filter_hints :: "u8 \<Rightarrow> dnsRR \<Rightarrow> dnsRR" where
  "filter_hints strategy rr =
     (case rr_Body rr of
        RR_HTTPS vs \<Rightarrow>
          dnsRR (rr_Header rr) (RR_HTTPS (filter (\<lambda>it. if strategy = DomainStrategyIPv4Only then \<not> svcb_Key_is6 it else \<not> svcb_Key_is4 it) vs))
      | _ \<Rightarrow> rr)"

definition applyResponseOptions :: "Question \<Rightarrow> Msg \<Rightarrow> DNSQueryOptions \<Rightarrow> u32 \<times> Msg" where
  "applyResponseOptions question response options =
     (let response =
            (if q_Qtype question = TypeHTTPS \<and> (qo_Strategy options = DomainStrategyIPv4Only \<or> qo_Strategy options = DomainStrategyIPv6Only)
             then response\<lparr>msg_Answer := map (filter_hints (qo_Strategy options)) (msg_Answer response)\<rparr> else response);
          timeToLive = (case qo_RewriteTTL options of Some t \<Rightarrow> t | None \<Rightarrow> computeTimeToLive response)
      in (timeToLive, normalizeTTL response timeToLive))"

subsection \<open>Exchange\<close>

definition prepareExchangeMessage :: "'w Client \<Rightarrow> Msg \<Rightarrow> DNSQueryOptions \<Rightarrow> Msg" where
  "prepareExchangeMessage c message options =
     (if qo_RemoveClientSubnet options then removeClientSubnet message
      else
        let clientSubnet = (if prefix_IsValid (qo_ClientSubnet options) then qo_ClientSubnet options else cl_clientSubnet c)
        in if prefix_IsValid clientSubnet then SetClientSubnet message clientSubnet else message)"

definition isSimpleRequest :: "Msg \<Rightarrow> bool" where
  "isSimpleRequest message \<longleftrightarrow>
     length (msg_Question message) = 1 \<and> msg_Ns message = [] \<and>
     (case msg_Extra message of
        [] \<Rightarrow> True
      | [r] \<Rightarrow> hdr_Rrtype (rr_Header r) = TypeOPT \<and> hdr_Class (rr_Header r) > 0 \<and> hdr_Ttl (rr_Header r) = 0 \<and>
               (case as_OPT r of Some opts \<Rightarrow> list_all (\<lambda>it. edns_Option it = EDNS0SUBNET) opts | None \<Rightarrow> False)
      | _ \<Rightarrow> False)"

record exchangeOperation =
  op_message :: Msg
  op_question :: Question
  op_messageId :: u16
  op_options :: DNSQueryOptions
  op_disableCache :: bool
  op_cacheKey :: "dnsCacheKey option"

text \<open>
  How the beginning of an exchange ends: done with a response or an error, waiting for another exchange
  of the same key, or ready to ask the server.
\<close>

datatype exchange_status = ExchangeDone "dns_error + Msg" | ExchangeWait | ExchangeReady exchangeOperation

text \<open>Serving a loaded response; a stale one registers a refresh in the background.\<close>

definition serve_cached :: "DNSQueryOptions \<Rightarrow> u16 \<Rightarrow> dnsCacheKey \<Rightarrow> (Msg \<times> int \<times> bool) option \<Rightarrow> 'w Client \<Rightarrow> Msg option \<times> 'w Client" where
  "serve_cached options id' key loaded c =
     (case loaded of
        None \<Rightarrow> (None, c)
      | Some (response, ttl, isStale) \<Rightarrow>
          if isStale \<and> \<not> qo_DisableOptimisticCache options then
            (Some (response\<lparr>msg_Id := id'\<rparr>),
             if key \<in> set (cl_backgroundRefresh c) then c else c\<lparr>cl_backgroundRefresh := key # cl_backgroundRefresh c\<rparr>)
          else if \<not> isStale then (Some (response\<lparr>msg_Id := id'\<rparr>), c)
          else (None, c))"

definition cache_lookup :: "'w client_env \<Rightarrow> int \<Rightarrow> bool \<Rightarrow> dnsCacheKey \<Rightarrow> DNSQueryOptions \<Rightarrow> u16 \<Rightarrow> 'w Client \<Rightarrow> Msg option \<times> 'w Client" where
  "cache_lookup env now disableCache cacheKey options id' c =
     (if disableCache then (None, c)
      else let (loaded, c) = loadResponse env now cacheKey c in serve_cached options id' cacheKey loaded c)"

text \<open>
  \<open>beginExchange\<close> when no other exchange of the key is under way (\<open>held\<close> false), or when one is: then it
  tells the caller to wait. The caller that waits calls it again in the state it then finds, as if the
  key were free. \<open>contextTransport\<close> is the server whose query this one serves, if any.
\<close>

definition beginExchange :: "'w client_env \<Rightarrow> int \<Rightarrow> string \<Rightarrow> u64 \<Rightarrow> string option \<Rightarrow> bool \<Rightarrow> bool \<Rightarrow> Msg \<Rightarrow> DNSQueryOptions \<Rightarrow>
    'w Client \<Rightarrow> exchange_status \<times> 'w Client" where
  "beginExchange env now tag environment contextTransport held withChecker message options c =
     (case msg_Question message of
        [] \<Rightarrow> (ExchangeDone (Inr (FixedResponseStatus message RcodeFormatError)), c)
      | question # _ \<Rightarrow>
          if q_Qtype question = TypeA \<and> qo_Strategy options = DomainStrategyIPv6Only \<or>
             q_Qtype question = TypeAAAA \<and> qo_Strategy options = DomainStrategyIPv4Only
          then (ExchangeDone (Inr (FixedResponseStatus message RcodeSuccess)), c)
          else
            let simple = isSimpleRequest message;
                message = prepareExchangeMessage c message options;
                disableCache = (\<not> simple \<or> cl_disableCache c \<or> qo_DisableCache options);
                cacheKey = newCacheKey c tag environment question message options;
                (served, c) = cache_lookup env now disableCache cacheKey options (msg_Id message) c
            in case served of
                 Some response \<Rightarrow> (ExchangeDone (Inr response), c)
               | None \<Rightarrow>
                   if \<not> disableCache \<and> held then (ExchangeWait, c)
                   else if contextTransport = Some tag then (ExchangeDone (Inl (Loopback tag)), c)
                   else if \<not> disableCache \<and> withChecker \<and> cl_rdrc c \<and> rd_LoadRDRC env (cl_world c) tag (q_Name question) (q_Qtype question)
                   then (ExchangeDone (Inl ErrResponseRejectedCached), c)
                   else (ExchangeReady \<lparr>op_message = message, op_question = question, op_messageId = msg_Id message,
                           op_options = options, op_disableCache = disableCache,
                           op_cacheKey = (if disableCache then None else Some cacheKey)\<rparr>, c))"

definition exchangeToTransport :: "Msg \<Rightarrow> reply \<Rightarrow> dns_error + Msg" where
  "exchangeToTransport message r =
     (case r of
        ReplyMsg response \<Rightarrow> Inr (stripDNSPadding response)
      | ReplyRcode rcode \<Rightarrow> Inr (FixedResponseStatus message rcode)
      | ReplyError e \<Rightarrow> Inl (OtherError e))"

definition uncacheable_rcode :: "Msg \<Rightarrow> bool" where
  "uncacheable_rcode response \<longleftrightarrow> msg_Rcode response \<noteq> RcodeSuccess \<and> msg_Rcode response \<noteq> RcodeNameError"

definition rejects :: "(Msg \<Rightarrow> bool) option \<Rightarrow> Msg \<Rightarrow> bool" where
  "rejects responseChecker response =
     (case responseChecker of
        None \<Rightarrow> False
      | Some check \<Rightarrow> if uncacheable_rcode response then True else \<not> check response)"

definition fix_edns :: "'w client_env \<Rightarrow> Msg \<Rightarrow> Msg \<Rightarrow> Msg" where
  "fix_edns env request response =
     (case lib_IsEdns0 env response of
        None \<Rightarrow> response
      | Some responseOpt \<Rightarrow>
          let stripped = response\<lparr>msg_Extra := filter (\<lambda>it. hdr_Rrtype (rr_Header it) \<noteq> TypeOPT) (msg_Extra response)\<rparr> in
          case lib_IsEdns0 env request of
            None \<Rightarrow> stripped
          | Some requestOpt \<Rightarrow>
              if lib_Version env requestOpt < lib_Version env responseOpt then lib_SetEdns0 env responseOpt stripped else response)"

definition finishExchange :: "'w client_env \<Rightarrow> int \<Rightarrow> string \<Rightarrow> u64 \<Rightarrow> (Msg \<Rightarrow> bool) option \<Rightarrow> exchangeOperation \<Rightarrow> Msg \<Rightarrow>
    'w Client \<Rightarrow> (Msg \<times> dns_error option) \<times> 'w Client" where
  "finishExchange env now tag environment responseChecker operation response c =
     (let question = op_question operation;
          disableCache = (op_disableCache operation \<or> uncacheable_rcode response)
      in if rejects responseChecker response then
           ((response, Some ErrResponseRejected),
            if \<not> disableCache \<and> cl_rdrc c
            then c\<lparr>cl_world := rd_SaveRDRCAsync env tag (q_Name question) (q_Qtype question) (cl_world c)\<rparr> else c)
         else
           let (timeToLive, response) = applyResponseOptions question response (op_options operation);
               c = (case op_cacheKey operation of
                      Some key \<Rightarrow>
                        if disableCache then c
                        else let (cacheKey, storable) = finishCacheKey environment key
                             in if storable then storeCache env now cacheKey response timeToLive c else c
                    | None \<Rightarrow> c)
           in ((fix_edns env (op_message operation) (response\<lparr>msg_Id := op_messageId operation\<rparr>), None), c))"

text \<open>The end of a refresh in the background, with the server's reply.\<close>

definition finishRefresh :: "'w client_env \<Rightarrow> int \<Rightarrow> string \<Rightarrow> u64 \<Rightarrow> (Msg \<Rightarrow> bool) option \<Rightarrow> DNSQueryOptions \<Rightarrow> dnsCacheKey \<Rightarrow> Msg \<Rightarrow> reply \<Rightarrow>
    'w Client \<Rightarrow> 'w Client" where
  "finishRefresh env now tag environment responseChecker options key message r c =
     (let c = c\<lparr>cl_backgroundRefresh := removeAll key (cl_backgroundRefresh c)\<rparr> in
      case exchangeToTransport message r of
        Inl _ \<Rightarrow> c
      | Inr response \<Rightarrow>
          if rejects responseChecker response then
            (if cl_rdrc c
             then c\<lparr>cl_world := rd_SaveRDRCAsync env tag (q_Name (ck_Question key)) (q_Qtype (ck_Question key)) (cl_world c)\<rparr> else c)
          else if responseChecker = None \<and> uncacheable_rcode response then c
          else
            let (storeKey, storable) = finishCacheKey environment key in
            if \<not> storable then c
            else let (timeToLive, response) = applyResponseOptions (ck_Question key) response options
                 in storeCache env now storeKey response timeToLive c)"

text \<open>
  An exchange that nothing interrupts: its beginning at \<open>now\<close>, the server's reply to the message sent, and
  its end at \<open>now'\<close>.
\<close>

definition Client_Exchange :: "'w client_env \<Rightarrow> int \<Rightarrow> int \<Rightarrow> string \<Rightarrow> u64 \<Rightarrow> u64 \<Rightarrow> string option \<Rightarrow> (Msg \<Rightarrow> bool) option \<Rightarrow>
    (Msg \<Rightarrow> reply) \<Rightarrow> Msg \<Rightarrow> DNSQueryOptions \<Rightarrow> 'w Client \<Rightarrow> (Msg option \<times> dns_error option) \<times> 'w Client" where
  "Client_Exchange env now now' tag environment environment' contextTransport responseChecker server message options c =
     (case beginExchange env now tag environment contextTransport False (responseChecker \<noteq> None) message options c of
        (ExchangeDone (Inl err), c) \<Rightarrow> ((None, Some err), c)
      | (ExchangeDone (Inr response), c) \<Rightarrow> ((Some response, None), c)
      | (ExchangeWait, c) \<Rightarrow> ((None, None), c)
      | (ExchangeReady operation, c) \<Rightarrow>
          (case exchangeToTransport (op_message operation) (server (op_message operation)) of
             Inl err \<Rightarrow> ((None, Some err), c)
           | Inr response \<Rightarrow>
               (case finishExchange env now' tag environment' responseChecker operation response c of
                  ((response, err), c) \<Rightarrow> ((Some response, err), c))))"

subsection \<open>Lookup\<close>

definition lookup_message :: "string \<Rightarrow> u16 \<Rightarrow> Msg" where
  "lookup_message name qType =
     \<lparr>msg_Id = 0, msg_Response = False, msg_Authoritative = False, msg_RecursionDesired = True, msg_RecursionAvailable = False,
      msg_Rcode = 0, msg_Question = [\<lparr>q_Name = name, q_Qtype = qType, q_Qclass = ClassINET\<rparr>],
      msg_Answer = [], msg_Ns = [], msg_Extra = []\<rparr>"

definition response_addresses :: "(bytes \<Rightarrow> Addr) \<Rightarrow> Msg \<Rightarrow> dns_error + Addr list" where
  "response_addresses AddrFromIP response =
     (if msg_Rcode response \<noteq> RcodeSuccess then Inl (RcodeError (msg_Rcode response))
      else Inr (MessageToAddresses AddrFromIP response))"

definition questionCache :: "(bytes \<Rightarrow> Addr) \<Rightarrow> 'w client_env \<Rightarrow> int \<Rightarrow> string \<Rightarrow> u64 \<Rightarrow> Msg \<Rightarrow> DNSQueryOptions \<Rightarrow> 'w Client \<Rightarrow>
    (dns_error + Addr list) \<times> 'w Client" where
  "questionCache AddrFromIP env now tag environment message options c =
     (let question = hd (msg_Question message);
          cacheKey = newCacheKey c tag environment question message options;
          (loaded, c) = loadResponse env now cacheKey c
      in case loaded of
           None \<Rightarrow> (Inl ErrNotCached, c)
         | Some (response, ttl, isStale) \<Rightarrow>
             if isStale \<and> qo_DisableOptimisticCache options then (Inl ErrNotCached, c)
             else
               (response_addresses AddrFromIP response,
                if isStale \<and> cacheKey \<notin> set (cl_backgroundRefresh c)
                then c\<lparr>cl_backgroundRefresh := cacheKey # cl_backgroundRefresh c\<rparr> else c))"

definition lookupToExchange :: "(bytes \<Rightarrow> Addr) \<Rightarrow> 'w client_env \<Rightarrow> int \<Rightarrow> int \<Rightarrow> string \<Rightarrow> u64 \<Rightarrow> u64 \<Rightarrow> string option \<Rightarrow>
    (Msg \<Rightarrow> bool) option \<Rightarrow> (Msg \<Rightarrow> reply) \<Rightarrow> string \<Rightarrow> u16 \<Rightarrow> DNSQueryOptions \<Rightarrow> 'w Client \<Rightarrow> (dns_error + Addr list) \<times> 'w Client" where
  "lookupToExchange AddrFromIP env now now' tag environment environment' contextTransport responseChecker server name qType options c =
     (let message = lookup_message name qType;
          (cached, c) =
            (if \<not> (cl_disableCache c \<or> qo_DisableCache options)
             then questionCache AddrFromIP env now tag environment message options c else (Inl ErrNotCached, c))
      in if cached \<noteq> Inl ErrNotCached then (cached, c)
         else
           (case Client_Exchange env now now' tag environment environment' contextTransport responseChecker server message options c of
              ((_, Some err), c) \<Rightarrow> (Inl err, c)
            | ((Some response, None), c) \<Rightarrow> (response_addresses AddrFromIP response, c)
            | ((None, None), c) \<Rightarrow> (Inl ErrNotCached, c)))"

definition sortAddresses :: "Addr list \<Rightarrow> Addr list \<Rightarrow> u8 \<Rightarrow> Addr list" where
  "sortAddresses response4 response6 strategy =
     (if strategy = DomainStrategyPreferIPv6 then response6 @ response4 else response4 @ response6)"

text \<open>The end of \<open>Lookup\<close> for both families: the results of the two look-ups and the error of the group.\<close>

definition lookup_result :: "Addr list \<Rightarrow> Addr list \<Rightarrow> dns_error option \<Rightarrow> u8 \<Rightarrow> Addr list \<times> dns_error option" where
  "lookup_result response4 response6 err strategy =
     (if response4 = [] \<and> response6 = [] then ([], err) else (sortAddresses response4 response6 strategy, None))"

end
