(* ===== verification/DNSClientLaws.thy ===== *)
theory DNSClientLaws
  imports DNSClient
begin

text \<open>
  The laws of the DNS client: runs of the client with a log of the replies received, the invariant that
  every entry of the memory cache comes from the log, and the properties.
\<close>

subsection \<open>What the client relies on\<close>

text \<open>
  The memory cache may forget entries but never invents one; the other stores are separate from it.
\<close>

definition lru_sound :: "'w client_env \<Rightarrow> bool" where
  "lru_sound env \<longleftrightarrow>
     (\<forall>now k m l w k' x. lru_GetWithLifetimeNoExpire env (lru_AddWithLifetime env now k m l w) k' = Some x \<longrightarrow>
        k' = k \<and> x = (m, now + l) \<or> lru_GetWithLifetimeNoExpire env w k' = Some x) \<and>
     (\<forall>k w k' x. lru_GetWithLifetimeNoExpire env (lru_Remove env k w) k' = Some x \<longrightarrow> lru_GetWithLifetimeNoExpire env w k' = Some x) \<and>
     (\<forall>w k. lru_GetWithLifetimeNoExpire env (lru_Purge env w) k = None) \<and>
     (\<forall>tag name t w. lru_GetWithLifetimeNoExpire env (rd_SaveRDRCAsync env tag name t w) = lru_GetWithLifetimeNoExpire env w)"

lemma lru_soundD:
  assumes "lru_sound env"
  shows "lru_GetWithLifetimeNoExpire env (lru_AddWithLifetime env now k m l w) k' = Some x \<Longrightarrow>
      k' = k \<and> x = (m, now + l) \<or> lru_GetWithLifetimeNoExpire env w k' = Some x"
    "lru_GetWithLifetimeNoExpire env (lru_Remove env k w) k' = Some x \<Longrightarrow> lru_GetWithLifetimeNoExpire env w k' = Some x"
    "lru_GetWithLifetimeNoExpire env (lru_Purge env w) k = None"
    "lru_GetWithLifetimeNoExpire env (rd_SaveRDRCAsync env tag name t w) = lru_GetWithLifetimeNoExpire env w"
  using assms unfolding lru_sound_def by blast+

subsection \<open>Runs\<close>

text \<open>
  A reply in the log: the key under which it may be stored, the time, the response and the options of
  the query. A run interleaves beginnings and ends of exchanges, refreshes and clearing of the cache.
\<close>

type_synonym received = "dnsCacheKey \<times> int \<times> Msg \<times> DNSQueryOptions"

record 'w client_run =
  run_client :: "'w Client"
  run_pending :: "(string \<times> exchangeOperation) list"
  run_log :: "received list"

definition received_for :: "u64 \<Rightarrow> int \<Rightarrow> dnsCacheKey option \<Rightarrow> Msg \<Rightarrow> DNSQueryOptions \<Rightarrow> received list" where
  "received_for environment now key response options =
     (case key of None \<Rightarrow> [] | Some k \<Rightarrow> [(fst (finishCacheKey environment k), now, response, options)])"

inductive client_step :: "'w client_env \<Rightarrow> 'w client_run \<Rightarrow> 'w client_run \<Rightarrow> bool" for env where
  step_begin: "beginExchange env now tag environment ctx held chk message options (run_client s) = (status, c) \<Longrightarrow>
    client_step env s (s\<lparr>run_client := c,
      run_pending := (case status of ExchangeReady op \<Rightarrow> (tag, op) # run_pending s | _ \<Rightarrow> run_pending s)\<rparr>)"
| step_finish: "(tag, op) \<in> set (run_pending s) \<Longrightarrow> exchangeToTransport (op_message op) r = Inr response \<Longrightarrow>
    finishExchange env now tag environment checker op response (run_client s) = (res, c) \<Longrightarrow>
    client_step env s (s\<lparr>run_client := c, run_pending := remove1 (tag, op) (run_pending s),
      run_log := received_for environment now (op_cacheKey op) response (op_options op) @ run_log s\<rparr>)"
| step_fail: "(tag, op) \<in> set (run_pending s) \<Longrightarrow> client_step env s (s\<lparr>run_pending := remove1 (tag, op) (run_pending s)\<rparr>)"
| step_refresh: "key \<in> set (cl_backgroundRefresh (run_client s)) \<Longrightarrow>
    client_step env s (s\<lparr>run_client := finishRefresh env now (ck_transportTag key) environment checker options key message r (run_client s),
      run_log := (case exchangeToTransport message r of
          Inl _ \<Rightarrow> [] | Inr response \<Rightarrow> received_for environment now (Some key) response options) @ run_log s\<rparr>)"
| step_clear: "client_step env s (s\<lparr>run_client := ClearCache env (run_client s)\<rparr>)"

inductive client_reachable :: "'w client_env \<Rightarrow> 'w client_run \<Rightarrow> 'w client_run \<Rightarrow> bool" for env s0 where
  reach_start: "client_reachable env s0 s0"
| reach_step: "client_reachable env s0 s \<Longrightarrow> client_step env s s' \<Longrightarrow> client_reachable env s0 s'"

subsection \<open>The invariant\<close>

text \<open>The entry of a reply: what is stored for it.\<close>

definition entry_of :: "received \<Rightarrow> dnsCacheKey \<Rightarrow> Msg \<Rightarrow> int \<Rightarrow> bool" where
  "entry_of rcv k m e \<longleftrightarrow>
     (case rcv of (key, t, response, options) \<Rightarrow>
        k = key \<and> m = snd (applyResponseOptions (ck_Question key) response options) \<and>
        fst (applyResponseOptions (ck_Question key) response options) \<noteq> 0 \<and>
        e = t + 1000000000 * uint (fst (applyResponseOptions (ck_Question key) response options)))"

definition memory_only :: "'w Client \<Rightarrow> bool" where
  "memory_only c \<longleftrightarrow> \<not> cl_dnsCache c \<and> \<not> cl_disableExpire c"

definition cache_ok :: "'w client_env \<Rightarrow> received list \<Rightarrow> 'w Client \<Rightarrow> bool" where
  "cache_ok env log c \<longleftrightarrow> memory_only c \<and>
     (\<forall>k m e. lru_GetWithLifetimeNoExpire env (cl_world c) k = Some (m, e) \<longrightarrow> (\<exists>rcv\<in>set log. entry_of rcv k m e))"

lemma cache_ok_mono: "cache_ok env log c \<Longrightarrow> set log \<subseteq> set log' \<Longrightarrow> cache_ok env log' c"
  unfolding cache_ok_def by blast

lemma cache_ok_world:
  assumes "cache_ok env log c" "memory_only c'"
    and "\<And>k x. lru_GetWithLifetimeNoExpire env (cl_world c') k = Some x \<Longrightarrow> lru_GetWithLifetimeNoExpire env (cl_world c) k = Some x"
  shows "cache_ok env log c'"
  using assms unfolding cache_ok_def by blast

lemma storeCache_ok:
  assumes "lru_sound env" "cache_ok env log c" "(ttl, m) = applyResponseOptions (ck_Question k) response options"
  shows "cache_ok env ((k, now, response, options) # log) (storeCache env now k m ttl c)"
proof -
  have ok: "memory_only c" "cache_ok env ((k, now, response, options) # log) c"
    using assms(2) cache_ok_mono [OF assms(2), of "(k, now, response, options) # log"] by (auto simp: cache_ok_def)
  show ?thesis
  proof (cases "ttl = 0 \<or> \<not> cl_cache c")
    case True
    then have "storeCache env now k m ttl c = c" using ok(1) by (auto simp: storeCache_def memory_only_def)
    then show ?thesis using ok(2) by simp
  next
    case False
    let ?w = "lru_AddWithLifetime env now k m (1000000000 * uint ttl) (cl_world c)"
    have s: "storeCache env now k m ttl c = c\<lparr>cl_world := ?w\<rparr>"
      using False ok(1) by (auto simp: storeCache_def memory_only_def)
    have e: "entry_of (k, now, response, options) k m (now + 1000000000 * uint ttl)"
      using False assms(3) by (auto simp: entry_of_def fst_def [symmetric] dest: arg_cong [where f = fst] arg_cong [where f = snd])
    have "\<exists>rcv\<in>set ((k, now, response, options) # log). entry_of rcv k' m' e'"
      if "lru_GetWithLifetimeNoExpire env ?w k' = Some (m', e')" for k' m' e'
      using lru_soundD(1) [OF assms(1) that]
    proof (elim disjE conjE)
      assume "k' = k" "(m', e') = (m, now + 1000000000 * uint ttl)"
      then show ?thesis using e by auto
    next
      assume "lru_GetWithLifetimeNoExpire env (cl_world c) k' = Some (m', e')"
      then show ?thesis using ok(2) unfolding cache_ok_def by blast
    qed
    then show ?thesis using s ok(1) by (simp add: cache_ok_def memory_only_def)
  qed
qed

lemma loadResponse_memory:
  assumes "memory_only c"
  shows "cl_cache c \<Longrightarrow> lru_GetWithLifetimeNoExpire env (cl_world c) key = Some (r, e) \<Longrightarrow>
      loadResponse env now key c =
        (case aged_response (cl_optimisticTimeout c) now r e of
           Some x \<Rightarrow> (Some x, c)
         | None \<Rightarrow> (None, c\<lparr>cl_world := lru_Remove env key (cl_world c)\<rparr>))"
    and "\<not> cl_cache c \<or> lru_GetWithLifetimeNoExpire env (cl_world c) key = None \<Longrightarrow> loadResponse env now key c = (None, c)"
  using assms by (auto simp: loadResponse_def memory_only_def)

lemma loadResponse_ok:
  assumes "lru_sound env" "cache_ok env log c" "loadResponse env now key c = (loaded, c')"
  shows "cache_ok env log c' \<and> (\<forall>x. loaded = Some x \<longrightarrow>
      (\<exists>rcv\<in>set log. \<exists>m e. entry_of rcv key m e \<and> aged_response (cl_optimisticTimeout c) now m e = Some x))"
proof -
  have mem: "memory_only c" using assms(2) by (simp add: cache_ok_def)
  show ?thesis
  proof (cases "\<not> cl_cache c \<or> lru_GetWithLifetimeNoExpire env (cl_world c) key = None")
    case True
    then have "loaded = None" "c' = c" using loadResponse_memory(2) [OF mem True, of now] assms(3) by auto
    then show ?thesis using assms(2) by simp
  next
    case False
    then obtain r e where re: "cl_cache c" "lru_GetWithLifetimeNoExpire env (cl_world c) key = Some (r, e)" by force
    note l = loadResponse_memory(1) [OF mem re, of now]
    show ?thesis
    proof (cases "aged_response (cl_optimisticTimeout c) now r e")
      case None
      then have c': "loaded = None" "c' = c\<lparr>cl_world := lru_Remove env key (cl_world c)\<rparr>" using l assms(3) by auto
      have "cache_ok env log c'"
      proof (rule cache_ok_world [OF assms(2)])
        show "memory_only c'" using mem c'(2) by (simp add: memory_only_def)
        show "lru_GetWithLifetimeNoExpire env (cl_world c) k = Some x" if "lru_GetWithLifetimeNoExpire env (cl_world c') k = Some x" for k x
          by (rule lru_soundD(2) [OF assms(1)]) (use that c'(2) in simp)
      qed
      then show ?thesis using c'(1) by simp
    next
      case (Some x)
      then have c': "loaded = Some x" "c' = c" using l assms(3) by auto
      obtain rcv where "rcv \<in> set log" "entry_of rcv key r e" using assms(2) re(2) unfolding cache_ok_def by blast
      then show ?thesis using c' Some assms(2) by auto
    qed
  qed
qed

lemma cache_ok_refresh [simp]: "cache_ok env log (c\<lparr>cl_backgroundRefresh := x\<rparr>) \<longleftrightarrow> cache_ok env log c"
  by (simp add: cache_ok_def memory_only_def)

lemma serve_cached_ok: "cache_ok env log c \<Longrightarrow> serve_cached options i key loaded c = (served, c') \<Longrightarrow> cache_ok env log c'"
  by (auto simp: serve_cached_def split: option.splits prod.splits if_splits)

lemma cache_lookup_ok:
  assumes "lru_sound env" "cache_ok env log c" "cache_lookup env now dis key options i c = (served, c')"
  shows "cache_ok env log c'"
proof (cases dis)
  case False
  obtain loaded c1 where l: "loadResponse env now key c = (loaded, c1)" by (metis surj_pair)
  then show ?thesis
    using serve_cached_ok [OF conjunct1 [OF loadResponse_ok [OF assms(1,2) l]]] assms(3) False by (simp add: cache_lookup_def)
qed (use assms in \<open>simp add: cache_lookup_def\<close>)

text \<open>The parts of \<open>beginExchange\<close>.\<close>

definition strategy_rejects :: "Question \<Rightarrow> DNSQueryOptions \<Rightarrow> bool" where
  "strategy_rejects question options \<longleftrightarrow>
     q_Qtype question = TypeA \<and> qo_Strategy options = DomainStrategyIPv6Only \<or>
     q_Qtype question = TypeAAAA \<and> qo_Strategy options = DomainStrategyIPv4Only"

lemma beginExchange_cases:
  assumes "beginExchange env now tag environment ctx held chk message options c = (status, c')"
  obtains (no_question) "msg_Question message = []" "c' = c" "status = ExchangeDone (Inr (FixedResponseStatus message RcodeFormatError))"
  | (strategy) q qs where "msg_Question message = q # qs" "strategy_rejects q options" "c' = c"
      "status = ExchangeDone (Inr (FixedResponseStatus message RcodeSuccess))"
  | (lookup) q qs dis key served where "msg_Question message = q # qs" "\<not> strategy_rejects q options"
      "key = newCacheKey c tag environment q (prepareExchangeMessage c message options) options"
      "cache_lookup env now dis key options (msg_Id (prepareExchangeMessage c message options)) c = (served, c')"
      "case served of Some response \<Rightarrow> status = ExchangeDone (Inr response)
       | None \<Rightarrow> status \<in> {ExchangeWait, ExchangeDone (Inl (Loopback tag)), ExchangeDone (Inl ErrResponseRejectedCached),
           ExchangeReady \<lparr>op_message = prepareExchangeMessage c message options, op_question = q,
             op_messageId = msg_Id (prepareExchangeMessage c message options), op_options = options, op_disableCache = dis,
             op_cacheKey = (if dis then None else Some key)\<rparr>}"
proof (cases "msg_Question message")
  case Nil
  then show ?thesis using no_question assms by (simp add: beginExchange_def)
next
  case (Cons q qs)
  show ?thesis
  proof (cases "strategy_rejects q options")
    case True
    then show ?thesis using strategy [OF Cons True] assms Cons by (simp add: beginExchange_def strategy_rejects_def)
  next
    case False
    let ?m = "prepareExchangeMessage c message options"
    let ?key = "newCacheKey c tag environment q ?m options"
    let ?dis = "\<not> isSimpleRequest message \<or> cl_disableCache c \<or> qo_DisableCache options"
    obtain served c2 where l: "cache_lookup env now ?dis ?key options (msg_Id ?m) c = (served, c2)" by (metis surj_pair)
    have b: "beginExchange env now tag environment ctx held chk message options c =
      (case served of
         Some response \<Rightarrow> (ExchangeDone (Inr response), c2)
       | None \<Rightarrow>
           if \<not> ?dis \<and> held then (ExchangeWait, c2)
           else if ctx = Some tag then (ExchangeDone (Inl (Loopback tag)), c2)
           else if \<not> ?dis \<and> chk \<and> cl_rdrc c2 \<and> rd_LoadRDRC env (cl_world c2) tag (q_Name q) (q_Qtype q)
           then (ExchangeDone (Inl ErrResponseRejectedCached), c2)
           else (ExchangeReady \<lparr>op_message = ?m, op_question = q, op_messageId = msg_Id ?m,
                   op_options = options, op_disableCache = ?dis, op_cacheKey = (if ?dis then None else Some ?key)\<rparr>, c2))"
      using False unfolding strategy_rejects_def beginExchange_def Let_def Cons list.case l prod.case by (simp only: if_False)
    show ?thesis
    proof (cases served)
      case None
      then show ?thesis using lookup [OF Cons False refl, of ?dis served] l b assms by (auto split: if_splits)
    next
      case (Some response)
      then show ?thesis using lookup [OF Cons False refl, of ?dis served] l b assms by auto
    qed
  qed
qed

lemma beginExchange_ok:
  assumes "lru_sound env" "cache_ok env log c"
    and "beginExchange env now tag environment ctx held chk message options c = (status, c')"
  shows "cache_ok env log c'"
  using assms(3) by (cases rule: beginExchange_cases) (use cache_lookup_ok [OF assms(1,2)] assms(2) in auto)

lemma rdrc_ok:
  assumes "lru_sound env" "cache_ok env log c"
  shows "cache_ok env log (c\<lparr>cl_world := rd_SaveRDRCAsync env tag name t (cl_world c)\<rparr>)"
  using cache_ok_world [OF assms(2)] assms(2) lru_soundD(4) [OF assms(1)] by (simp add: cache_ok_def memory_only_def)

lemma finishCacheKey_question [simp]: "ck_Question (fst (finishCacheKey e k)) = ck_Question k"
  by (simp add: finishCacheKey_def)

lemma finish_store_ok:
  assumes "lru_sound env" "cache_ok env log c" "question = ck_Question key"
    and "(ttl, m) = applyResponseOptions question response options" "(key', storable) = finishCacheKey environment key"
  shows "cache_ok env (received_for environment now (Some key) response options @ log)
    (if storable then storeCache env now key' m ttl c else c)"
proof -
  have q: "key' = fst (finishCacheKey environment key)" "ck_Question key' = ck_Question key"
    using assms(5) finishCacheKey_question [of environment key] by (auto dest: arg_cong [where f = fst])
  have "cache_ok env ((key', now, response, options) # log) (storeCache env now key' m ttl c)"
    using storeCache_ok [OF assms(1,2), of ttl m key' response options now] assms(3,4) q(2) by simp
  moreover have "cache_ok env ((key', now, response, options) # log) c" by (rule cache_ok_mono [OF assms(2)]) auto
  ultimately show ?thesis using q(1) by (simp add: received_for_def)
qed

lemma finishExchange_ok:
  assumes "lru_sound env" "cache_ok env log c" "\<And>k. op_cacheKey op = Some k \<Longrightarrow> op_question op = ck_Question k"
    and "finishExchange env now tag environment checker op response c = (res, c')"
  shows "cache_ok env (received_for environment now (op_cacheKey op) response (op_options op) @ log) c'"
proof -
  let ?log = "received_for environment now (op_cacheKey op) response (op_options op) @ log"
  have keep: "cache_ok env ?log c" by (rule cache_ok_mono [OF assms(2)]) auto
  obtain ttl m where tm: "applyResponseOptions (op_question op) response (op_options op) = (ttl, m)" by (metis surj_pair)
  show ?thesis
  proof (cases "rejects checker response")
    case True
    then show ?thesis using assms(4) keep rdrc_ok [OF assms(1) keep] by (auto simp: finishExchange_def Let_def split: if_splits)
  next
    case False
    show ?thesis
    proof (cases "op_cacheKey op")
      case None
      then show ?thesis using assms(4) False keep tm by (auto simp: finishExchange_def Let_def split: if_splits)
    next
      case (Some k)
      obtain k' st where ks: "finishCacheKey environment k = (k', st)" by (metis surj_pair)
      have "c' = c \<or> c' = (if st then storeCache env now k' m ttl c else c)"
        using assms(4) False Some tm ks by (auto simp: finishExchange_def Let_def split: if_splits)
      moreover have "cache_ok env ?log (if st then storeCache env now k' m ttl c else c)"
        using finish_store_ok [OF assms(1,2) assms(3) [OF Some] tm [symmetric] ks [symmetric]] Some by simp
      ultimately show ?thesis using keep by auto
    qed
  qed
qed

lemma finishRefresh_ok:
  assumes "lru_sound env" "cache_ok env log c" "exchangeToTransport message r = Inr response"
  shows "cache_ok env (received_for environment now (Some key) response options @ log)
    (finishRefresh env now tag environment checker options key message r c)"
proof -
  let ?log = "received_for environment now (Some key) response options @ log"
  let ?c = "c\<lparr>cl_backgroundRefresh := removeAll key (cl_backgroundRefresh c)\<rparr>"
  have ok: "cache_ok env log ?c" using assms(2) by simp
  have keep: "cache_ok env ?log ?c" by (rule cache_ok_mono [OF ok]) auto
  obtain ttl m where tm: "applyResponseOptions (ck_Question key) response options = (ttl, m)" by (metis surj_pair)
  obtain k' st where ks: "finishCacheKey environment key = (k', st)" by (metis surj_pair)
  note store = finish_store_ok [OF assms(1) ok refl tm [symmetric] ks [symmetric], of now]
  have "finishRefresh env now tag environment checker options key message r c \<in>
      {?c, ?c\<lparr>cl_world := rd_SaveRDRCAsync env tag (q_Name (ck_Question key)) (q_Qtype (ck_Question key)) (cl_world ?c)\<rparr>,
       if st then storeCache env now k' m ttl ?c else ?c}"
    using assms(3) tm ks by (simp add: finishRefresh_def Let_def)
  then show ?thesis using keep store rdrc_ok [OF assms(1) keep] by auto
qed

lemma finishRefresh_failed_ok:
  assumes "cache_ok env log c" "exchangeToTransport message r = Inl e"
  shows "cache_ok env log (finishRefresh env now tag environment checker options key message r c)"
  using assms by (simp add: finishRefresh_def)

lemma ClearCache_ok:
  assumes "lru_sound env" "cache_ok env log c"
  shows "cache_ok env log (ClearCache env c)"
  using assms lru_soundD(3) [OF assms(1)] by (auto simp: ClearCache_def cache_ok_def memory_only_def)

text \<open>Pending operations carry the key of their question.\<close>

definition client_run_ok :: "'w client_env \<Rightarrow> 'w client_run \<Rightarrow> bool" where
  "client_run_ok env s \<longleftrightarrow> cache_ok env (run_log s) (run_client s) \<and>
     (\<forall>(tag, op)\<in>set (run_pending s). \<forall>k. op_cacheKey op = Some k \<longrightarrow> op_question op = ck_Question k)"

lemma beginExchange_operation:
  assumes "beginExchange env now tag environment ctx held chk message options c = (ExchangeReady op, c')" "op_cacheKey op = Some k"
  shows "op_question op = ck_Question k"
  using assms(1)
proof (cases rule: beginExchange_cases)
  case (lookup q qs dis key served)
  then show ?thesis using assms(2) by (auto simp: newCacheKey_def split: option.splits if_splits)
qed auto

lemma client_step_ok:
  assumes "lru_sound env" "client_step env s s'" "client_run_ok env s"
  shows "client_run_ok env s'"
  using assms(2,3)
proof (induction rule: client_step.induct)
  case (step_begin now tag environment ctx held chk message options s status c)
  then have "cache_ok env (run_log s) c" using beginExchange_ok [OF assms(1)] by (auto simp: client_run_ok_def)
  then show ?case
    using step_begin beginExchange_operation [of env now tag environment ctx held chk message options "run_client s" _ c]
    by (auto simp: client_run_ok_def split: exchange_status.splits)
next
  case (step_finish tag op s r response now environment checker res c)
  have "cache_ok env (received_for environment now (op_cacheKey op) response (op_options op) @ run_log s) c"
    using finishExchange_ok [OF assms(1) _ _ step_finish(3)] step_finish(1,4) by (auto simp: client_run_ok_def)
  then show ?case using step_finish(4) set_remove1_subset by (fastforce simp: client_run_ok_def)
next
  case (step_fail tag op s)
  then show ?case using set_remove1_subset by (fastforce simp: client_run_ok_def)
next
  case (step_refresh key s message r environment now options checker)
  then show ?case
    using finishRefresh_ok [OF assms(1)] finishRefresh_failed_ok
    by (cases "exchangeToTransport message r") (auto simp: client_run_ok_def)
next
  case (step_clear s)
  then show ?case using ClearCache_ok [OF assms(1)] by (auto simp: client_run_ok_def)
qed

lemma client_reachable_ok: "client_reachable env s0 s \<Longrightarrow> lru_sound env \<Longrightarrow> client_run_ok env s0 \<Longrightarrow> client_run_ok env s"
  by (induction rule: client_reachable.induct) (auto intro: client_step_ok)

subsection \<open>Properties\<close>

text \<open>A client that keeps responses in memory only, with an empty cache.\<close>

definition fresh_run :: "'w client_env \<Rightarrow> 'w Client \<Rightarrow> 'w client_run" where
  "fresh_run env c = \<lparr>run_client = c, run_pending = [], run_log = []\<rparr>"

definition fresh_client :: "'w client_env \<Rightarrow> 'w Client \<Rightarrow> bool" where
  "fresh_client env c \<longleftrightarrow> memory_only c \<and> (\<forall>k. lru_GetWithLifetimeNoExpire env (cl_world c) k = None)"

lemma fresh_run_ok: "fresh_client env c \<Longrightarrow> client_run_ok env (fresh_run env c)"
  by (simp add: fresh_client_def fresh_run_def client_run_ok_def cache_ok_def)

text \<open>What serving an entry means, at a time, for the reply it comes from.\<close>

definition served_from :: "int \<Rightarrow> DNSQueryOptions \<Rightarrow> u16 \<Rightarrow> int \<Rightarrow> int \<Rightarrow> u32 \<Rightarrow> Msg \<Rightarrow> Msg \<Rightarrow> bool" where
  "served_from optimistic options id' now t ttl m response \<longleftrightarrow>
     (if now \<le> t + 1000000000 * uint ttl
      then response = (normalizeTTL m (of_int ((t + 1000000000 * uint ttl - now) div 1000000000)))\<lparr>msg_Id := id'\<rparr>
      else now < t + 1000000000 * uint ttl + optimistic \<and> \<not> qo_DisableOptimisticCache options \<and>
           response = (normalizeTTL m 1)\<lparr>msg_Id := id'\<rparr>)"

lemma serve_cached_Some:
  assumes "serve_cached options i key loaded c = (Some response, c')"
  shows "\<exists>r ttl stale. loaded = Some (r, ttl, stale) \<and> response = r\<lparr>msg_Id := i\<rparr> \<and> (stale \<longrightarrow> \<not> qo_DisableOptimisticCache options)"
  using assms by (auto simp: serve_cached_def split: option.splits prod.splits if_splits)

lemma aged_response_served:
  assumes "aged_response optimistic now m (t + 1000000000 * uint ttl) = Some (r, n, stale)" "stale \<longrightarrow> \<not> qo_DisableOptimisticCache options"
  shows "served_from optimistic options i now t ttl m (r\<lparr>msg_Id := i\<rparr>)"
proof -
  let ?e = "t + 1000000000 * uint ttl"
  show ?thesis
  proof (cases "now \<le> ?e")
    case True
    then have "0 \<le> (?e - now) div 1000000000" by (simp add: pos_imp_zdiv_nonneg_iff)
    then show ?thesis using assms True by (auto simp: aged_response_def served_from_def Let_def max_def)
  next
    case False
    then show ?thesis using assms by (auto simp: aged_response_def served_from_def split: if_splits)
  qed
qed

lemma cache_lookup_served:
  assumes "lru_sound env" "cache_ok env log c" "cache_lookup env now dis key options i c = (Some response, c')"
  shows "\<exists>t resp opts ttl m. (key, t, resp, opts) \<in> set log \<and> applyResponseOptions (ck_Question key) resp opts = (ttl, m) \<and>
    ttl \<noteq> 0 \<and> served_from (cl_optimisticTimeout c) options i now t ttl m response"
proof -
  obtain loaded c1 where l: "loadResponse env now key c = (loaded, c1)" "\<not> dis"
      "serve_cached options i key loaded c1 = (Some response, c')"
    using assms(3) by (auto simp: cache_lookup_def split: if_splits prod.splits)
  obtain r n stale where s: "loaded = Some (r, n, stale)" "response = r\<lparr>msg_Id := i\<rparr>" "stale \<longrightarrow> \<not> qo_DisableOptimisticCache options"
    using serve_cached_Some [OF l(3)] by blast
  obtain rcv m e where rcv: "rcv \<in> set log" "entry_of rcv key m e" "aged_response (cl_optimisticTimeout c) now m e = Some (r, n, stale)"
    using loadResponse_ok [OF assms(1,2) l(1)] s(1) by blast
  obtain k t resp opts where k: "rcv = (k, t, resp, opts)" by (metis surj_pair)
  obtain ttl m' where tm: "applyResponseOptions (ck_Question key) resp opts = (ttl, m')" by (metis surj_pair)
  have e: "k = key" "m = m'" "ttl \<noteq> 0" "e = t + 1000000000 * uint ttl" using rcv(2) k tm by (auto simp: entry_of_def)
  have "served_from (cl_optimisticTimeout c) options i now t ttl m' response"
    using aged_response_served [of "cl_optimisticTimeout c" now m t ttl r n stale options i] rcv(3) s e by simp
  then show ?thesis using rcv(1) k e tm by blast
qed


text \<open>A memory cache that forgets nothing, and a run of two exchanges of the same question.\<close>

definition map_env :: "(dnsCacheKey \<rightharpoonup> Msg \<times> int) client_env" where
  "map_env =
     \<lparr>lru_Add = (\<lambda>k m w. w(k \<mapsto> (m, 0))), lru_AddWithLifetime = (\<lambda>now k m l w. w(k \<mapsto> (m, now + l))), lru_Get = (\<lambda>w k. map_option fst (w k)),
      lru_GetWithLifetimeNoExpire = (\<lambda>w k. w k), lru_Remove = (\<lambda>k w. w(k := None)), lru_Purge = (\<lambda>w. Map.empty),
      ds_LoadDNSCache = (\<lambda>w _ _ _. None), ds_SaveDNSCacheAsync = (\<lambda>_ _ _ _ _ w. w), ds_ClearDNSCache = (\<lambda>w. w),
      rd_LoadRDRC = (\<lambda>w _ _ _. False), rd_SaveRDRCAsync = (\<lambda>_ _ _ w. w), lib_Pack = (\<lambda>_. None), lib_Unpack = (\<lambda>_. None),
      lib_PrefixString = (\<lambda>_. []), lib_FormatUint36 = (\<lambda>_. []), lib_IsEdns0 = (\<lambda>_. None), lib_Version = (\<lambda>_. 0), lib_SetEdns0 = (\<lambda>_ m. m)\<rparr>"

lemma map_env_sound: "lru_sound map_env"
  by (auto simp: lru_sound_def map_env_def split: if_splits)

definition sample_client :: "(dnsCacheKey \<rightharpoonup> Msg \<times> int) Client" where
  "sample_client =
     \<lparr>cl_disableCache = False, cl_disableExpire = False, cl_optimisticTimeout = 0, cl_clientSubnet = prefix_zero, cl_rdrc = False,
      cl_dnsCache = False, cl_cache = True, cl_backgroundRefresh = [], cl_world = Map.empty\<rparr>"

definition sample_options :: DNSQueryOptions where
  "sample_options = \<lparr>qo_Strategy = 0, qo_DisableCache = False, qo_DisableOptimisticCache = False, qo_RewriteTTL = None,
     qo_ClientSubnet = prefix_zero, qo_RemoveClientSubnet = False\<rparr>"

definition sample_question :: Question where
  "sample_question = \<lparr>q_Name = ''example.org.'', q_Qtype = 1, q_Qclass = 1\<rparr>"

definition sample_answer :: Msg where
  "sample_answer = FixedResponse 0 sample_question [Addr4 0x01020304] 60"

definition sample_key :: dnsCacheKey where
  "sample_key = \<lparr>ck_Question = sample_question, ck_transportTag = ''dns'', ck_clientSubnet = prefix_zero, ck_environment = 0\<rparr>"

definition sample_op :: exchangeOperation where
  "sample_op = \<lparr>op_message = lookup_message ''example.org.'' 1, op_question = sample_question, op_messageId = 0, op_options = sample_options,
     op_disableCache = False, op_cacheKey = Some sample_key\<rparr>"

lemmas sample_client_defs = sample_client_def sample_options_def sample_question_def sample_key_def sample_op_def
  lookup_message_def ClassINET_def prefix_IsValid_def

lemma sample_begin:
  "beginExchange map_env 0 ''dns'' 0 None False False (lookup_message ''example.org.'' 1) sample_options sample_client =
     (ExchangeReady sample_op, sample_client)"
proof -
  have "isSimpleRequest (lookup_message ''example.org.'' 1)" by (simp add: isSimpleRequest_def lookup_message_def)
  moreover have "prepareExchangeMessage sample_client (lookup_message ''example.org.'' 1) sample_options = lookup_message ''example.org.'' 1"
    by (simp add: prepareExchangeMessage_def sample_client_defs)
  moreover have "newCacheKey sample_client ''dns'' 0 sample_question (lookup_message ''example.org.'' 1) sample_options = sample_key"
    by (simp add: newCacheKey_def clientSubnetFromMessage_def sample_client_defs)
  moreover have "cache_lookup map_env 0 False sample_key sample_options 0 sample_client = (None, sample_client)"
    by (simp add: cache_lookup_def loadResponse_def serve_cached_def map_env_def sample_client_def)
  ultimately show ?thesis
    by (simp add: beginExchange_def sample_op_def sample_question_def lookup_message_def sample_options_def sample_client_def
        ClassINET_def TypeA_def TypeAAAA_def DomainStrategyIPv4Only_def DomainStrategyIPv6Only_def)
qed

lemma sample_apply: "applyResponseOptions sample_question sample_answer sample_options = (60, sample_answer)"
  by (simp add: applyResponseOptions_def sample_answer_def FixedResponse_def fixed_success_def address_answer_def answer_header_def
      sample_question_def sample_options_def TypeA_def TypeHTTPS_def computeTimeToLive_def ttl_step_def normalizeTTL_def TypeOPT_def)

lemma sample_finish:
  "snd (finishExchange map_env 0 ''dns'' 0 None sample_op sample_answer sample_client) =
     sample_client\<lparr>cl_world := [sample_key \<mapsto> (sample_answer, 60000000000)]\<rparr>"
proof -
  have "\<not> uncacheable_rcode sample_answer"
    by (simp add: uncacheable_rcode_def sample_answer_def FixedResponse_def fixed_success_def)
  moreover have "finishCacheKey 0 sample_key = (sample_key, True)" by (simp add: finishCacheKey_def sample_key_def)
  moreover have "storeCache map_env 0 sample_key sample_answer 60 sample_client =
      sample_client\<lparr>cl_world := [sample_key \<mapsto> (sample_answer, 60000000000)]\<rparr>"
    by (simp add: storeCache_def sample_client_def map_env_def)
  ultimately show ?thesis
    using sample_apply by (simp add: finishExchange_def rejects_def sample_op_def Let_def)
qed

definition sample_cached :: "(dnsCacheKey \<rightharpoonup> Msg \<times> int) Client" where
  "sample_cached = sample_client\<lparr>cl_world := [sample_key \<mapsto> (sample_answer, 60000000000)]\<rparr>"

lemma sample_served:
  "\<exists>response. beginExchange map_env 1000000000 ''dns'' 0 None False False (lookup_message ''example.org.'' 1) sample_options sample_cached =
     (ExchangeDone (Inr response), sample_cached)"
proof -
  have "isSimpleRequest (lookup_message ''example.org.'' 1)" by (simp add: isSimpleRequest_def lookup_message_def)
  moreover have "prepareExchangeMessage sample_cached (lookup_message ''example.org.'' 1) sample_options = lookup_message ''example.org.'' 1"
    by (simp add: prepareExchangeMessage_def sample_cached_def sample_client_defs)
  moreover have "newCacheKey sample_cached ''dns'' 0 sample_question (lookup_message ''example.org.'' 1) sample_options = sample_key"
    by (simp add: newCacheKey_def clientSubnetFromMessage_def sample_cached_def sample_client_defs)
  moreover have "\<exists>response. cache_lookup map_env 1000000000 False sample_key sample_options 0 sample_cached = (Some response, sample_cached)"
    by (simp add: cache_lookup_def loadResponse_def serve_cached_def map_env_def sample_cached_def sample_client_def aged_response_def)
  ultimately show ?thesis
    by (auto simp: beginExchange_def sample_question_def lookup_message_def sample_options_def sample_cached_def sample_client_def
        ClassINET_def TypeA_def TypeAAAA_def DomainStrategyIPv4Only_def DomainStrategyIPv6Only_def)
qed

lemma sample_reachable:
  "\<exists>s. client_reachable map_env (fresh_run map_env sample_client) s \<and> run_client s = sample_cached"
proof -
  let ?s0 = "fresh_run map_env sample_client"
  have b: "beginExchange map_env 0 ''dns'' 0 None False False (lookup_message ''example.org.'' 1) sample_options (run_client ?s0) =
      (ExchangeReady sample_op, sample_client)"
    using sample_begin by (simp add: fresh_run_def)
  have "client_step map_env ?s0 (?s0\<lparr>run_client := sample_client, run_pending := [(''dns'', sample_op)]\<rparr>)" (is "client_step _ _ ?s1")
    using step_begin [OF b] by (simp add: fresh_run_def)
  then have r1: "client_reachable map_env ?s0 ?s1" by (rule reach_step [OF reach_start])
  obtain res where "finishExchange map_env 0 ''dns'' 0 None sample_op sample_answer (run_client ?s1) = (res, sample_cached)"
    using sample_finish by (cases "finishExchange map_env 0 ''dns'' 0 None sample_op sample_answer sample_client") (simp add: sample_cached_def)
  moreover have "exchangeToTransport (op_message sample_op) (ReplyMsg sample_answer) = Inr sample_answer"
    by (simp add: exchangeToTransport_def stripDNSPadding_def sample_answer_def FixedResponse_def fixed_success_def)
  ultimately have "client_step map_env ?s1 (?s1\<lparr>run_client := sample_cached, run_pending := remove1 (''dns'', sample_op) (run_pending ?s1),
      run_log := received_for 0 0 (op_cacheKey sample_op) sample_answer (op_options sample_op) @ run_log ?s1\<rparr>)"
    by (intro step_finish) auto
  from reach_step [OF r1 this] show ?thesis by (intro exI conjI) auto
qed


text \<open>
  C22: the client subnet in the cache key of a query is the one the server is told: the one set by the
  options or the client, else the one already in the message, and none when it is to be removed.
\<close>

theorem cache_key_subnet_sent:
  assumes "prefix_IsValid (qo_ClientSubnet options) \<Longrightarrow> plain_subnet (qo_ClientSubnet options)"
    and "prefix_IsValid (cl_clientSubnet c) \<Longrightarrow> plain_subnet (cl_clientSubnet c)"
  shows "ck_clientSubnet (newCacheKey c tag environment question (prepareExchangeMessage c message options) options) =
    clientSubnetFromMessage (prepareExchangeMessage c message options)"
  using assms by (auto simp: newCacheKey_def prepareExchangeMessage_def clientSubnet_removed clientSubnet_set)

definition sample_subnet :: Prefix where
  "sample_subnet = prefix_From (Addr4 0x0a000000) 8"

theorem cache_key_subnet_sent_witness:
  "ck_clientSubnet (newCacheKey sample_client ''dns'' 0 sample_question
       (prepareExchangeMessage sample_client (lookup_message ''example.org.'' 1) (sample_options\<lparr>qo_ClientSubnet := sample_subnet\<rparr>))
       (sample_options\<lparr>qo_ClientSubnet := sample_subnet\<rparr>)) =
     clientSubnetFromMessage (prepareExchangeMessage sample_client (lookup_message ''example.org.'' 1) (sample_options\<lparr>qo_ClientSubnet := sample_subnet\<rparr>))"
proof (rule cache_key_subnet_sent)
  show "plain_subnet (qo_ClientSubnet (sample_options\<lparr>qo_ClientSubnet := sample_subnet\<rparr>))"
    by (simp add: plain_subnet_def sample_subnet_def) (simp add: prefix_From_def prefix_IsValid_def)
  show "plain_subnet (cl_clientSubnet sample_client)" if "prefix_IsValid (cl_clientSubnet sample_client)"
    using that by (simp add: sample_client_def prefix_IsValid_def)
qed



end
