(* ===== verification/GoReader.thy ===== *)
theory GoReader
  imports ByteCodec
begin

text \<open>
  Sequential reading from a Go \<open>io.Reader\<close> and sequential writing to a buffer, as the binary formats
  of the program do it. A \<open>stream\<close> is the bytes a reader still delivers and the error it reports
  after them (\<open>io.EOF\<close> at a regular end). A reading function is a \<open>parser\<close>: it fails with an error
  or returns a value and the remaining stream; \<open>p_bind\<close> is the sequence of two reads with the early
  return on an error. Of the standard library the theory defines \<open>io.ReadFull\<close>, \<open>ReadByte\<close>,
  \<open>binary.Read\<close> on fixed-size values and \<open>binary.ReadUvarint\<close>.

  \<open>reads p bs a\<close> says that \<open>p\<close> reads the value \<open>a\<close> from exactly the bytes \<open>bs\<close>, whatever follows
  them; \<open>consumes p\<close> that \<open>p\<close> never gives bytes back. Both are closed under the ways parsers are
  composed, so a format is verified by following its definition.
\<close>

named_theorems reads_intros \<open>parsers that read back what was written\<close>
named_theorems consumes_intros \<open>parsers that never lengthen the stream\<close>

subsection \<open>Streams and parsers\<close>

type_synonym stream = "bytes \<times> error"
type_synonym 'a parser = "stream \<Rightarrow> ('a \<times> stream) result"

abbreviation io_EOF :: error where
  "io_EOF \<equiv> ENew ''EOF''"

abbreviation io_ErrUnexpectedEOF :: error where
  "io_ErrUnexpectedEOF \<equiv> ENew ''unexpected EOF''"

definition p_return :: "'a \<Rightarrow> 'a parser" where
  "p_return a s = Inr (a, s)"

definition p_fail :: "error \<Rightarrow> 'a parser" where
  "p_fail e s = Inl e"

definition p_bind :: "'a parser \<Rightarrow> ('a \<Rightarrow> 'b parser) \<Rightarrow> 'b parser" where
  "p_bind p f s = (case p s of Inl e \<Rightarrow> Inl e | Inr (a, s') \<Rightarrow> f a s')"

definition p_cause :: "string \<Rightarrow> 'a parser \<Rightarrow> 'a parser" where
  "p_cause msg p s = res_cause msg (p s)"

text \<open>A reader of another library reports how many bytes it has taken.\<close>

definition p_extern :: "(stream \<Rightarrow> ('a \<times> nat) result) \<Rightarrow> 'a parser" where
  "p_extern f s = (case f s of Inl e \<Rightarrow> Inl e | Inr (a, n) \<Rightarrow> Inr (a, (drop n (fst s), snd s)))"

text \<open>\<open>for i := range n\<close> around a read whose results are appended to a list.\<close>

fun p_times :: "nat \<Rightarrow> nat \<Rightarrow> (nat \<Rightarrow> 'a parser) \<Rightarrow> 'a list parser" where
  "p_times 0 i p = p_return []"
| "p_times (Suc n) i p = p_bind (p i) (\<lambda>x. p_bind (p_times n (Suc i) p) (\<lambda>xs. p_return (x # xs)))"

definition ReadByte :: "u8 parser" where
  "ReadByte s = (case fst s of [] \<Rightarrow> Inl (snd s) | b # bs \<Rightarrow> Inr (b, (bs, snd s)))"

definition io_ReadFull :: "nat \<Rightarrow> bytes parser" where
  "io_ReadFull n s =
     (if n \<le> length (fst s) then Inr (take n (fst s), (drop n (fst s), snd s))
      else Inl (if fst s \<noteq> [] \<and> snd s = io_EOF then io_ErrUnexpectedEOF else snd s))"

text \<open>\<open>binary.Read\<close> of a big-endian unsigned integer of \<open>k\<close> bytes and of a \<open>bool\<close>.\<close>

definition binary_Read_uint :: "nat \<Rightarrow> nat parser" where
  "binary_Read_uint k = p_bind (io_ReadFull k) (\<lambda>bs. p_return (be_value bs))"

definition binary_Read_bool :: "bool parser" where
  "binary_Read_bool = p_bind ReadByte (\<lambda>b. p_return (b \<noteq> 0))"

definition binary_Write_bool :: "bool \<Rightarrow> bytes" where
  "binary_Write_bool b = [if b then 1 else 0]"

text \<open>
  \<open>binary.ReadUvarint\<close>: \<open>k\<close> more bytes may follow (ten at the start); the tenth byte holds one bit.
  An end of the input after the first byte is unexpected.
\<close>

fun read_uvarint_loop :: "nat \<Rightarrow> nat \<Rightarrow> nat \<Rightarrow> nat parser" where
  "read_uvarint_loop 0 x s st = Inl (ENew ''binary: varint overflows a 64-bit integer'')"
| "read_uvarint_loop (Suc k) x s st =
     (case fst st of
        [] \<Rightarrow> Inl (if k < 9 \<and> snd st = io_EOF then io_ErrUnexpectedEOF else snd st)
      | b # bs \<Rightarrow>
          if unat b < 128 then
            if k = 0 \<and> unat b > 1 then Inl (ENew ''binary: varint overflows a 64-bit integer'')
            else Inr (x + unat b * 2 ^ s, (bs, snd st))
          else read_uvarint_loop k (x + (unat b - 128) * 2 ^ s) (s + 7) (bs, snd st))"

definition binary_ReadUvarint :: "nat parser" where
  "binary_ReadUvarint = read_uvarint_loop 10 0 0"

text \<open>\<open>binary.AppendUvarint\<close>: seven bits per byte, the low ones first; bit 7 says that more follow.\<close>

fun AppendUvarint :: "nat \<Rightarrow> bytes" where
  "AppendUvarint n = (if n < 128 then [of_nat n] else of_nat (n mod 128 + 128) # AppendUvarint (n div 128))"

declare AppendUvarint.simps [simp del]

subsection \<open>Writing\<close>

text \<open>Writes in sequence; an error of one of them ends the sequence.\<close>

fun w_seq :: "bytes result list \<Rightarrow> bytes result" where
  "w_seq [] = Inr []"
| "w_seq (w # ws) = res_bind w (\<lambda>bs. res_bind (w_seq ws) (\<lambda>cs. Inr (bs @ cs)))"

definition w_if :: "bool \<Rightarrow> bytes result \<Rightarrow> bytes result" where
  "w_if cond w = (if cond then w else Inr [])"

lemma w_seq_Inr_iff: "w_seq ws = Inr bs \<longleftrightarrow> (\<exists>bss. ws = map Inr bss \<and> bs = concat bss)"
proof (induction ws arbitrary: bs)
  case (Cons w ws)
  show ?case
    by (auto simp: res_bind_Inr_iff Cons.IH Cons_eq_map_conv)
qed auto

subsection \<open>Parsers never give bytes back\<close>

definition consumes :: "'a parser \<Rightarrow> bool" where
  "consumes p \<longleftrightarrow> (\<forall>s a s'. p s = Inr (a, s') \<longrightarrow> length (fst s') \<le> length (fst s))"

lemma consumesD: "consumes p \<Longrightarrow> p s = Inr (a, s') \<Longrightarrow> length (fst s') \<le> length (fst s)"
  unfolding consumes_def by blast

lemma consumes_return [consumes_intros]: "consumes (p_return a)"
  by (auto simp: consumes_def p_return_def)

lemma consumes_fail [consumes_intros]: "consumes (p_fail e)"
  by (auto simp: consumes_def p_fail_def)

lemma consumes_bind [consumes_intros]:
  assumes "consumes p" "\<And>a. consumes (f a)"
  shows "consumes (p_bind p f)"
  unfolding consumes_def
proof (intro allI impI)
  fix s b s'' assume "p_bind p f s = Inr (b, s'')"
  then obtain a s' where "p s = Inr (a, s')" "f a s' = Inr (b, s'')"
    by (auto simp: p_bind_def split: sum.splits)
  with assms show "length (fst s'') \<le> length (fst s)" by (meson consumesD le_trans)
qed

lemma consumes_cause [consumes_intros]: "consumes p \<Longrightarrow> consumes (p_cause msg p)"
  by (auto simp: consumes_def p_cause_def)

lemma consumes_extern [consumes_intros]: "consumes (p_extern f)"
  by (auto simp: consumes_def p_extern_def split: sum.splits)

lemma consumes_times [consumes_intros]: "(\<And>i. consumes (p i)) \<Longrightarrow> consumes (p_times n i p)"
  by (induction n arbitrary: i) (auto intro!: consumes_intros)

lemma consumes_if [consumes_intros]: "consumes p \<Longrightarrow> consumes q \<Longrightarrow> consumes (if c then p else q)"
  by simp

lemma consumes_ReadByte [consumes_intros]: "consumes ReadByte"
  by (auto simp: consumes_def ReadByte_def split: list.splits)

lemma consumes_ReadFull [consumes_intros]: "consumes (io_ReadFull n)"
  by (auto simp: consumes_def io_ReadFull_def split: if_splits)

lemma consumes_Read_uint [consumes_intros]: "consumes (binary_Read_uint k)"
  unfolding binary_Read_uint_def by (intro consumes_intros)

lemma consumes_Read_bool [consumes_intros]: "consumes binary_Read_bool"
  unfolding binary_Read_bool_def by (intro consumes_intros)

lemma uvarint_loop_consumes:
  "read_uvarint_loop k x s st = Inr (a, st') \<Longrightarrow> length (fst st') \<le> length (fst st)"
  by (induction k x s st rule: read_uvarint_loop.induct) (fastforce split: list.splits if_splits)+

lemma consumes_ReadUvarint [consumes_intros]: "consumes binary_ReadUvarint"
  unfolding consumes_def binary_ReadUvarint_def using uvarint_loop_consumes by blast

lemma ReadByte_shorter: "ReadByte s = Inr (b, s') \<Longrightarrow> length (fst s') < length (fst s)"
  by (auto simp: ReadByte_def split: list.splits)

subsection \<open>Parsers that read back\<close>

definition reads :: "'a parser \<Rightarrow> bytes \<Rightarrow> 'a \<Rightarrow> bool" where
  "reads p bs a \<longleftrightarrow> (\<forall>rest e. p (bs @ rest, e) = Inr (a, (rest, e)))"

lemma readsD: "reads p bs a \<Longrightarrow> p (bs @ rest, e) = Inr (a, (rest, e))"
  by (auto simp: reads_def)

lemma reads_return [reads_intros]: "reads (p_return a) [] a"
  by (auto simp: reads_def p_return_def)

lemma reads_bind [reads_intros]:
  "reads p bs a \<Longrightarrow> reads (f a) cs b \<Longrightarrow> reads (p_bind p f) (bs @ cs) b"
  by (auto simp: reads_def p_bind_def)

lemma reads_bind_return: "reads p bs a \<Longrightarrow> b = f a \<Longrightarrow> reads (p_bind p (\<lambda>a. p_return (f a))) bs b"
  by (auto simp: reads_def p_bind_def p_return_def)

lemma reads_cause [reads_intros]: "reads p bs a \<Longrightarrow> reads (p_cause msg p) bs a"
  by (auto simp: reads_def p_cause_def)

lemma reads_extern:
  "(\<And>rest e. f (bs @ rest, e) = Inr (a, length bs)) \<Longrightarrow> reads (p_extern f) bs a"
  by (auto simp: reads_def p_extern_def)

lemma reads_times:
  assumes "\<And>x j. x \<in> set xs \<Longrightarrow> reads (p j) (w x) (g x)"
  shows "reads (p_times (length xs) i p) (concat (map w xs)) (map g xs)"
  using assms
proof (induction xs arbitrary: i)
  case Nil
  show ?case by (simp add: reads_return)
next
  case (Cons x xs)
  have "reads (p_times (length xs) (Suc i) p) (concat (map w xs)) (map g xs)"
    using Cons by simp
  then have "reads (p_bind (p_times (length xs) (Suc i) p) (\<lambda>ys. p_return (g x # ys)))
      (concat (map w xs)) (g x # map g xs)"
    by (rule reads_bind_return) simp
  moreover have "reads (p i) (w x) (g x)" using Cons.prems by simp
  ultimately show ?case using reads_bind by fastforce
qed

lemma reads_ReadByte [reads_intros]: "reads ReadByte [b] b"
  by (auto simp: reads_def ReadByte_def)

lemma reads_ReadFull [reads_intros]: "length bs = n \<Longrightarrow> reads (io_ReadFull n) bs bs"
  by (auto simp: reads_def io_ReadFull_def)

lemma reads_Read_uint: "n < 256 ^ k \<Longrightarrow> reads (binary_Read_uint k) (be_bytes k n) n"
  unfolding binary_Read_uint_def
  by (rule reads_bind_return [OF reads_ReadFull]) (auto simp: be_value_be_bytes_less)

lemma reads_Read_bool: "reads binary_Read_bool (binary_Write_bool b) b"
  unfolding binary_Read_bool_def binary_Write_bool_def
  by (rule reads_bind_return [OF reads_ReadByte]) auto

lemma uvarint_loop_more:
  "128 \<le> unat b \<Longrightarrow> read_uvarint_loop (Suc k) x s (b # bs, e) =
     read_uvarint_loop k (x + (unat b - 128) * 2 ^ s) (s + 7) (bs, e)"
  by (subst read_uvarint_loop.simps) (simp del: read_uvarint_loop.simps)

lemma uvarint_loop_last:
  "unat b < 128 \<Longrightarrow> 0 < k \<or> unat b \<le> 1 \<Longrightarrow>
     read_uvarint_loop (Suc k) x s (b # bs, e) = Inr (x + unat b * 2 ^ s, (bs, e))"
  by (subst read_uvarint_loop.simps) (auto simp del: read_uvarint_loop.simps)

lemma uvarint_loop_Append:
  assumes "n < 2 ^ (7 * k + 1)"
  shows "read_uvarint_loop (Suc k) x s (AppendUvarint n @ rest, e) = Inr (x + n * 2 ^ s, (rest, e))"
  using assms
proof (induction n arbitrary: k x s rule: AppendUvarint.induct)
  case (1 n)
  show ?case
  proof (cases "n < 128")
    case True
    have "unat (of_nat n :: u8) = n" using True by (simp only: unat_of_nat_u8) simp
    then show ?thesis using True 1(2) uvarint_loop_last [of "of_nat n" k x s rest e]
      by (cases k) (simp_all add: AppendUvarint.simps [of n] del: read_uvarint_loop.simps)
  next
    case False
    then obtain k' where k: "k = Suc k'" using 1(2) by (cases k) auto
    have "n div 128 < 2 ^ (7 * k' + 1)"
      using 1(2) by (auto simp: k less_mult_imp_div_less power_add)
    note IH = 1(1) [OF False this, of "x + n mod 128 * 2 ^ s" "s + 7"]
    have "n mod 128 * 2 ^ s + n div 128 * 2 ^ (s + 7) = (n mod 128 + 128 * (n div 128)) * 2 ^ s"
      unfolding power_add add_mult_distrib by simp
    then have sum: "n mod 128 * 2 ^ s + n div 128 * 2 ^ (s + 7) = n * 2 ^ s" by simp
    have b: "unat (of_nat (n mod 128 + 128) :: u8) = n mod 128 + 128"
      by (simp only: unat_of_nat_u8) simp
    have "read_uvarint_loop (Suc k) x s (AppendUvarint n @ rest, e) =
        read_uvarint_loop k (x + n mod 128 * 2 ^ s) (s + 7) (AppendUvarint (n div 128) @ rest, e)"
      using False uvarint_loop_more [of "of_nat (n mod 128 + 128)" k x s] unfolding b
      by (simp add: AppendUvarint.simps [of n] del: of_nat_add read_uvarint_loop.simps)
    then show ?thesis using IH sum unfolding k by (simp del: read_uvarint_loop.simps)
  qed
qed

lemma reads_ReadUvarint: "n < 2 ^ 64 \<Longrightarrow> reads binary_ReadUvarint (AppendUvarint n) n"
proof -
  have "binary_ReadUvarint = read_uvarint_loop (Suc 9) 0 0"
    unfolding binary_ReadUvarint_def by (simp del: read_uvarint_loop.simps)
  then show "n < 2 ^ 64 \<Longrightarrow> reads binary_ReadUvarint (AppendUvarint n) n"
    using uvarint_loop_Append [of n 9 0 0] by (simp add: reads_def del: read_uvarint_loop.simps)
qed

end
