(* ===== verification/SrsCodec.thy ===== *)
theory SrsCodec
  imports GoReader RuleBuild
begin

text \<open>
  The binary format of rule sets (\<open>common/srs/binary.go\<close>, \<open>ip_set.go\<close>, \<open>ip_cidr.go\<close>): one
  definition per Go function. Readers are parsers of a stream; writers return the bytes they write
  or their error (what was written before an error is not kept). The item numbers have the names of
  the Go constants.

  What the codec calls of other libraries is the record \<open>srs_env\<close>: the slices and variable-length
  integers of \<open>varbin\<close>, the domain and AdGuard matchers (type parameters, with their construction,
  serialisation, matching and dump), the IP sets of \<open>netipx\<close> (built from prefixes and addresses; an IP
  set is its list of ranges, which the source reads and writes through \<open>unsafe.Pointer\<close>), the
  insertion into a \<open>badjson.TypedMap\<close>, and zlib. \<open>srs_rules\<close> holds the functions the rule engine
  uses too. In the options a matcher and an IP set are the predicates their match methods compute.
\<close>

record ('m, 'a) srs_env =
  srs_rules :: rule_env
  srs_WriteUvarint :: "nat \<Rightarrow> bytes"
  srs_ReadSlice8 :: "stream \<Rightarrow> (u8 list \<times> nat) result"
  srs_ReadSlice16 :: "stream \<Rightarrow> (u16 list \<times> nat) result"
  srs_NewMatcher :: "string list \<Rightarrow> string list \<Rightarrow> bool \<Rightarrow> 'm"
  srs_Matcher_Write :: "'m \<Rightarrow> bytes"
  srs_ReadMatcher :: "stream \<Rightarrow> ('m \<times> nat) result"
  srs_Matcher_Match :: "'m \<Rightarrow> matcher"
  srs_Matcher_Dump :: "'m \<Rightarrow> string list \<times> string list"
  srs_NewAdGuardMatcher :: "string list \<Rightarrow> 'a"
  srs_AdGuard_Write :: "'a \<Rightarrow> bytes"
  srs_ReadAdGuardMatcher :: "stream \<Rightarrow> ('a \<times> nat) result"
  srs_AdGuard_Match :: "'a \<Rightarrow> matcher"
  srs_AdGuard_Dump :: "'a \<Rightarrow> string list"
  srs_builder_IPSet :: "(Prefix + Addr) list \<Rightarrow> (Addr \<times> Addr) list result"
  srs_IPSet_Contains :: "(Addr \<times> Addr) list \<Rightarrow> ipset"
  srs_IPSet_Prefixes :: "(Addr \<times> Addr) list \<Rightarrow> Prefix list"
  srs_TypedMap_Put :: "(InterfaceType \<times> Prefix list) list \<Rightarrow> InterfaceType \<Rightarrow> Prefix list \<Rightarrow>
     (InterfaceType \<times> Prefix list) list"
  srs_compress :: "bytes \<Rightarrow> bytes"
  srs_decompress :: "stream \<Rightarrow> stream result"

subsection \<open>Constants\<close>

abbreviation (input) MagicBytes :: bytes where "MagicBytes \<equiv> [0x53, 0x52, 0x53]"

abbreviation (input) RuleSetVersionCurrent :: u8 where "RuleSetVersionCurrent \<equiv> 5"

abbreviation (input) maxLogicalRuleDepth :: nat where "maxLogicalRuleDepth \<equiv> 100"

abbreviation (input) ruleItemQueryType :: u8 where "ruleItemQueryType \<equiv> 0"
abbreviation (input) ruleItemNetwork :: u8 where "ruleItemNetwork \<equiv> 1"
abbreviation (input) ruleItemDomain :: u8 where "ruleItemDomain \<equiv> 2"
abbreviation (input) ruleItemDomainKeyword :: u8 where "ruleItemDomainKeyword \<equiv> 3"
abbreviation (input) ruleItemDomainRegex :: u8 where "ruleItemDomainRegex \<equiv> 4"
abbreviation (input) ruleItemSourceIPCIDR :: u8 where "ruleItemSourceIPCIDR \<equiv> 5"
abbreviation (input) ruleItemIPCIDR :: u8 where "ruleItemIPCIDR \<equiv> 6"
abbreviation (input) ruleItemSourcePort :: u8 where "ruleItemSourcePort \<equiv> 7"
abbreviation (input) ruleItemSourcePortRange :: u8 where "ruleItemSourcePortRange \<equiv> 8"
abbreviation (input) ruleItemPort :: u8 where "ruleItemPort \<equiv> 9"
abbreviation (input) ruleItemPortRange :: u8 where "ruleItemPortRange \<equiv> 10"
abbreviation (input) ruleItemProcessName :: u8 where "ruleItemProcessName \<equiv> 11"
abbreviation (input) ruleItemProcessPath :: u8 where "ruleItemProcessPath \<equiv> 12"
abbreviation (input) ruleItemPackageName :: u8 where "ruleItemPackageName \<equiv> 13"
abbreviation (input) ruleItemWIFISSID :: u8 where "ruleItemWIFISSID \<equiv> 14"
abbreviation (input) ruleItemWIFIBSSID :: u8 where "ruleItemWIFIBSSID \<equiv> 15"
abbreviation (input) ruleItemAdGuardDomain :: u8 where "ruleItemAdGuardDomain \<equiv> 16"
abbreviation (input) ruleItemProcessPathRegex :: u8 where "ruleItemProcessPathRegex \<equiv> 17"
abbreviation (input) ruleItemNetworkType :: u8 where "ruleItemNetworkType \<equiv> 18"
abbreviation (input) ruleItemNetworkIsExpensive :: u8 where "ruleItemNetworkIsExpensive \<equiv> 19"
abbreviation (input) ruleItemNetworkIsConstrained :: u8 where "ruleItemNetworkIsConstrained \<equiv> 20"
abbreviation (input) ruleItemNetworkInterfaceAddress :: u8 where "ruleItemNetworkInterfaceAddress \<equiv> 21"
abbreviation (input) ruleItemDefaultInterfaceAddress :: u8 where "ruleItemDefaultInterfaceAddress \<equiv> 22"
abbreviation (input) ruleItemPackageNameRegex :: u8 where "ruleItemPackageNameRegex \<equiv> 23"
abbreviation (input) ruleItemFinal :: u8 where "ruleItemFinal \<equiv> 0xFF"

subsection \<open>Addresses, prefixes and IP sets\<close>

definition readIPSetAddr :: "('m, 'a) srs_env \<Rightarrow> Addr parser" where
  "readIPSetAddr env =
     p_bind binary_ReadUvarint (\<lambda>addrLen.
       if addrLen \<noteq> 4 \<and> addrLen \<noteq> 16 then p_fail EInvalid
       else p_bind (io_ReadFull addrLen) (\<lambda>addrBytes.
         p_return (env_AddrFromIP (srs_rules env) addrBytes)))"

definition readIPSet :: "('m, 'a) srs_env \<Rightarrow> (Addr \<times> Addr) list parser" where
  "readIPSet env =
     p_bind ReadByte (\<lambda>version.
       if version \<noteq> 1 then p_fail EInvalid
       else p_bind (binary_Read_uint 8) (\<lambda>n.
         p_times n 0 (\<lambda>_.
           p_bind (readIPSetAddr env) (\<lambda>from'.
           p_bind (readIPSetAddr env) (\<lambda>to. p_return (from', to))))))"

definition write_addr :: "('m, 'a) srs_env \<Rightarrow> Addr \<Rightarrow> bytes" where
  "write_addr env a = srs_WriteUvarint env (length (addr_AsSlice a)) @ addr_AsSlice a"

definition writeIPSet :: "('m, 'a) srs_env \<Rightarrow> (Addr \<times> Addr) list \<Rightarrow> bytes" where
  "writeIPSet env rr =
     [1] @ be_bytes 8 (length rr) @
     concat (map (\<lambda>(from', to). write_addr env from' @ write_addr env to) rr)"

definition readPrefix :: "('m, 'a) srs_env \<Rightarrow> Prefix parser" where
  "readPrefix env =
     p_bind binary_ReadUvarint (\<lambda>addrLen.
       if addrLen \<noteq> 4 \<and> addrLen \<noteq> 16 then p_fail EInvalid
       else p_bind (io_ReadFull addrLen) (\<lambda>addrBytes.
         p_bind ReadByte (\<lambda>prefixBits.
           p_return (prefix_From (env_AddrFromIP (srs_rules env) addrBytes) (uint prefixBits)))))"

definition writePrefix :: "('m, 'a) srs_env \<Rightarrow> Prefix \<Rightarrow> bytes" where
  "writePrefix env prefix =
     srs_WriteUvarint env (length (addr_AsSlice (prefix_Addr prefix))) @ addr_AsSlice (prefix_Addr prefix) @
     [of_int (prefix_Bits prefix)]"

text \<open>The loop over a counted list of prefixes, which two items contain.\<close>

definition read_prefixes :: "('m, 'a) srs_env \<Rightarrow> Prefix list parser" where
  "read_prefixes env =
     p_bind binary_ReadUvarint (\<lambda>prefixCount. p_times prefixCount 0 (\<lambda>_. readPrefix env))"

definition write_prefixes :: "('m, 'a) srs_env \<Rightarrow> Prefix list \<Rightarrow> bytes" where
  "write_prefixes env value =
     srs_WriteUvarint env (length value) @ concat (map (writePrefix env) value)"

subsection \<open>Item payloads\<close>

definition readRuleItemString :: "('m, 'a) srs_env \<Rightarrow> string list parser" where
  "readRuleItemString env =
     p_bind binary_ReadUvarint (\<lambda>n.
       p_times n 0 (\<lambda>_. p_bind (p_extern (srs_ReadSlice8 env)) (\<lambda>value. p_return (string_of value))))"

definition writeRuleItemString :: "('m, 'a) srs_env \<Rightarrow> u8 \<Rightarrow> string list \<Rightarrow> bytes" where
  "writeRuleItemString env itemType value =
     [itemType] @ srs_WriteUvarint env (length value) @
     concat (map (\<lambda>s. srs_WriteUvarint env (length s) @ bytes_of s) value)"

definition writeRuleItemUint8 :: "('m, 'a) srs_env \<Rightarrow> u8 \<Rightarrow> u8 list \<Rightarrow> bytes" where
  "writeRuleItemUint8 env itemType value =
     [itemType] @ srs_WriteUvarint env (length value) @ value"

definition writeRuleItemUint16 :: "('m, 'a) srs_env \<Rightarrow> u8 \<Rightarrow> u16 list \<Rightarrow> bytes" where
  "writeRuleItemUint16 env itemType value =
     [itemType] @ srs_WriteUvarint env (length value) @ concat (map (\<lambda>v. be_bytes 2 (unat v)) value)"

text \<open>What the builder of \<open>writeRuleItemCIDR\<close> gets: the prefixes and addresses of the strings.\<close>

fun parse_cidrs :: "('m, 'a) srs_env \<Rightarrow> nat \<Rightarrow> string list \<Rightarrow> (Prefix + Addr) list result" where
  "parse_cidrs env i [] = Inr []"
| "parse_cidrs env i (prefixString # rest) =
     (case env_ParsePrefix (srs_rules env) prefixString of
        Inr prefix \<Rightarrow> res_bind (parse_cidrs env (Suc i) rest) (\<lambda>ps. Inr (Inl prefix # ps))
      | Inl err \<Rightarrow>
          (case env_ParseAddr (srs_rules env) prefixString of
             Inr addr \<Rightarrow> res_bind (parse_cidrs env (Suc i) rest) (\<lambda>ps. Inr (Inr addr # ps))
           | Inl _ \<Rightarrow> Inl (ECause (''parse ['' @ strconv_FormatUint i @ '']'') err)))"

definition cidr_IPSet :: "('m, 'a) srs_env \<Rightarrow> string list \<Rightarrow> (Addr \<times> Addr) list result" where
  "cidr_IPSet env value = res_bind (parse_cidrs env 0 value) (srs_builder_IPSet env)"

definition writeRuleItemCIDR :: "('m, 'a) srs_env \<Rightarrow> u8 \<Rightarrow> string list \<Rightarrow> bytes result" where
  "writeRuleItemCIDR env itemType value =
     res_bind (cidr_IPSet env value) (\<lambda>ipSet. Inr ([itemType] @ writeIPSet env ipSet))"

definition read_interface_addresses ::
    "('m, 'a) srs_env \<Rightarrow> (InterfaceType \<times> Prefix list) list parser" where
  "read_interface_addresses env =
     p_bind binary_ReadUvarint (\<lambda>size'.
     p_bind (p_times size' 0 (\<lambda>_.
       p_bind ReadByte (\<lambda>key. p_bind (read_prefixes env) (\<lambda>value. p_return (key, value))))) (\<lambda>es.
     p_return (fold (\<lambda>(key, value) m. srs_TypedMap_Put env m key value) es [])))"

definition write_interface_addresses ::
    "('m, 'a) srs_env \<Rightarrow> (InterfaceType \<times> Prefix list) list \<Rightarrow> bytes" where
  "write_interface_addresses env es =
     srs_WriteUvarint env (length es) @
     concat (map (\<lambda>(key, value). [key] @ write_prefixes env value) es)"

subsection \<open>Default rules\<close>

definition read_domain ::
    "('m, 'a) srs_env \<Rightarrow> bool \<Rightarrow> DefaultHeadlessRule_options \<Rightarrow> DefaultHeadlessRule_options parser" where
  "read_domain env recover rule =
     p_bind (p_extern (srs_ReadMatcher env)) (\<lambda>matcher.
       let rule' = rule\<lparr>h_DomainMatcher := Some (srs_Matcher_Match env matcher)\<rparr> in
       p_return (if recover
                 then rule'\<lparr>h_Domain := fst (srs_Matcher_Dump env matcher),
                            h_DomainSuffix := snd (srs_Matcher_Dump env matcher)\<rparr>
                 else rule'))"

definition read_adguard ::
    "('m, 'a) srs_env \<Rightarrow> bool \<Rightarrow> DefaultHeadlessRule_options \<Rightarrow> DefaultHeadlessRule_options parser" where
  "read_adguard env recover rule =
     p_bind (p_extern (srs_ReadAdGuardMatcher env)) (\<lambda>matcher.
       let rule' = rule\<lparr>h_AdGuardDomainMatcher := Some (srs_AdGuard_Match env matcher)\<rparr> in
       p_return (if recover then rule'\<lparr>h_AdGuardDomain := srs_AdGuard_Dump env matcher\<rparr> else rule'))"

definition set_strings :: "('m, 'a) srs_env \<Rightarrow> (Addr \<times> Addr) list \<Rightarrow> string list" where
  "set_strings env rr = map (env_PrefixString (srs_rules env)) (srs_IPSet_Prefixes env rr)"

definition read_source_cidr ::
    "('m, 'a) srs_env \<Rightarrow> bool \<Rightarrow> DefaultHeadlessRule_options \<Rightarrow> DefaultHeadlessRule_options parser" where
  "read_source_cidr env recover rule =
     p_bind (readIPSet env) (\<lambda>rr.
       let rule' = rule\<lparr>h_SourceIPSet := Some (srs_IPSet_Contains env rr)\<rparr> in
       p_return (if recover then rule'\<lparr>h_SourceIPCIDR := set_strings env rr\<rparr> else rule'))"

definition read_cidr ::
    "('m, 'a) srs_env \<Rightarrow> bool \<Rightarrow> DefaultHeadlessRule_options \<Rightarrow> DefaultHeadlessRule_options parser" where
  "read_cidr env recover rule =
     p_bind (readIPSet env) (\<lambda>rr.
       let rule' = rule\<lparr>h_IPSet := Some (srs_IPSet_Contains env rr)\<rparr> in
       p_return (if recover then rule'\<lparr>h_IPCIDR := set_strings env rr\<rparr> else rule'))"

text \<open>The cases of the item switch, one after the other; \<open>ruleItemFinal\<close> is left to the loop.\<close>

definition read_item ::
    "('m, 'a) srs_env \<Rightarrow> bool \<Rightarrow> u8 \<Rightarrow> u8 \<Rightarrow> DefaultHeadlessRule_options \<Rightarrow> DefaultHeadlessRule_options parser" where
  "read_item env recover lastItemType itemType rule =
    (let strings = readRuleItemString env; u16s = p_extern (srs_ReadSlice16 env) in
     if itemType = ruleItemQueryType then p_bind u16s (\<lambda>v. p_return (rule\<lparr>h_QueryType := v\<rparr>))
     else if itemType = ruleItemNetwork then p_bind strings (\<lambda>v. p_return (rule\<lparr>h_Network := v\<rparr>))
     else if itemType = ruleItemDomain then read_domain env recover rule
     else if itemType = ruleItemDomainKeyword then p_bind strings (\<lambda>v. p_return (rule\<lparr>h_DomainKeyword := v\<rparr>))
     else if itemType = ruleItemDomainRegex then p_bind strings (\<lambda>v. p_return (rule\<lparr>h_DomainRegex := v\<rparr>))
     else if itemType = ruleItemSourceIPCIDR then read_source_cidr env recover rule
     else if itemType = ruleItemIPCIDR then read_cidr env recover rule
     else if itemType = ruleItemSourcePort then p_bind u16s (\<lambda>v. p_return (rule\<lparr>h_SourcePort := v\<rparr>))
     else if itemType = ruleItemSourcePortRange then p_bind strings (\<lambda>v. p_return (rule\<lparr>h_SourcePortRange := v\<rparr>))
     else if itemType = ruleItemPort then p_bind u16s (\<lambda>v. p_return (rule\<lparr>h_Port := v\<rparr>))
     else if itemType = ruleItemPortRange then p_bind strings (\<lambda>v. p_return (rule\<lparr>h_PortRange := v\<rparr>))
     else if itemType = ruleItemProcessName then p_bind strings (\<lambda>v. p_return (rule\<lparr>h_ProcessName := v\<rparr>))
     else if itemType = ruleItemProcessPath then p_bind strings (\<lambda>v. p_return (rule\<lparr>h_ProcessPath := v\<rparr>))
     else if itemType = ruleItemProcessPathRegex then p_bind strings (\<lambda>v. p_return (rule\<lparr>h_ProcessPathRegex := v\<rparr>))
     else if itemType = ruleItemPackageName then p_bind strings (\<lambda>v. p_return (rule\<lparr>h_PackageName := v\<rparr>))
     else if itemType = ruleItemPackageNameRegex then p_bind strings (\<lambda>v. p_return (rule\<lparr>h_PackageNameRegex := v\<rparr>))
     else if itemType = ruleItemWIFISSID then p_bind strings (\<lambda>v. p_return (rule\<lparr>h_WIFISSID := v\<rparr>))
     else if itemType = ruleItemWIFIBSSID then p_bind strings (\<lambda>v. p_return (rule\<lparr>h_WIFIBSSID := v\<rparr>))
     else if itemType = ruleItemAdGuardDomain then read_adguard env recover rule
     else if itemType = ruleItemNetworkType then
       p_bind (p_extern (srs_ReadSlice8 env)) (\<lambda>v. p_return (rule\<lparr>h_NetworkType := v\<rparr>))
     else if itemType = ruleItemNetworkIsExpensive then p_return (rule\<lparr>h_NetworkIsExpensive := True\<rparr>)
     else if itemType = ruleItemNetworkIsConstrained then p_return (rule\<lparr>h_NetworkIsConstrained := True\<rparr>)
     else if itemType = ruleItemNetworkInterfaceAddress then
       p_bind (read_interface_addresses env) (\<lambda>v. p_return (rule\<lparr>h_NetworkInterfaceAddress := Some v\<rparr>))
     else if itemType = ruleItemDefaultInterfaceAddress then
       p_bind (read_prefixes env) (\<lambda>v. p_return (rule\<lparr>h_DefaultInterfaceAddress := v\<rparr>))
     else p_fail (ENew (''unknown rule item type: '' @ strconv_FormatUint (unat itemType) @
                        '', last type: '' @ strconv_FormatUint (unat lastItemType))))"

lemma consumes_read_prefixes [consumes_intros]: "consumes (read_prefixes env)"
  unfolding read_prefixes_def readPrefix_def by (intro consumes_intros)

lemma consumes_readIPSet [consumes_intros]: "consumes (readIPSet env)"
  unfolding readIPSet_def readIPSetAddr_def by (intro consumes_intros)

lemma consumes_readRuleItemString [consumes_intros]: "consumes (readRuleItemString env)"
  unfolding readRuleItemString_def by (intro consumes_intros)

lemma consumes_read_item: "consumes (read_item env recover lastItemType itemType rule)"
  unfolding read_item_def Let_def read_domain_def read_adguard_def read_source_cidr_def read_cidr_def
    read_interface_addresses_def
  by (intro consumes_intros)

function readDefaultRule_loop ::
    "('m, 'a) srs_env \<Rightarrow> bool \<Rightarrow> u8 \<Rightarrow> DefaultHeadlessRule_options \<Rightarrow> DefaultHeadlessRule_options parser" where
  "readDefaultRule_loop env recover lastItemType rule s =
     (case ReadByte s of
        Inl e \<Rightarrow> Inl e
      | Inr (itemType, s1) \<Rightarrow>
          if itemType = ruleItemFinal
          then p_bind binary_Read_bool (\<lambda>v. p_return (rule\<lparr>h_Invert := v\<rparr>)) s1
          else (case read_item env recover lastItemType itemType rule s1 of
                  Inl e \<Rightarrow> Inl e
                | Inr (rule', s2) \<Rightarrow> readDefaultRule_loop env recover itemType rule' s2))"
  by auto

termination
proof (relation "measure (\<lambda>(env, recover, lastItemType, rule, s). length (fst s))", goal_cases)
  case (2 env recover lastItemType rule s p itemType s1 q rule' s2)
  then have "length (fst s2) \<le> length (fst s1)" "length (fst s1) < length (fst s)"
    using consumesD [OF consumes_read_item] ReadByte_shorter by (metis, metis)
  then show ?case by simp
qed simp

declare readDefaultRule_loop.simps [simp del]

definition readDefaultRule :: "('m, 'a) srs_env \<Rightarrow> bool \<Rightarrow> DefaultHeadlessRule_options parser" where
  "readDefaultRule env recover = readDefaultRule_loop env recover 0 headless_zero"

text \<open>A rule item that exists from a given version of the format on.\<close>

definition w_since :: "bool \<Rightarrow> u8 \<Rightarrow> u8 \<Rightarrow> string \<Rightarrow> bytes \<Rightarrow> bytes result" where
  "w_since cond generateVersion minVersion msg bs =
     (if cond then if generateVersion < minVersion then Inl (ENew msg) else Inr bs else Inr [])"

definition w_strings :: "('m, 'a) srs_env \<Rightarrow> u8 \<Rightarrow> string list \<Rightarrow> bytes result" where
  "w_strings env itemType value =
     w_if (length value > 0) (Inr (writeRuleItemString env itemType value))"

definition w_uint16s :: "('m, 'a) srs_env \<Rightarrow> u8 \<Rightarrow> u16 list \<Rightarrow> bytes result" where
  "w_uint16s env itemType value =
     w_if (length value > 0) (Inr (writeRuleItemUint16 env itemType value))"

text \<open>The items a rule may have in every version of the format, and the further ones.\<close>

definition basic_items ::
    "('m, 'a) srs_env \<Rightarrow> DefaultHeadlessRule_options \<Rightarrow> u8 \<Rightarrow> bytes result list" where
  "basic_items env rule v =
     [w_uint16s env ruleItemQueryType (h_QueryType rule),
      w_strings env ruleItemNetwork (h_Network rule),
      w_if (length (h_Domain rule) > 0 \<or> length (h_DomainSuffix rule) > 0)
        (Inr ([ruleItemDomain] @
          srs_Matcher_Write env (srs_NewMatcher env (h_Domain rule) (h_DomainSuffix rule) (v = 1)))),
      w_strings env ruleItemDomainKeyword (h_DomainKeyword rule),
      w_strings env ruleItemDomainRegex (h_DomainRegex rule),
      w_if (length (h_SourceIPCIDR rule) > 0)
        (res_cause ''source_ip_cidr'' (writeRuleItemCIDR env ruleItemSourceIPCIDR (h_SourceIPCIDR rule))),
      w_if (length (h_IPCIDR rule) > 0)
        (res_cause ''ipcidr'' (writeRuleItemCIDR env ruleItemIPCIDR (h_IPCIDR rule))),
      w_uint16s env ruleItemSourcePort (h_SourcePort rule),
      w_strings env ruleItemSourcePortRange (h_SourcePortRange rule),
      w_uint16s env ruleItemPort (h_Port rule),
      w_strings env ruleItemPortRange (h_PortRange rule),
      w_strings env ruleItemProcessName (h_ProcessName rule),
      w_strings env ruleItemProcessPath (h_ProcessPath rule),
      w_strings env ruleItemProcessPathRegex (h_ProcessPathRegex rule),
      w_strings env ruleItemPackageName (h_PackageName rule)]"

definition further_items ::
    "('m, 'a) srs_env \<Rightarrow> DefaultHeadlessRule_options \<Rightarrow> u8 \<Rightarrow> bytes result list" where
  "further_items env rule v =
     [w_since (length (h_PackageNameRegex rule) > 0) v 5
        ''`package_name_regex` rule item is only supported in version 5 or later''
        (writeRuleItemString env ruleItemPackageNameRegex (h_PackageNameRegex rule)),
      w_since (length (h_NetworkType rule) > 0) v 3
        ''`network_type` rule item is only supported in version 3 or later''
        (writeRuleItemUint8 env ruleItemNetworkType (h_NetworkType rule)),
      w_since (h_NetworkIsExpensive rule) v 3
        ''`network_is_expensive` rule item is only supported in version 3 or later''
        [ruleItemNetworkIsExpensive],
      w_since (h_NetworkIsConstrained rule) v 3
        ''`network_is_constrained` rule item is only supported in version 3 or later''
        [ruleItemNetworkIsConstrained],
      w_since (map_nonempty (h_NetworkInterfaceAddress rule)) v 4
        ''`network_interface_address` rule item is only supported in version 4 or later''
        ([ruleItemNetworkInterfaceAddress] @
         write_interface_addresses env (entries (h_NetworkInterfaceAddress rule))),
      w_since (length (h_DefaultInterfaceAddress rule) > 0) v 4
        ''`default_interface_address` rule item is only supported in version 4 or later''
        ([ruleItemDefaultInterfaceAddress] @ write_prefixes env (h_DefaultInterfaceAddress rule)),
      w_strings env ruleItemWIFISSID (h_WIFISSID rule),
      w_strings env ruleItemWIFIBSSID (h_WIFIBSSID rule),
      w_since (length (h_AdGuardDomain rule) > 0) v 2
        ''AdGuard rule items is only supported in version 2 or later''
        ([ruleItemAdGuardDomain] @ srs_AdGuard_Write env (srs_NewAdGuardMatcher env (h_AdGuardDomain rule)))]"

definition default_rule_items ::
    "('m, 'a) srs_env \<Rightarrow> DefaultHeadlessRule_options \<Rightarrow> u8 \<Rightarrow> bytes result list" where
  "default_rule_items env rule v = basic_items env rule v @ further_items env rule v"

lemmas default_rule_items_defs = default_rule_items_def basic_items_def further_items_def

definition writeDefaultRule ::
    "('m, 'a) srs_env \<Rightarrow> DefaultHeadlessRule_options \<Rightarrow> u8 \<Rightarrow> bytes result" where
  "writeDefaultRule env rule v =
     w_seq ([Inr [0]] @ default_rule_items env rule v @
            [Inr [ruleItemFinal], Inr (binary_Write_bool (h_Invert rule))])"

subsection \<open>Logical rules\<close>

text \<open>
  \<open>readRule\<close> and \<open>readLogicalRule\<close> call each other; the argument is the number of levels left, so
  depth \<open>d\<close> of the code is \<open>maxLogicalRuleDepth + 1 - d\<close>. \<open>readLogicalRule\<close> gets the reader of
  the next level.
\<close>

definition readLogicalRule :: "HeadlessRule_options parser \<Rightarrow> HeadlessRule_options parser" where
  "readLogicalRule readSubRule =
     p_bind ReadByte (\<lambda>mode.
     p_bind (if mode = 0 then p_return ''and'' else if mode = 1 then p_return ''or''
             else p_fail (ENew (''unknown logical mode: '' @ strconv_FormatUint (unat mode)))) (\<lambda>mode'.
     p_bind binary_ReadUvarint (\<lambda>n.
     p_bind (p_times n 0 (\<lambda>i. p_cause (''read logical rule ['' @ strconv_FormatUint i @ '']'') readSubRule)) (\<lambda>rules.
     p_bind binary_Read_bool (\<lambda>inv'.
       p_return (HeadlessRule_options ''logical'' headless_zero mode' rules inv'))))))"

fun readRule_levels :: "('m, 'a) srs_env \<Rightarrow> bool \<Rightarrow> nat \<Rightarrow> HeadlessRule_options parser" where
  "readRule_levels env recover 0 = p_fail (ENew ''logical rule nested too deep'')"
| "readRule_levels env recover (Suc levels) =
     p_bind ReadByte (\<lambda>ruleType.
       if ruleType = 0 then
         p_bind (readDefaultRule env recover) (\<lambda>rule.
           p_return (HeadlessRule_options ''default'' rule [] [] False))
       else if ruleType = 1 then readLogicalRule (readRule_levels env recover levels)
       else p_fail (ENew (''unknown rule type: '' @ strconv_FormatUint (unat ruleType))))"

definition readRule :: "('m, 'a) srs_env \<Rightarrow> bool \<Rightarrow> nat \<Rightarrow> HeadlessRule_options parser" where
  "readRule env recover depth = readRule_levels env recover (maxLogicalRuleDepth + 1 - depth)"

definition write_mode :: "string \<Rightarrow> bytes result" where
  "write_mode mode =
     (if mode = ''and'' then Inr [0] else if mode = ''or'' then Inr [1]
      else Inl (EPanic (''unknown logical mode: '' @ mode)))"

definition writeLogicalRule ::
    "('m, 'a) srs_env \<Rightarrow> string \<Rightarrow> bool \<Rightarrow> nat \<Rightarrow> bytes result \<Rightarrow> bytes result" where
  "writeLogicalRule env mode inv' n subRules =
     w_seq [Inr [1], write_mode mode, Inr (srs_WriteUvarint env n), subRules, Inr (binary_Write_bool inv')]"

fun writeRule :: "('m, 'a) srs_env \<Rightarrow> u8 \<Rightarrow> HeadlessRule_options \<Rightarrow> bytes result" where
  "writeRule env v (HeadlessRule_options type' default' mode rules inv') =
     (if type' = ''default'' then writeDefaultRule env default' v
      else if type' = ''logical'' then
        writeLogicalRule env mode inv' (length rules) (w_seq (map (writeRule env v) rules))
      else Inl (EPanic (''unknown rule type: '' @ type')))"

subsection \<open>Files\<close>

definition srs_Read :: "('m, 'a) srs_env \<Rightarrow> bool \<Rightarrow> stream \<Rightarrow> (u8 \<times> HeadlessRule_options list) result" where
  "srs_Read env recover s =
     res_bind (p_bind (io_ReadFull 3) (\<lambda>magicBytes.
        if magicBytes \<noteq> MagicBytes then p_fail (ENew ''invalid sing-box rule-set file'')
        else p_bind ReadByte (\<lambda>version.
          if version > RuleSetVersionCurrent
          then p_fail (ENew (''unsupported version: '' @ strconv_FormatUint (unat version)))
          else p_return version)) s) (\<lambda>(version, s1).
     res_bind (srs_decompress env s1) (\<lambda>s2.
     res_bind (p_bind binary_ReadUvarint (\<lambda>n.
        p_times n 0 (\<lambda>i. p_cause (''read rule['' @ strconv_FormatUint i @ '']'') (readRule env recover 0))) s2)
       (\<lambda>(rules, _). Inr (version, rules))))"

definition srs_Write :: "('m, 'a) srs_env \<Rightarrow> HeadlessRule_options list \<Rightarrow> u8 \<Rightarrow> bytes result" where
  "srs_Write env rules generateVersion =
     res_bind (w_seq (Inr (srs_WriteUvarint env (length rules)) # map (writeRule env generateVersion) rules))
       (\<lambda>body. Inr (MagicBytes @ [generateVersion] @ srs_compress env body))"

end
