(* ===== verification/SrsLaws.thy ===== *)
theory SrsLaws
  imports SrsCodec
begin

text \<open>
  The binary rule-set format read back. \<open>srs_env_ok\<close> states what the codec relies on of the other
  libraries: their readers read what their writers write, the IP set builder yields ranges of valid
  addresses without zones, and an insertion of a new key into a typed map appends it. \<open>storable\<close>
  bounds the lengths of the lists of an option value by those of Go slices and requires its prefixes
  to be valid. \<open>stored_rule\<close> is the option value a written rule comes back as.
\<close>

subsection \<open>Assumptions on the libraries\<close>

definition sized :: "'b list \<Rightarrow> bool" where
  "sized xs \<longleftrightarrow> length xs < 2 ^ 64"

definition strings_ok :: "string list \<Rightarrow> bool" where
  "strings_ok v \<longleftrightarrow> sized v \<and> list_all sized v"

definition plain_addr :: "Addr \<Rightarrow> bool" where
  "plain_addr a \<longleftrightarrow> addr_IsValid a \<and> addr_withoutZone a = a"

definition srs_varbin_ok :: "('m, 'a) srs_env \<Rightarrow> bool" where
  "srs_varbin_ok env \<longleftrightarrow>
     (\<forall>n < 2 ^ 64. reads binary_ReadUvarint (srs_WriteUvarint env n) n) \<and>
     (\<forall>v. sized v \<longrightarrow> reads (p_extern (srs_ReadSlice8 env)) (srs_WriteUvarint env (length v) @ v) v) \<and>
     (\<forall>v. sized v \<longrightarrow> reads (p_extern (srs_ReadSlice16 env))
        (srs_WriteUvarint env (length v) @ concat (map (\<lambda>x. be_bytes 2 (unat x)) v)) v)"

definition srs_matchers_ok :: "('m, 'a) srs_env \<Rightarrow> bool" where
  "srs_matchers_ok env \<longleftrightarrow>
     (\<forall>domains suffixes legacy. strings_ok domains \<longrightarrow> strings_ok suffixes \<longrightarrow>
       (let m = srs_NewMatcher env domains suffixes legacy in
        \<exists>m'. reads (p_extern (srs_ReadMatcher env)) (srs_Matcher_Write env m) m' \<and>
             srs_Matcher_Match env m' = srs_Matcher_Match env m \<and>
             srs_Matcher_Dump env m' = srs_Matcher_Dump env m)) \<and>
     (\<forall>lines. strings_ok lines \<longrightarrow>
       (let m = srs_NewAdGuardMatcher env lines in
        \<exists>m'. reads (p_extern (srs_ReadAdGuardMatcher env)) (srs_AdGuard_Write env m) m' \<and>
             srs_AdGuard_Match env m' = srs_AdGuard_Match env m \<and>
             srs_AdGuard_Dump env m' = srs_AdGuard_Dump env m))"

definition srs_env_ok :: "('m, 'a) srs_env \<Rightarrow> bool" where
  "srs_env_ok env \<longleftrightarrow> srs_varbin_ok env \<and> srs_matchers_ok env \<and>
     (\<forall>ps rr. srs_builder_IPSet env ps = Inr rr \<longrightarrow>
        sized rr \<and> (\<forall>(a, b) \<in> set rr. plain_addr a \<and> plain_addr b)) \<and>
     (\<forall>a. plain_addr a \<longrightarrow> env_AddrFromIP (srs_rules env) (addr_AsSlice a) = a) \<and>
     (\<forall>m k v. k \<notin> fst ` set m \<longrightarrow> srs_TypedMap_Put env m k v = m @ [(k, v)]) \<and>
     (\<forall>body rest e. \<exists>e'. srs_decompress env (srs_compress env body @ rest, e) = Inr (body, e'))"

lemma varbin_reads:
  assumes "srs_env_ok env"
  shows "n < 2 ^ 64 \<Longrightarrow> reads binary_ReadUvarint (srs_WriteUvarint env n) n"
    and "sized v \<Longrightarrow> reads (p_extern (srs_ReadSlice8 env)) (srs_WriteUvarint env (length v) @ v) v"
    and "sized w \<Longrightarrow> reads (p_extern (srs_ReadSlice16 env))
        (srs_WriteUvarint env (length w) @ concat (map (\<lambda>x. be_bytes 2 (unat x)) w)) w"
  using assms unfolding srs_env_ok_def srs_varbin_ok_def by blast+

lemma sized_reads: "srs_env_ok env \<Longrightarrow> sized xs \<Longrightarrow> reads binary_ReadUvarint (srs_WriteUvarint env (length xs)) (length xs)"
  by (simp add: varbin_reads(1) sized_def)

subsection \<open>Addresses and prefixes\<close>

lemma length_AsSlice: "plain_addr a \<Longrightarrow> length (addr_AsSlice a) = 4 \<or> length (addr_AsSlice a) = 16"
  by (cases a) (auto simp: plain_addr_def)

lemma reads_addr:
  assumes "srs_env_ok env" "plain_addr a"
  shows "reads (readIPSetAddr env) (write_addr env a) a"
proof -
  have "length (addr_AsSlice a) < 2 ^ 64" using length_AsSlice [OF assms(2)] by auto
  moreover have "env_AddrFromIP (srs_rules env) (addr_AsSlice a) = a"
    using assms unfolding srs_env_ok_def by blast
  ultimately show ?thesis
    unfolding readIPSetAddr_def write_addr_def using length_AsSlice [OF assms(2)]
    by (intro reads_bind [OF varbin_reads(1) [OF assms(1)]])
      (auto intro!: reads_bind_return reads_ReadFull)
qed

lemma reads_IPSet:
  assumes "srs_env_ok env" "sized rr" "\<forall>(a, b) \<in> set rr. plain_addr a \<and> plain_addr b"
  shows "reads (readIPSet env) (writeIPSet env rr) rr"
proof -
  have "reads (p_times (length rr) 0 (\<lambda>_. p_bind (readIPSetAddr env) (\<lambda>from'.
        p_bind (readIPSetAddr env) (\<lambda>to. p_return (from', to)))))
      (concat (map (\<lambda>(from', to). write_addr env from' @ write_addr env to) rr)) (map (\<lambda>r. r) rr)"
    using assms by (intro reads_times) (auto intro!: reads_bind reads_bind_return reads_addr)
  moreover have "reads (binary_Read_uint 8) (be_bytes 8 (length rr)) (length rr)"
    using assms(2) by (intro reads_Read_uint) (simp add: sized_def)
  ultimately show ?thesis
    unfolding readIPSet_def writeIPSet_def
    by (intro reads_bind [OF reads_ReadByte]) (auto intro!: reads_bind)
qed

definition plain_prefix :: "Prefix \<Rightarrow> bool" where
  "plain_prefix p \<longleftrightarrow> prefix_proper p \<and> prefix_IsValid p"

lemma plain_prefix_addr: "plain_prefix p \<Longrightarrow> plain_addr (prefix_Addr p)"
  by (cases "prefix_Addr p") (auto simp: plain_prefix_def prefix_proper_def plain_addr_def prefix_IsValid_def)

lemma plain_prefix_From:
  assumes "plain_prefix p"
  shows "prefix_From (prefix_Addr p) (uint (of_int (prefix_Bits p) :: u8)) = p"
proof -
  have "uint (of_int (prefix_Bits p) :: u8) = prefix_Bits p"
    using assms uint_bits [of p] by (simp add: plain_prefix_def)
  then show ?thesis
    using assms by (cases p, cases "prefix_Addr p")
      (auto simp: plain_prefix_def prefix_From_def prefix_proper_def prefix_IsValid_def prefix_Bits_def)
qed

lemma reads_prefix:
  assumes "srs_env_ok env" "plain_prefix p"
  shows "reads (readPrefix env) (writePrefix env p) p"
proof -
  note a = plain_prefix_addr [OF assms(2)]
  have "length (addr_AsSlice (prefix_Addr p)) < 2 ^ 64" using length_AsSlice [OF a] by auto
  moreover have "env_AddrFromIP (srs_rules env) (addr_AsSlice (prefix_Addr p)) = prefix_Addr p"
    using assms(1) a unfolding srs_env_ok_def by blast
  ultimately show ?thesis
    unfolding readPrefix_def writePrefix_def using length_AsSlice [OF a] plain_prefix_From [OF assms(2)]
    by (intro reads_bind [OF varbin_reads(1) [OF assms(1)]])
      (auto intro!: reads_bind [OF reads_ReadFull] reads_bind_return reads_ReadByte)
qed

lemma reads_prefixes:
  assumes "srs_env_ok env" "sized ps" "list_all plain_prefix ps"
  shows "reads (read_prefixes env) (write_prefixes env ps) ps"
proof -
  have "reads (p_times (length ps) 0 (\<lambda>_. readPrefix env)) (concat (map (writePrefix env) ps)) (map (\<lambda>p. p) ps)"
    using assms by (intro reads_times) (auto simp: list_all_iff intro: reads_prefix)
  then show ?thesis
    unfolding read_prefixes_def write_prefixes_def
    by (intro reads_bind [OF sized_reads [OF assms(1,2)]]) simp
qed

definition interface_addresses_ok :: "(InterfaceType \<times> Prefix list) list \<Rightarrow> bool" where
  "interface_addresses_ok es \<longleftrightarrow> sized es \<and> distinct (map fst es) \<and>
     list_all (\<lambda>(_, ps). sized ps \<and> list_all plain_prefix ps) es"

lemma fold_Put:
  assumes "srs_env_ok env" "distinct (map fst (m @ es))"
  shows "fold (\<lambda>(key, value) m. srs_TypedMap_Put env m key value) es m = m @ es"
  using assms(2)
proof (induction es arbitrary: m)
  case (Cons e es)
  obtain k v where e: "e = (k, v)" by (cases e)
  have "k \<notin> fst ` set m" using Cons.prems by (auto simp: e)
  then have "srs_TypedMap_Put env m k v = m @ [(k, v)]"
    using assms(1) unfolding srs_env_ok_def by blast
  then show ?case using Cons.IH [of "m @ [(k, v)]"] Cons.prems by (simp add: e)
qed simp

lemma reads_interface_addresses:
  assumes "srs_env_ok env" "interface_addresses_ok es"
  shows "reads (read_interface_addresses env) (write_interface_addresses env es) es"
proof -
  have "reads (p_times (length es) 0 (\<lambda>_. p_bind ReadByte (\<lambda>key.
        p_bind (read_prefixes env) (\<lambda>value. p_return (key, value)))))
      (concat (map (\<lambda>(key, value). [key] @ write_prefixes env value) es)) (map (\<lambda>e. e) es)"
    using assms
    by (intro reads_times)
      (auto simp: interface_addresses_ok_def list_all_iff simp del: append_Cons
        intro!: reads_bind [OF reads_ReadByte] reads_bind_return reads_prefixes)
  moreover have "fold (\<lambda>(key, value) m. srs_TypedMap_Put env m key value) es [] = es"
    using fold_Put [OF assms(1), of "[]" es] assms(2) by (simp add: interface_addresses_ok_def)
  moreover have "sized es" using assms(2) by (simp add: interface_addresses_ok_def)
  ultimately show ?thesis
    unfolding read_interface_addresses_def write_interface_addresses_def
    by (intro reads_bind [OF sized_reads [OF assms(1)]]) (auto intro!: reads_bind_return)
qed

lemma reads_strings:
  assumes "srs_env_ok env" "sized v" "list_all sized v"
  shows "reads (readRuleItemString env)
    (srs_WriteUvarint env (length v) @ concat (map (\<lambda>s. srs_WriteUvarint env (length s) @ bytes_of s) v)) v"
proof -
  have "reads (p_extern (srs_ReadSlice8 env)) (srs_WriteUvarint env (length s) @ bytes_of s) (bytes_of s)"
    if "sized s" for s
    using varbin_reads(2) [OF assms(1), of "bytes_of s"] that by (simp add: sized_def)
  then have "reads (p_times (length v) 0 (\<lambda>_. p_bind (p_extern (srs_ReadSlice8 env)) (\<lambda>value. p_return (string_of value))))
      (concat (map (\<lambda>s. srs_WriteUvarint env (length s) @ bytes_of s) v)) (map (\<lambda>s. s) v)"
    using assms(3) by (intro reads_times) (auto simp: list_all_iff intro!: reads_bind_return)
  then show ?thesis
    unfolding readRuleItemString_def by (intro reads_bind [OF sized_reads [OF assms(1,2)]]) simp
qed

subsection \<open>Items of a default rule\<close>

definition item_law ::
    "('m, 'a) srs_env \<Rightarrow> bool \<Rightarrow> bytes \<Rightarrow> (DefaultHeadlessRule_options \<Rightarrow> DefaultHeadlessRule_options) \<Rightarrow> bool" where
  "item_law env recover bs f \<longleftrightarrow> (\<forall>t rule rest e. \<exists>t'.
     readDefaultRule_loop env recover t rule (bs @ rest, e) = readDefaultRule_loop env recover t' (f rule) (rest, e))"

definition writes_item ::
    "('m, 'a) srs_env \<Rightarrow> bool \<Rightarrow> bytes result \<Rightarrow> (DefaultHeadlessRule_options \<Rightarrow> DefaultHeadlessRule_options) \<Rightarrow> bool" where
  "writes_item env recover w f \<longleftrightarrow> (\<forall>bs. w = Inr bs \<longrightarrow> item_law env recover bs f)"

lemma item_law_Nil: "(\<And>r. f r = r) \<Longrightarrow> item_law env recover [] f"
  by (auto simp: item_law_def)

lemma item_law_append:
  assumes "item_law env recover bs f" "item_law env recover cs g"
  shows "item_law env recover (bs @ cs) (\<lambda>r. g (f r))"
  unfolding item_law_def
proof (intro allI)
  fix t rule rest e
  obtain t' where "readDefaultRule_loop env recover t rule (bs @ cs @ rest, e) =
      readDefaultRule_loop env recover t' (f rule) (cs @ rest, e)"
    using assms(1) unfolding item_law_def by blast
  moreover obtain t'' where "readDefaultRule_loop env recover t' (f rule) (cs @ rest, e) =
      readDefaultRule_loop env recover t'' (g (f rule)) (rest, e)"
    using assms(2) unfolding item_law_def by blast
  ultimately show "\<exists>t''. readDefaultRule_loop env recover t rule ((bs @ cs) @ rest, e) =
      readDefaultRule_loop env recover t'' (g (f rule)) (rest, e)" by auto
qed

lemma item_law_item:
  assumes "itemType \<noteq> ruleItemFinal" "\<And>t rule. reads (read_item env recover t itemType rule) bs (f rule)"
  shows "item_law env recover ([itemType] @ bs) f"
  unfolding item_law_def
proof (intro allI)
  fix t rule rest e
  have "readDefaultRule_loop env recover t rule (([itemType] @ bs) @ rest, e) =
      readDefaultRule_loop env recover itemType (f rule) (rest, e)"
    using assms(1) readsD [OF assms(2)]
    by (subst readDefaultRule_loop.simps) (simp add: ReadByte_def)
  then show "\<exists>t'. readDefaultRule_loop env recover t rule (([itemType] @ bs) @ rest, e) =
      readDefaultRule_loop env recover t' (f rule) (rest, e)" by blast
qed

lemma item_law_seq:
  "list_all2 (writes_item env recover) ws fs \<Longrightarrow> w_seq ws = Inr bs \<Longrightarrow>
     item_law env recover bs (\<lambda>r. fold (\<lambda>f. f) fs r)"
proof (induction arbitrary: bs rule: list_all2_induct)
  case Nil
  then show ?case by (auto intro: item_law_Nil)
next
  case (Cons w ws f fs)
  from Cons.prems obtain b c where "w = Inr b" "w_seq ws = Inr c" "bs = b @ c"
    by (auto simp: res_bind_Inr_iff)
  then show ?case
    using Cons item_law_append [of env recover b f c "\<lambda>r. fold (\<lambda>f. f) fs r"] by (auto simp: writes_item_def)
qed

text \<open>The field a written list goes to; an empty list is not written.\<close>

definition keep_or :: "'b list \<Rightarrow> 'b list \<Rightarrow> 'b list" where
  "keep_or v old = (if length v > 0 then v else old)"

lemma keep_or_simps: "v \<noteq> [] \<Longrightarrow> keep_or v = (\<lambda>_. v)" "keep_or [] = (\<lambda>old. old)" "keep_or v [] = v"
  by (auto simp: keep_or_def fun_eq_iff)

lemma writes_strings:
  assumes "srs_env_ok env" "sized v \<and> list_all sized v" "itemType \<noteq> ruleItemFinal" "\<And>r. upd (\<lambda>old. old) r = r"
    and "\<And>t rule. read_item env recover t itemType rule =
      p_bind (readRuleItemString env) (\<lambda>v. p_return (upd (\<lambda>_. v) rule))"
  shows "writes_item env recover (w_strings env itemType v) (upd (keep_or v))"
proof (cases "v = []")
  case True
  then show ?thesis using assms(4)
    by (auto simp: writes_item_def w_strings_def w_if_def keep_or_simps intro: item_law_Nil)
next
  case False
  have "item_law env recover (writeRuleItemString env itemType v) (upd (\<lambda>_. v))"
    unfolding writeRuleItemString_def using assms
    by (intro item_law_item) (auto intro!: reads_bind_return reads_strings)
  then show ?thesis using False by (auto simp: writes_item_def w_strings_def w_if_def keep_or_simps)
qed

lemma writes_uint16s:
  assumes "srs_env_ok env" "sized v" "itemType \<noteq> ruleItemFinal" "\<And>r. upd (\<lambda>old. old) r = r"
    and "\<And>t rule. read_item env recover t itemType rule =
      p_bind (p_extern (srs_ReadSlice16 env)) (\<lambda>v. p_return (upd (\<lambda>_. v) rule))"
  shows "writes_item env recover (w_uint16s env itemType v) (upd (keep_or v))"
proof (cases "v = []")
  case True
  then show ?thesis using assms(4)
    by (auto simp: writes_item_def w_uint16s_def w_if_def keep_or_simps intro: item_law_Nil)
next
  case False
  have "item_law env recover (writeRuleItemUint16 env itemType v) (upd (\<lambda>_. v))"
    unfolding writeRuleItemUint16_def using assms
    by (intro item_law_item) (auto intro!: reads_bind_return varbin_reads)
  then show ?thesis using False by (auto simp: writes_item_def w_uint16s_def w_if_def keep_or_simps)
qed

lemma writes_since:
  assumes "cond \<Longrightarrow> item_law env recover bs f" "\<not> cond \<Longrightarrow> (\<And>r. f r = r)"
  shows "writes_item env recover (w_since cond v minVersion msg bs) f"
  using assms by (auto simp: writes_item_def w_since_def intro: item_law_Nil)

lemma writes_if:
  assumes "\<And>bs. cond \<Longrightarrow> w = Inr bs \<Longrightarrow> item_law env recover bs f" "\<not> cond \<Longrightarrow> (\<And>r. f r = r)"
  shows "writes_item env recover (w_if cond w) f"
  using assms by (auto simp: writes_item_def w_if_def intro: item_law_Nil)


lemma read_items:
  "read_item env recover t ruleItemQueryType rule =
     p_bind (p_extern (srs_ReadSlice16 env)) (\<lambda>v. p_return (rule\<lparr>h_QueryType := v\<rparr>))"
  "read_item env recover t ruleItemDomain rule = read_domain env recover rule"
  "read_item env recover t ruleItemSourceIPCIDR rule = read_source_cidr env recover rule"
  "read_item env recover t ruleItemIPCIDR rule = read_cidr env recover rule"
  "read_item env recover t ruleItemAdGuardDomain rule = read_adguard env recover rule"
  "read_item env recover t ruleItemNetworkType rule =
     p_bind (p_extern (srs_ReadSlice8 env)) (\<lambda>v. p_return (rule\<lparr>h_NetworkType := v\<rparr>))"
  "read_item env recover t ruleItemNetworkIsExpensive rule = p_return (rule\<lparr>h_NetworkIsExpensive := True\<rparr>)"
  "read_item env recover t ruleItemNetworkIsConstrained rule = p_return (rule\<lparr>h_NetworkIsConstrained := True\<rparr>)"
  "read_item env recover t ruleItemNetworkInterfaceAddress rule =
     p_bind (read_interface_addresses env) (\<lambda>v. p_return (rule\<lparr>h_NetworkInterfaceAddress := Some v\<rparr>))"
  "read_item env recover t ruleItemDefaultInterfaceAddress rule =
     p_bind (read_prefixes env) (\<lambda>v. p_return (rule\<lparr>h_DefaultInterfaceAddress := v\<rparr>))"
  by (simp_all add: read_item_def)

definition has_domain :: "DefaultHeadlessRule_options \<Rightarrow> bool" where
  "has_domain rule \<longleftrightarrow> length (h_Domain rule) > 0 \<or> length (h_DomainSuffix rule) > 0"

definition set_domain ::
    "('m, 'a) srs_env \<Rightarrow> bool \<Rightarrow> bool \<Rightarrow> 'm \<Rightarrow> DefaultHeadlessRule_options \<Rightarrow> DefaultHeadlessRule_options" where
  "set_domain env recover cond m rule =
     h_DomainMatcher_update (\<lambda>old. if cond then Some (srs_Matcher_Match env m) else old)
     (h_Domain_update (\<lambda>old. if cond \<and> recover then fst (srs_Matcher_Dump env m) else old)
     (h_DomainSuffix_update (\<lambda>old. if cond \<and> recover then snd (srs_Matcher_Dump env m) else old) rule))"

definition set_adguard ::
    "('m, 'a) srs_env \<Rightarrow> bool \<Rightarrow> bool \<Rightarrow> 'a \<Rightarrow> DefaultHeadlessRule_options \<Rightarrow> DefaultHeadlessRule_options" where
  "set_adguard env recover cond m rule =
     h_AdGuardDomainMatcher_update (\<lambda>old. if cond then Some (srs_AdGuard_Match env m) else old)
     (h_AdGuardDomain_update (\<lambda>old. if cond \<and> recover then srs_AdGuard_Dump env m else old) rule)"

definition set_source_cidr ::
    "('m, 'a) srs_env \<Rightarrow> bool \<Rightarrow> bool \<Rightarrow> (Addr \<times> Addr) list \<Rightarrow> DefaultHeadlessRule_options \<Rightarrow> DefaultHeadlessRule_options" where
  "set_source_cidr env recover cond rr rule =
     h_SourceIPSet_update (\<lambda>old. if cond then Some (srs_IPSet_Contains env rr) else old)
     (h_SourceIPCIDR_update (\<lambda>old. if cond \<and> recover then set_strings env rr else old) rule)"

definition set_cidr ::
    "('m, 'a) srs_env \<Rightarrow> bool \<Rightarrow> bool \<Rightarrow> (Addr \<times> Addr) list \<Rightarrow> DefaultHeadlessRule_options \<Rightarrow> DefaultHeadlessRule_options" where
  "set_cidr env recover cond rr rule =
     h_IPSet_update (\<lambda>old. if cond then Some (srs_IPSet_Contains env rr) else old)
     (h_IPCIDR_update (\<lambda>old. if cond \<and> recover then set_strings env rr else old) rule)"

lemmas set_defs = set_domain_def set_adguard_def set_source_cidr_def set_cidr_def

definition cidr_ranges :: "('m, 'a) srs_env \<Rightarrow> string list \<Rightarrow> (Addr \<times> Addr) list" where
  "cidr_ranges env cidrs = (case cidr_IPSet env cidrs of Inl _ \<Rightarrow> [] | Inr rr \<Rightarrow> rr)"

lemma law_domain:
  assumes "srs_env_ok env" "strings_ok domains" "strings_ok suffixes"
  shows "item_law env recover
    ([ruleItemDomain] @ srs_Matcher_Write env (srs_NewMatcher env domains suffixes legacy))
    (set_domain env recover True (srs_NewMatcher env domains suffixes legacy))"
proof (rule item_law_item)
  fix t rule
  obtain m' where "reads (p_extern (srs_ReadMatcher env))
      (srs_Matcher_Write env (srs_NewMatcher env domains suffixes legacy)) m'"
    and m': "srs_Matcher_Match env m' = srs_Matcher_Match env (srs_NewMatcher env domains suffixes legacy)"
      "srs_Matcher_Dump env m' = srs_Matcher_Dump env (srs_NewMatcher env domains suffixes legacy)"
    using assms unfolding srs_env_ok_def srs_matchers_ok_def Let_def by blast
  then show "reads (read_item env recover t ruleItemDomain rule)
      (srs_Matcher_Write env (srs_NewMatcher env domains suffixes legacy))
      (set_domain env recover True (srs_NewMatcher env domains suffixes legacy) rule)"
    unfolding read_items read_domain_def Let_def
    by (intro reads_bind_return) (auto simp: set_defs)
qed simp

lemma law_adguard:
  assumes "srs_env_ok env" "strings_ok lines"
  shows "item_law env recover ([ruleItemAdGuardDomain] @ srs_AdGuard_Write env (srs_NewAdGuardMatcher env lines))
    (set_adguard env recover True (srs_NewAdGuardMatcher env lines))"
proof (rule item_law_item)
  fix t rule
  obtain m' where "reads (p_extern (srs_ReadAdGuardMatcher env)) (srs_AdGuard_Write env (srs_NewAdGuardMatcher env lines)) m'"
    and m': "srs_AdGuard_Match env m' = srs_AdGuard_Match env (srs_NewAdGuardMatcher env lines)"
      "srs_AdGuard_Dump env m' = srs_AdGuard_Dump env (srs_NewAdGuardMatcher env lines)"
    using assms unfolding srs_env_ok_def srs_matchers_ok_def Let_def by blast
  then show "reads (read_item env recover t ruleItemAdGuardDomain rule)
      (srs_AdGuard_Write env (srs_NewAdGuardMatcher env lines))
      (set_adguard env recover True (srs_NewAdGuardMatcher env lines) rule)"
    unfolding read_items read_adguard_def Let_def
    by (intro reads_bind_return) (auto simp: set_defs)
qed simp

lemma cidr_reads:
  assumes "srs_env_ok env" "writeRuleItemCIDR env itemType cidrs = Inr bs"
  shows "bs = [itemType] @ writeIPSet env (cidr_ranges env cidrs)"
    and "reads (readIPSet env) (writeIPSet env (cidr_ranges env cidrs)) (cidr_ranges env cidrs)"
proof -
  from assms(2) obtain rr where rr: "cidr_IPSet env cidrs = Inr rr" "bs = [itemType] @ writeIPSet env rr"
    by (auto simp: writeRuleItemCIDR_def res_bind_Inr_iff)
  then obtain ps where "srs_builder_IPSet env ps = Inr rr" by (auto simp: cidr_IPSet_def res_bind_Inr_iff)
  then have "sized rr" "\<forall>(a, b) \<in> set rr. plain_addr a \<and> plain_addr b"
    using assms(1) unfolding srs_env_ok_def by blast+
  then show "bs = [itemType] @ writeIPSet env (cidr_ranges env cidrs)"
    "reads (readIPSet env) (writeIPSet env (cidr_ranges env cidrs)) (cidr_ranges env cidrs)"
    using rr reads_IPSet [OF assms(1)] by (auto simp: cidr_ranges_def)
qed

lemma law_source_cidr:
  assumes "srs_env_ok env" "res_cause msg (writeRuleItemCIDR env ruleItemSourceIPCIDR cidrs) = Inr bs"
  shows "item_law env recover bs (set_source_cidr env recover True (cidr_ranges env cidrs))"
proof -
  have w: "writeRuleItemCIDR env ruleItemSourceIPCIDR cidrs = Inr bs" using assms(2) by simp
  show ?thesis
    unfolding cidr_reads(1) [OF assms(1) w] using cidr_reads(2) [OF assms(1) w]
    by (intro item_law_item) (auto simp: read_items read_source_cidr_def set_defs Let_def intro!: reads_bind_return)
qed

lemma law_cidr:
  assumes "srs_env_ok env" "res_cause msg (writeRuleItemCIDR env ruleItemIPCIDR cidrs) = Inr bs"
  shows "item_law env recover bs (set_cidr env recover True (cidr_ranges env cidrs))"
proof -
  have w: "writeRuleItemCIDR env ruleItemIPCIDR cidrs = Inr bs" using assms(2) by simp
  show ?thesis
    unfolding cidr_reads(1) [OF assms(1) w] using cidr_reads(2) [OF assms(1) w]
    by (intro item_law_item) (auto simp: read_items read_cidr_def set_defs Let_def intro!: reads_bind_return)
qed

subsection \<open>Default rules\<close>

definition basic_updates ::
    "('m, 'a) srs_env \<Rightarrow> bool \<Rightarrow> u8 \<Rightarrow> DefaultHeadlessRule_options \<Rightarrow>
     (DefaultHeadlessRule_options \<Rightarrow> DefaultHeadlessRule_options) list" where
  "basic_updates env recover v rule =
     [h_QueryType_update (keep_or (h_QueryType rule)),
      h_Network_update (keep_or (h_Network rule)),
      set_domain env recover (has_domain rule)
        (srs_NewMatcher env (h_Domain rule) (h_DomainSuffix rule) (v = 1)),
      h_DomainKeyword_update (keep_or (h_DomainKeyword rule)),
      h_DomainRegex_update (keep_or (h_DomainRegex rule)),
      set_source_cidr env recover (length (h_SourceIPCIDR rule) > 0) (cidr_ranges env (h_SourceIPCIDR rule)),
      set_cidr env recover (length (h_IPCIDR rule) > 0) (cidr_ranges env (h_IPCIDR rule)),
      h_SourcePort_update (keep_or (h_SourcePort rule)),
      h_SourcePortRange_update (keep_or (h_SourcePortRange rule)),
      h_Port_update (keep_or (h_Port rule)),
      h_PortRange_update (keep_or (h_PortRange rule)),
      h_ProcessName_update (keep_or (h_ProcessName rule)),
      h_ProcessPath_update (keep_or (h_ProcessPath rule)),
      h_ProcessPathRegex_update (keep_or (h_ProcessPathRegex rule)),
      h_PackageName_update (keep_or (h_PackageName rule))]"

definition further_updates ::
    "('m, 'a) srs_env \<Rightarrow> bool \<Rightarrow> DefaultHeadlessRule_options \<Rightarrow>
     (DefaultHeadlessRule_options \<Rightarrow> DefaultHeadlessRule_options) list" where
  "further_updates env recover rule =
     [h_PackageNameRegex_update (keep_or (h_PackageNameRegex rule)),
      h_NetworkType_update (keep_or (h_NetworkType rule)),
      h_NetworkIsExpensive_update (\<lambda>old. h_NetworkIsExpensive rule \<or> old),
      h_NetworkIsConstrained_update (\<lambda>old. h_NetworkIsConstrained rule \<or> old),
      h_NetworkInterfaceAddress_update (\<lambda>old.
        if map_nonempty (h_NetworkInterfaceAddress rule) then h_NetworkInterfaceAddress rule else old),
      h_DefaultInterfaceAddress_update (keep_or (h_DefaultInterfaceAddress rule)),
      h_WIFISSID_update (keep_or (h_WIFISSID rule)),
      h_WIFIBSSID_update (keep_or (h_WIFIBSSID rule)),
      set_adguard env recover (length (h_AdGuardDomain rule) > 0)
        (srs_NewAdGuardMatcher env (h_AdGuardDomain rule))]"

definition default_rule_updates ::
    "('m, 'a) srs_env \<Rightarrow> bool \<Rightarrow> u8 \<Rightarrow> DefaultHeadlessRule_options \<Rightarrow>
     (DefaultHeadlessRule_options \<Rightarrow> DefaultHeadlessRule_options) list" where
  "default_rule_updates env recover v rule = basic_updates env recover v rule @ further_updates env recover rule"

lemmas default_rule_updates_defs = default_rule_updates_def basic_updates_def further_updates_def

text \<open>Lists as long as Go slices can be, and valid prefixes.\<close>

definition default_storable :: "DefaultHeadlessRule_options \<Rightarrow> bool" where
  "default_storable rule \<longleftrightarrow>
     list_all strings_ok
       [h_Network rule, h_DomainKeyword rule, h_DomainRegex rule, h_SourcePortRange rule, h_PortRange rule,
        h_ProcessName rule, h_ProcessPath rule, h_ProcessPathRegex rule, h_PackageName rule,
        h_PackageNameRegex rule, h_WIFISSID rule, h_WIFIBSSID rule, h_Domain rule, h_DomainSuffix rule,
        h_AdGuardDomain rule] \<and>
     sized (h_QueryType rule) \<and> sized (h_SourcePort rule) \<and> sized (h_Port rule) \<and> sized (h_NetworkType rule) \<and>
     interface_addresses_ok (entries (h_NetworkInterfaceAddress rule)) \<and>
     sized (h_DefaultInterfaceAddress rule) \<and> list_all plain_prefix (h_DefaultInterfaceAddress rule)"

lemma read_string_items:
  "read_item env recover t ruleItemNetwork rule =
     p_bind (readRuleItemString env) (\<lambda>v. p_return (rule\<lparr>h_Network := v\<rparr>))"
  "read_item env recover t ruleItemDomainKeyword rule =
     p_bind (readRuleItemString env) (\<lambda>v. p_return (rule\<lparr>h_DomainKeyword := v\<rparr>))"
  "read_item env recover t ruleItemDomainRegex rule =
     p_bind (readRuleItemString env) (\<lambda>v. p_return (rule\<lparr>h_DomainRegex := v\<rparr>))"
  "read_item env recover t ruleItemSourcePortRange rule =
     p_bind (readRuleItemString env) (\<lambda>v. p_return (rule\<lparr>h_SourcePortRange := v\<rparr>))"
  "read_item env recover t ruleItemPortRange rule =
     p_bind (readRuleItemString env) (\<lambda>v. p_return (rule\<lparr>h_PortRange := v\<rparr>))"
  "read_item env recover t ruleItemProcessName rule =
     p_bind (readRuleItemString env) (\<lambda>v. p_return (rule\<lparr>h_ProcessName := v\<rparr>))"
  "read_item env recover t ruleItemProcessPath rule =
     p_bind (readRuleItemString env) (\<lambda>v. p_return (rule\<lparr>h_ProcessPath := v\<rparr>))"
  "read_item env recover t ruleItemProcessPathRegex rule =
     p_bind (readRuleItemString env) (\<lambda>v. p_return (rule\<lparr>h_ProcessPathRegex := v\<rparr>))"
  "read_item env recover t ruleItemPackageName rule =
     p_bind (readRuleItemString env) (\<lambda>v. p_return (rule\<lparr>h_PackageName := v\<rparr>))"
  "read_item env recover t ruleItemPackageNameRegex rule =
     p_bind (readRuleItemString env) (\<lambda>v. p_return (rule\<lparr>h_PackageNameRegex := v\<rparr>))"
  "read_item env recover t ruleItemWIFISSID rule =
     p_bind (readRuleItemString env) (\<lambda>v. p_return (rule\<lparr>h_WIFISSID := v\<rparr>))"
  "read_item env recover t ruleItemWIFIBSSID rule =
     p_bind (readRuleItemString env) (\<lambda>v. p_return (rule\<lparr>h_WIFIBSSID := v\<rparr>))"
  by (simp_all add: read_item_def)

lemma read_port_items:
  "read_item env recover t ruleItemSourcePort rule =
     p_bind (p_extern (srs_ReadSlice16 env)) (\<lambda>v. p_return (rule\<lparr>h_SourcePort := v\<rparr>))"
  "read_item env recover t ruleItemPort rule =
     p_bind (p_extern (srs_ReadSlice16 env)) (\<lambda>v. p_return (rule\<lparr>h_Port := v\<rparr>))"
  by (simp_all add: read_item_def)

lemma writes_package_name_regex:
  assumes "srs_env_ok env" "strings_ok v"
  shows "writes_item env recover
      (w_since (length v > 0) ver minVersion msg (writeRuleItemString env ruleItemPackageNameRegex v))
    (h_PackageNameRegex_update (keep_or v))"
  using assms unfolding writeRuleItemString_def strings_ok_def
  by (intro writes_since item_law_item)
    (auto simp: read_string_items keep_or_simps intro!: reads_bind_return reads_strings)

lemma writes_network_type:
  assumes "srs_env_ok env" "sized v"
  shows "writes_item env recover (w_since (length v > 0) ver minVersion msg (writeRuleItemUint8 env ruleItemNetworkType v))
    (h_NetworkType_update (keep_or v))"
  using assms unfolding writeRuleItemUint8_def
  by (intro writes_since item_law_item)
    (auto simp: read_items keep_or_simps intro!: reads_bind_return varbin_reads)

lemma writes_interface_addresses:
  assumes "srs_env_ok env" "interface_addresses_ok (entries m)"
  shows "writes_item env recover (w_since (map_nonempty m) ver minVersion msg
      ([ruleItemNetworkInterfaceAddress] @ write_interface_addresses env (entries m)))
    (h_NetworkInterfaceAddress_update (\<lambda>old. if map_nonempty m then m else old))"
proof -
  have "Some (entries m) = m" if "map_nonempty m" using that by (cases m) (auto simp: map_nonempty_def entries_def)
  then show ?thesis
    using assms
    by (intro writes_since item_law_item)
      (auto simp: read_items intro!: reads_bind_return reads_interface_addresses)
qed

lemma writes_default_addresses:
  assumes "srs_env_ok env" "sized v" "list_all plain_prefix v"
  shows "writes_item env recover (w_since (length v > 0) ver minVersion msg
      ([ruleItemDefaultInterfaceAddress] @ write_prefixes env v))
    (h_DefaultInterfaceAddress_update (keep_or v))"
  using assms
  by (intro writes_since item_law_item)
    (auto simp: read_items keep_or_simps intro!: reads_bind_return reads_prefixes)

lemma law_flags:
  "item_law env recover [ruleItemNetworkIsExpensive] (h_NetworkIsExpensive_update (\<lambda>_. True))"
  "item_law env recover [ruleItemNetworkIsConstrained] (h_NetworkIsConstrained_update (\<lambda>_. True))"
  using item_law_item [of ruleItemNetworkIsExpensive env recover "[]"]
    item_law_item [of ruleItemNetworkIsConstrained env recover "[]"]
  by (auto simp: read_items reads_return)

lemma writes_string_items:
  assumes "srs_env_ok env" "strings_ok v"
  shows
    "writes_item env recover (w_strings env ruleItemNetwork v) (h_Network_update (keep_or v))"
    "writes_item env recover (w_strings env ruleItemDomainKeyword v) (h_DomainKeyword_update (keep_or v))"
    "writes_item env recover (w_strings env ruleItemDomainRegex v) (h_DomainRegex_update (keep_or v))"
    "writes_item env recover (w_strings env ruleItemSourcePortRange v) (h_SourcePortRange_update (keep_or v))"
    "writes_item env recover (w_strings env ruleItemPortRange v) (h_PortRange_update (keep_or v))"
    "writes_item env recover (w_strings env ruleItemProcessName v) (h_ProcessName_update (keep_or v))"
    "writes_item env recover (w_strings env ruleItemProcessPath v) (h_ProcessPath_update (keep_or v))"
    "writes_item env recover (w_strings env ruleItemProcessPathRegex v) (h_ProcessPathRegex_update (keep_or v))"
    "writes_item env recover (w_strings env ruleItemPackageName v) (h_PackageName_update (keep_or v))"
    "writes_item env recover (w_strings env ruleItemWIFISSID v) (h_WIFISSID_update (keep_or v))"
    "writes_item env recover (w_strings env ruleItemWIFIBSSID v) (h_WIFIBSSID_update (keep_or v))"
  using assms
  by (simp_all add: writes_strings [where upd = h_Network_update]
      writes_strings [where upd = h_DomainKeyword_update]
      writes_strings [where upd = h_DomainRegex_update]
      writes_strings [where upd = h_SourcePortRange_update]
      writes_strings [where upd = h_PortRange_update]
      writes_strings [where upd = h_ProcessName_update]
      writes_strings [where upd = h_ProcessPath_update]
      writes_strings [where upd = h_ProcessPathRegex_update]
      writes_strings [where upd = h_PackageName_update]
      writes_strings [where upd = h_WIFISSID_update]
      writes_strings [where upd = h_WIFIBSSID_update]
      read_string_items strings_ok_def)

lemma writes_uint16_items:
  assumes "srs_env_ok env" "sized v"
  shows "writes_item env recover (w_uint16s env ruleItemQueryType v) (h_QueryType_update (keep_or v))"
    "writes_item env recover (w_uint16s env ruleItemSourcePort v) (h_SourcePort_update (keep_or v))"
    "writes_item env recover (w_uint16s env ruleItemPort v) (h_Port_update (keep_or v))"
  using assms
  by (simp_all add: writes_uint16s [where upd = h_QueryType_update] writes_uint16s [where upd = h_SourcePort_update]
      writes_uint16s [where upd = h_Port_update] read_items read_port_items)

lemma writes_flags:
  "writes_item env recover (w_since flag ver minVersion msg [ruleItemNetworkIsExpensive])
     (h_NetworkIsExpensive_update (\<lambda>old. flag \<or> old))"
  "writes_item env recover (w_since flag ver minVersion msg [ruleItemNetworkIsConstrained])
     (h_NetworkIsConstrained_update (\<lambda>old. flag \<or> old))"
  by (rule writes_since; cases flag; simp add: law_flags)+

lemma writes_matchers:
  assumes "srs_env_ok env"
  shows "strings_ok (h_Domain rule) \<Longrightarrow> strings_ok (h_DomainSuffix rule) \<Longrightarrow>
     writes_item env recover (w_if (length (h_Domain rule) > 0 \<or> length (h_DomainSuffix rule) > 0)
        (Inr ([ruleItemDomain] @ srs_Matcher_Write env (srs_NewMatcher env (h_Domain rule) (h_DomainSuffix rule) legacy))))
      (set_domain env recover (has_domain rule) (srs_NewMatcher env (h_Domain rule) (h_DomainSuffix rule) legacy))"
    and "strings_ok lines \<Longrightarrow> writes_item env recover (w_since (length lines > 0) ver minVersion msg
        ([ruleItemAdGuardDomain] @ srs_AdGuard_Write env (srs_NewAdGuardMatcher env lines)))
      (set_adguard env recover (length lines > 0) (srs_NewAdGuardMatcher env lines))"
    and "writes_item env recover (w_if (length cidrs > 0)
        (res_cause msg' (writeRuleItemCIDR env ruleItemSourceIPCIDR cidrs)))
      (set_source_cidr env recover (length cidrs > 0) (cidr_ranges env cidrs))"
    and "writes_item env recover (w_if (length cidrs > 0)
        (res_cause msg' (writeRuleItemCIDR env ruleItemIPCIDR cidrs)))
      (set_cidr env recover (length cidrs > 0) (cidr_ranges env cidrs))"
  using law_domain [OF assms] law_adguard [OF assms] law_source_cidr [OF assms] law_cidr [OF assms]
  by (auto intro!: writes_if writes_since simp: has_domain_def simp del: append_Cons append_Nil res_cause_Inr_iff)
    (auto simp: set_defs)

lemma default_rule_items_written:
  assumes "srs_env_ok env" "default_storable rule"
  shows "list_all2 (writes_item env recover) (default_rule_items env rule v) (default_rule_updates env recover v rule)"
  unfolding default_rule_items_def default_rule_updates_def
proof (rule list_all2_appendI)
  note ok = assms [unfolded default_storable_def list.pred_inject]
  show "list_all2 (writes_item env recover) (basic_items env rule v) (basic_updates env recover v rule)"
    unfolding basic_items_def basic_updates_def list.rel_inject using ok
    by (intro conjI TrueI writes_matchers writes_string_items writes_uint16_items) simp_all
  show "list_all2 (writes_item env recover) (further_items env rule v) (further_updates env recover rule)"
    unfolding further_items_def further_updates_def list.rel_inject using ok
    by (intro conjI TrueI writes_matchers writes_string_items writes_flags writes_package_name_regex
        writes_network_type writes_interface_addresses writes_default_addresses) simp_all
qed

text \<open>The options a written default rule comes back as.\<close>

definition stored_default ::
    "('m, 'a) srs_env \<Rightarrow> bool \<Rightarrow> u8 \<Rightarrow> DefaultHeadlessRule_options \<Rightarrow> DefaultHeadlessRule_options" where
  "stored_default env recover v rule =
     (let m = srs_NewMatcher env (h_Domain rule) (h_DomainSuffix rule) (v = 1);
          g = srs_NewAdGuardMatcher env (h_AdGuardDomain rule);
          hasSource = h_SourceIPCIDR rule \<noteq> []; source = cidr_ranges env (h_SourceIPCIDR rule);
          hasCIDR = h_IPCIDR rule \<noteq> []; cidr = cidr_ranges env (h_IPCIDR rule);
          hasAdGuard = h_AdGuardDomain rule \<noteq> []
      in rule\<lparr>
        h_DomainMatcher := if has_domain rule then Some (srs_Matcher_Match env m) else None,
        h_Domain := if has_domain rule \<and> recover then fst (srs_Matcher_Dump env m) else [],
        h_DomainSuffix := if has_domain rule \<and> recover then snd (srs_Matcher_Dump env m) else [],
        h_SourceIPSet := if hasSource then Some (srs_IPSet_Contains env source) else None,
        h_SourceIPCIDR := if hasSource \<and> recover then set_strings env source else [],
        h_IPSet := if hasCIDR then Some (srs_IPSet_Contains env cidr) else None,
        h_IPCIDR := if hasCIDR \<and> recover then set_strings env cidr else [],
        h_NetworkInterfaceAddress :=
          if map_nonempty (h_NetworkInterfaceAddress rule) then h_NetworkInterfaceAddress rule else None,
        h_AdGuardDomainMatcher := if hasAdGuard then Some (srs_AdGuard_Match env g) else None,
        h_AdGuardDomain := if hasAdGuard \<and> recover then srs_AdGuard_Dump env g else []\<rparr>)"

lemma default_rule_updates_zero:
  "(fold (\<lambda>f. f) (default_rule_updates env recover v rule) headless_zero)\<lparr>h_Invert := h_Invert rule\<rparr> =
     stored_default env recover v rule"
  by (cases rule) (simp add: default_rule_updates_defs stored_default_def headless_zero_def set_defs
      keep_or_simps Let_def)

lemma reads_default:
  assumes "srs_env_ok env" "default_storable rule" "writeDefaultRule env rule v = Inr bs"
  obtains cs where "bs = [0] @ cs" "reads (readDefaultRule env recover) cs (stored_default env recover v rule)"
proof -
  have seq: "w_seq (ws @ [Inr b, Inr c]) = Inr x \<longleftrightarrow> (\<exists>y. w_seq ws = Inr y \<and> x = y @ b @ c)" for ws b c x
    by (induction ws arbitrary: x) (auto simp: res_bind_Inr_iff)
  from assms(3) obtain ds where ds: "w_seq (default_rule_items env rule v) = Inr ds"
    and bs: "bs = [0] @ ds @ [ruleItemFinal] @ binary_Write_bool (h_Invert rule)"
    unfolding writeDefaultRule_def by (auto simp: res_bind_Inr_iff seq)
  have law: "item_law env recover ds (\<lambda>r. fold (\<lambda>f. f) (default_rule_updates env recover v rule) r)"
    by (rule item_law_seq [OF default_rule_items_written [OF assms(1,2)] ds])
  have "reads (readDefaultRule env recover) (ds @ [ruleItemFinal] @ binary_Write_bool (h_Invert rule))
      (stored_default env recover v rule)"
    unfolding reads_def
  proof (intro allI)
    fix rest e
    define r where "r = fold (\<lambda>f. f) (default_rule_updates env recover v rule) headless_zero"
    obtain t where "readDefaultRule env recover ((ds @ [ruleItemFinal] @ binary_Write_bool (h_Invert rule)) @ rest, e) =
        readDefaultRule_loop env recover t r ([ruleItemFinal] @ binary_Write_bool (h_Invert rule) @ rest, e)"
      using law unfolding item_law_def readDefaultRule_def r_def append_assoc by blast
    also have "\<dots> = p_bind binary_Read_bool (\<lambda>v. p_return (r\<lparr>h_Invert := v\<rparr>)) (binary_Write_bool (h_Invert rule) @ rest, e)"
      by (subst readDefaultRule_loop.simps) (simp add: ReadByte_def)
    also have "\<dots> = Inr (r\<lparr>h_Invert := h_Invert rule\<rparr>, rest, e)"
      by (rule readsD [OF reads_bind_return [OF reads_Read_bool]]) simp
    finally show "readDefaultRule env recover ((ds @ [ruleItemFinal] @ binary_Write_bool (h_Invert rule)) @ rest, e) =
        Inr (stored_default env recover v rule, rest, e)"
      unfolding r_def default_rule_updates_zero .
  qed
  then show ?thesis using that bs by blast
qed

subsection \<open>Rules\<close>

fun stored_rule :: "('m, 'a) srs_env \<Rightarrow> bool \<Rightarrow> u8 \<Rightarrow> HeadlessRule_options \<Rightarrow> HeadlessRule_options" where
  "stored_rule env recover v (HeadlessRule_options type' default' mode rules inv') =
     (if type' = ''default'' then HeadlessRule_options ''default'' (stored_default env recover v default') [] [] False
      else HeadlessRule_options ''logical'' headless_zero mode (map (stored_rule env recover v) rules) inv')"

fun storable :: "HeadlessRule_options \<Rightarrow> bool" where
  "storable (HeadlessRule_options type' default' mode rules inv') =
     (if type' = ''default'' then default_storable default' else sized rules \<and> list_all storable rules)"

text \<open>The number of logical rules around the innermost rule.\<close>

fun nesting :: "HeadlessRule_options \<Rightarrow> nat" where
  "nesting (HeadlessRule_options type' default' mode rules inv') =
     (if type' = ''default'' then 0 else fold max (map (\<lambda>r. Suc (nesting r)) rules) 0)"

lemma fold_max_less: "fold max ns m < (k :: nat) \<longleftrightarrow> m < k \<and> (\<forall>n \<in> set ns. n < k)"
  by (induction ns arbitrary: m) auto

text \<open>A parser that fails on every input that begins with some bytes.\<close>

definition fails :: "'b parser \<Rightarrow> bytes \<Rightarrow> bool" where
  "fails p bs \<longleftrightarrow> (\<forall>rest e. \<exists>err. p (bs @ rest, e) = Inl err)"

lemma fails_first: "fails p bs \<Longrightarrow> fails (p_bind p f) (bs @ cs)"
  unfolding fails_def p_bind_def by (metis append_assoc sum.simps(5))

lemma fails_second: "reads p bs a \<Longrightarrow> fails (f a) cs \<Longrightarrow> fails (p_bind p f) (bs @ cs)"
  by (auto simp: reads_def fails_def p_bind_def)

lemma fails_cause: "fails p bs \<Longrightarrow> fails (p_cause msg p) bs"
  unfolding fails_def p_cause_def by (metis res_cause_simps(1))

lemma fails_times:
  assumes "\<And>x j. x \<in> set xs \<Longrightarrow> ok x \<Longrightarrow> reads (p j) (w x) (g x)"
    and "\<And>x j. x \<in> set xs \<Longrightarrow> \<not> ok x \<Longrightarrow> fails (p j) (w x)"
    and "\<not> list_all ok xs"
  shows "fails (p_times (length xs) i p) (concat (map w xs))"
  using assms
proof (induction xs arbitrary: i)
  case (Cons x xs)
  show ?case
  proof (cases "ok x")
    case True
    have "fails (p_times (length xs) (Suc i) p) (concat (map w xs))"
      using Cons True by auto
    then have "fails (p_bind (p_times (length xs) (Suc i) p) (\<lambda>ys. p_return (g x # ys))) (concat (map w xs))"
      using fails_first [where cs = "[]"] by fastforce
    moreover have "reads (p i) (w x) (g x)" using Cons.prems(1) True by simp
    ultimately show ?thesis using fails_second by fastforce
  next
    case False
    then show ?thesis using Cons.prems(2) [of x i] fails_first by fastforce
  qed
qed simp

lemma w_seq_map:
  assumes "w_seq (map f xs) = Inr ds"
  shows "\<And>x. x \<in> set xs \<Longrightarrow> f x = Inr (projr (f x))" and "ds = concat (map (\<lambda>x. projr (f x)) xs)"
proof -
  obtain bss where bss: "map f xs = map Inr bss" "ds = concat bss" using assms by (auto simp: w_seq_Inr_iff)
  have "map projr (map f xs) = bss" unfolding bss(1) by (simp add: comp_def)
  then have "map (\<lambda>x. projr (f x)) xs = bss" by (simp add: comp_def)
  then show "ds = concat (map (\<lambda>x. projr (f x)) xs)" using bss by simp
  show "f x = Inr (projr (f x))" if "x \<in> set xs" for x
    using bss(1) that by (metis (no_types, lifting) imageE image_eqI list.set_map sum.sel(2))
qed

lemma writeLogicalRule_Inr:
  assumes "writeLogicalRule env mode inv' n subRules = Inr bs"
  obtains m ds where "mode = ''and'' \<and> m = 0 \<or> mode = ''or'' \<and> m = 1" "subRules = Inr ds"
    "bs = [1] @ [m] @ srs_WriteUvarint env n @ ds @ binary_Write_bool inv'"
proof -
  from assms obtain c ds where c: "write_mode mode = Inr c" and *: "subRules = Inr ds"
    "bs = [1] @ c @ srs_WriteUvarint env n @ ds @ binary_Write_bool inv'"
    unfolding writeLogicalRule_def by (auto simp: res_bind_Inr_iff)
  from c have "mode = ''and'' \<and> c = [0] \<or> mode = ''or'' \<and> c = [1]"
    by (auto simp: write_mode_def split: if_splits)
  then show ?thesis using that * by blast
qed

lemma reads_mode:
  "mode = ''and'' \<and> m = 0 \<or> mode = ''or'' \<and> m = 1 \<Longrightarrow>
     reads (if m = 0 then p_return ''and'' else if m = 1 then p_return ''or''
            else p_fail (ENew (''unknown logical mode: '' @ strconv_FormatUint (unat (m :: u8))))) [] mode"
  by (auto simp: reads_return)

lemma readLogicalRule_outcome:
  assumes "srs_env_ok env" "sized rules" "mode = ''and'' \<and> m = 0 \<or> mode = ''or'' \<and> m = 1"
    and "\<And>r. r \<in> set rules \<Longrightarrow> ok r \<Longrightarrow> reads p (w r) (g r)" "\<And>r. r \<in> set rules \<Longrightarrow> \<not> ok r \<Longrightarrow> fails p (w r)"
    and bs: "bs = [m] @ srs_WriteUvarint env (length rules) @ concat (map w rules) @ binary_Write_bool inv'"
  shows "if list_all ok rules
    then reads (readLogicalRule p) bs (HeadlessRule_options ''logical'' headless_zero mode (map g rules) inv')
    else fails (readLogicalRule p) bs"
proof -
  let ?loop = "p_times (length rules) 0 (\<lambda>i. p_cause (''read logical rule ['' @ strconv_FormatUint i @ '']'') p)"
  have bs': "bs = [m] @ [] @ srs_WriteUvarint env (length rules) @ concat (map w rules) @ binary_Write_bool inv'"
    using bs by simp
  show ?thesis
  proof (cases "list_all ok rules")
    case True
    then have "reads ?loop (concat (map w rules)) (map g rules)"
      using assms(4) by (intro reads_times reads_cause) (auto simp: list_all_iff)
    then show ?thesis
      using True unfolding readLogicalRule_def bs'
      by (auto simp del: append_Cons append_Nil intro!: reads_bind [OF reads_ReadByte] reads_bind [OF reads_mode [OF assms(3)]]
          reads_bind [OF sized_reads [OF assms(1,2)]] reads_bind reads_bind_return [OF reads_Read_bool])
  next
    case False
    then have "fails ?loop (concat (map w rules))"
      using assms(4,5) by (intro fails_times [of rules ok]) (auto intro: reads_cause fails_cause)
    then have "fails (p_bind ?loop (\<lambda>rules. p_bind binary_Read_bool (\<lambda>inv'.
        p_return (HeadlessRule_options ''logical'' headless_zero mode rules inv'))))
        (concat (map w rules) @ binary_Write_bool inv')" by (rule fails_first)
    then show ?thesis
      using False unfolding readLogicalRule_def bs'
      by (auto simp del: append_Cons append_Nil intro!: fails_second [OF reads_ReadByte]
          fails_second [OF reads_mode [OF assms(3)]] fails_second [OF sized_reads [OF assms(1,2)]])
  qed
qed

lemma readRule_outcome:
  assumes "srs_env_ok env"
  shows "writeRule env v r = Inr bs \<Longrightarrow> storable r \<Longrightarrow>
    (if nesting r < levels then reads (readRule_levels env recover levels) bs (stored_rule env recover v r)
     else fails (readRule_levels env recover levels) bs)"
proof (induction r arbitrary: levels bs rule: storable.induct)
  case (1 type' default' mode rules inv')
  show ?case
  proof (cases levels)
    case 0
    then show ?thesis by (simp add: fails_def p_fail_def)
  next
    case (Suc k)
    show ?thesis
    proof (cases "type' = ''default''")
      case True
      with 1(2,3) obtain cs where "bs = [0] @ cs"
        "reads (readDefaultRule env recover) cs (stored_default env recover v default')"
        using reads_default [OF assms] by (metis storable.simps writeRule.simps)
      then show ?thesis using True Suc
        by (auto simp del: append_Cons append_Nil intro!: reads_bind [OF reads_ReadByte] reads_bind_return)
    next
      case False
      from 1(2) False have "type' = ''logical''"
        and w: "writeLogicalRule env mode inv' (length rules) (w_seq (map (writeRule env v) rules)) = Inr bs"
        by (auto split: if_splits)
      from w obtain m ds where m: "mode = ''and'' \<and> m = 0 \<or> mode = ''or'' \<and> m = 1"
        and ds: "w_seq (map (writeRule env v) rules) = Inr ds"
        and bs: "bs = [1] @ [m] @ srs_WriteUvarint env (length rules) @ ds @ binary_Write_bool inv'"
        by (rule writeLogicalRule_Inr)
      note sub = w_seq_map [OF ds]
      have st: "sized rules" "\<And>r. r \<in> set rules \<Longrightarrow> storable r"
        using 1(3) False by (auto simp: list_all_iff)
      note IH = 1(1) [OF False _ sub(1) st(2), where levels = k]
      have "if list_all (\<lambda>r. nesting r < k) rules
        then reads (readLogicalRule (readRule_levels env recover k))
          ([m] @ srs_WriteUvarint env (length rules) @ ds @ binary_Write_bool inv')
          (HeadlessRule_options ''logical'' headless_zero mode (map (stored_rule env recover v) rules) inv')
        else fails (readLogicalRule (readRule_levels env recover k))
          ([m] @ srs_WriteUvarint env (length rules) @ ds @ binary_Write_bool inv')"
        unfolding sub(2) using IH
        by (intro readLogicalRule_outcome [OF assms st(1) m]) auto
      moreover have "nesting (HeadlessRule_options type' default' mode rules inv') < Suc k \<longleftrightarrow>
          list_all (\<lambda>r. nesting r < k) rules"
        using False by (auto simp: fold_max_less list_all_iff)
      ultimately show ?thesis
        using False unfolding bs Suc
        by (auto simp del: append_Cons append_Nil nesting.simps intro!: reads_bind [OF reads_ReadByte]
            fails_second [OF reads_ReadByte] split: if_splits)
    qed
  qed
qed

subsection \<open>Files\<close>

lemma srs_Write_Inr:
  assumes "srs_Write env rules v = Inr bs"
  shows "\<And>r. r \<in> set rules \<Longrightarrow> writeRule env v r = Inr (projr (writeRule env v r))"
    and "bs = [0x53, 0x52, 0x53] @ [v] @ srs_compress env
      (srs_WriteUvarint env (length rules) @ concat (map (\<lambda>r. projr (writeRule env v r)) rules))"
proof -
  from assms obtain ds where ds: "w_seq (map (writeRule env v) rules) = Inr ds"
    and "bs = [0x53, 0x52, 0x53] @ [v] @ srs_compress env (srs_WriteUvarint env (length rules) @ ds)"
    by (auto simp: srs_Write_def res_bind_Inr_iff)
  then show "\<And>r. r \<in> set rules \<Longrightarrow> writeRule env v r = Inr (projr (writeRule env v r))"
    "bs = [0x53, 0x52, 0x53] @ [v] @ srs_compress env
      (srs_WriteUvarint env (length rules) @ concat (map (\<lambda>r. projr (writeRule env v r)) rules))"
    using w_seq_map [OF ds] by auto
qed

lemma srs_Read_written:
  assumes "srs_env_ok env" "v \<le> 5"
    and "bs = [0x53, 0x52, 0x53] @ [v] @ srs_compress env body"
  obtains e' where "srs_Read env recover (bs @ rest, e) =
    res_bind (p_bind binary_ReadUvarint (\<lambda>n. p_times n 0 (\<lambda>i.
        p_cause (''read rule['' @ strconv_FormatUint i @ '']'') (readRule env recover 0))) (body, e'))
      (\<lambda>(rules, _). Inr (v, rules))"
proof -
  obtain e' where "srs_decompress env (srs_compress env body @ rest, e) = Inr (body, e')"
    using assms(1) unfolding srs_env_ok_def by blast
  moreover have "\<not> 5 < v" using assms(2) by (simp add: not_less)
  ultimately have "srs_Read env recover (bs @ rest, e) =
    res_bind (p_bind binary_ReadUvarint (\<lambda>n. p_times n 0 (\<lambda>i.
        p_cause (''read rule['' @ strconv_FormatUint i @ '']'') (readRule env recover 0))) (body, e'))
      (\<lambda>(rules, _). Inr (v, rules))"
    unfolding srs_Read_def assms(3)
    by (simp add: p_bind_def io_ReadFull_def ReadByte_def p_return_def)
  then show ?thesis by (rule that)
qed

text \<open>What reading a written file gives, whatever the nesting of its rules.\<close>

lemma srs_file_outcome:
  assumes "srs_env_ok env" "v \<le> 5" "sized rules" "list_all storable rules" "srs_Write env rules v = Inr bs"
  shows "if list_all (\<lambda>r. nesting r \<le> 100) rules
    then srs_Read env recover (bs @ rest, e) = Inr (v, map (stored_rule env recover v) rules)
    else \<exists>err. srs_Read env recover (bs @ rest, e) = Inl err"
proof -
  let ?w = "\<lambda>r. projr (writeRule env v r)" and ?p = "\<lambda>i. p_cause (''read rule['' @ strconv_FormatUint i @ '']'') (readRule env recover 0)"
  let ?body = "srs_WriteUvarint env (length rules) @ concat (map ?w rules)"
  obtain e' where R: "srs_Read env recover (bs @ rest, e) =
      res_bind (p_bind binary_ReadUvarint (\<lambda>n. p_times n 0 ?p) (?body, e')) (\<lambda>(rules, _). Inr (v, rules))"
    by (rule srs_Read_written [OF assms(1,2) srs_Write_Inr(2) [OF assms(5)]])
  have out: "if nesting r \<le> 100 then reads (readRule env recover 0) (?w r) (stored_rule env recover v r)
      else fails (readRule env recover 0) (?w r)" if "r \<in> set rules" for r
    using readRule_outcome [OF assms(1) srs_Write_Inr(1) [OF assms(5) that], where levels = 101] assms(4) that
    by (simp add: readRule_def list_all_iff less_Suc_eq_le)
  note n = sized_reads [OF assms(1,3)]
  show ?thesis
  proof (cases "list_all (\<lambda>r. nesting r \<le> 100) rules")
    case True
    have "reads (p_bind binary_ReadUvarint (\<lambda>n. p_times n 0 ?p)) ?body (map (stored_rule env recover v) rules)"
      using out True by (intro reads_bind [OF n] reads_times reads_cause) (auto simp: list_all_iff)
    then show ?thesis using True R readsD [where rest = "[]"] by fastforce
  next
    case False
    have "fails (p_bind binary_ReadUvarint (\<lambda>n. p_times n 0 ?p)) ?body"
      using out False
      by (intro fails_second [OF n] fails_times [of rules "\<lambda>r. nesting r \<le> 100" _ _ "stored_rule env recover v"]) (auto intro: reads_cause fails_cause)
    then obtain err where "p_bind binary_ReadUvarint (\<lambda>n. p_times n 0 ?p) (?body, e') = Inl err"
      unfolding fails_def by (metis append_Nil2)
    then show ?thesis using False R by simp
  qed
qed

end
