(* ===== verification/CompiledRules.thy ===== *)
theory CompiledRules
  imports SrsLaws
begin

text \<open>
  Compiled rule sets match what their sources match. A rule built from the options read back from a
  binary rule set differs from the rule built from the source options only in the descriptions of its
  domain and IP CIDR items; \<open>binary_rule\<close> is that difference, and matching does not see it.
  \<open>srs_agrees\<close> relates the matchers and IP sets of the codec to those the rule engine builds from
  source options. \<open>source_rule\<close> are the options a JSON source yields: without compiled matchers, and
  with a network interface map that is absent or not empty.
\<close>

subsection \<open>Descriptions do not matter\<close>

definition binary_item :: "RuleItem \<Rightarrow> RuleItem" where
  "binary_item item =
     (case item of
        DomainItem m _ \<Rightarrow> NewRawDomainItem m
      | IPCIDRItem s isSource _ \<Rightarrow> NewRawIPCIDRItem isSource s
      | _ \<Rightarrow> item)"

definition binary_ref :: "item_ref \<Rightarrow> item_ref" where
  "binary_ref ref = (case ref of ItemRef item \<Rightarrow> ItemRef (binary_item item) | RuleSetItemRef \<Rightarrow> RuleSetItemRef)"

definition binary_default :: "abstractDefaultRule \<Rightarrow> abstractDefaultRule" where
  "binary_default r =
     r\<lparr>items := map binary_item (items r), sourceAddressItems := map binary_item (sourceAddressItems r),
       sourcePortItems := map binary_item (sourcePortItems r),
       destinationAddressItems := map binary_item (destinationAddressItems r),
       destinationIPCIDRItems := map binary_item (destinationIPCIDRItems r),
       destinationPortItems := map binary_item (destinationPortItems r), allItems := map binary_ref (allItems r)\<rparr>"

fun binary_rule :: "Rule \<Rightarrow> Rule" where
  "binary_rule (DefaultHeadlessRule r) = DefaultHeadlessRule (binary_default r)"
| "binary_rule (LogicalHeadlessRule rules mode inv') = LogicalHeadlessRule (map binary_rule rules) mode inv'"
| "binary_rule r = r"

lemma item_Match_binary [simp]: "item_Match env (binary_item item) = item_Match env item"
  by (cases item) (auto simp: binary_item_def NewRawDomainItem_def NewRawIPCIDRItem_def fun_eq_iff)

lemma matchAnyItem_binary [simp]: "matchAnyItem env (map binary_item its) md = matchAnyItem env its md"
  by (simp add: matchAnyItem_def list_ex_iff)

lemma binary_default_simps [simp]:
  "ruleSetItem (binary_default r) = ruleSetItem r" "invert (binary_default r) = invert r"
  "items (binary_default r) = map binary_item (items r)" "(allItems (binary_default r) = []) = (allItems r = [])"
  by (simp_all add: binary_default_def)

lemma evaluateGroups_binary [simp]: "evaluateGroups env (binary_default r) md = evaluateGroups env r md"
  by (simp add: evaluateGroups_def binary_default_def destinationIPCIDRMatchesSource_def
      destinationIPCIDRMatchesDestination_def)

lemma default_Match_binary [simp]:
  "abstractDefaultRule_Match env sets (binary_default r) md = abstractDefaultRule_Match env sets r md"
proof -
  have "matchInner env sets (binary_default r) md = matchInner env sets r md"
    by (simp add: matchInner_def list_ex_iff cong: if_cong)
  then show ?thesis by (simp add: abstractDefaultRule_Match_def)
qed

lemma rule_Match_binary: "rule_Match env sets (binary_rule r) md = rule_Match env sets r md"
proof (induction r arbitrary: md rule: binary_rule.induct)
  case (2 rules mode inv')
  then have "map (\<lambda>rule md. rule_Match env sets rule md) (map binary_rule rules) =
      map (\<lambda>rule md. rule_Match env sets rule md) rules" by auto
  then show ?case by (simp only: binary_rule.simps rule_Match.simps)
qed auto

subsection \<open>Building from stored options\<close>

definition srs_agrees :: "('m, 'a) srs_env \<Rightarrow> u8 \<Rightarrow> bool" where
  "srs_agrees env v \<longleftrightarrow>
     (\<forall>d s. srs_Matcher_Match env (srs_NewMatcher env d s (v = 1)) = env_NewMatcher (srs_rules env) d s) \<and>
     (\<forall>g. srs_AdGuard_Match env (srs_NewAdGuardMatcher env g) = env_NewAdGuardMatcher (srs_rules env) g) \<and>
     (\<forall>ps rr. srs_builder_IPSet env ps = Inr rr \<longrightarrow> env_IPSet (srs_rules env) ps = Inr (srs_IPSet_Contains env rr))"

definition source_default :: "DefaultHeadlessRule_options \<Rightarrow> bool" where
  "source_default r \<longleftrightarrow> h_DomainMatcher r = None \<and> h_SourceIPSet r = None \<and> h_IPSet r = None \<and>
     h_AdGuardDomainMatcher r = None \<and> h_NetworkInterfaceAddress r \<noteq> Some []"

fun source_rule :: "HeadlessRule_options \<Rightarrow> bool" where
  "source_rule (HeadlessRule_options type' default' mode rules inv') \<longleftrightarrow>
     source_default default' \<and> list_all source_rule rules"

text \<open>\<open>builds_binary s s'\<close>: where the step \<open>s\<close> succeeds, \<open>s'\<close> does the same up to descriptions.\<close>

definition builds_binary :: "build_step \<Rightarrow> build_step \<Rightarrow> bool" where
  "builds_binary s s' \<longleftrightarrow> (\<forall>r r'. s r = Inr r' \<longrightarrow> s' (binary_default r) = Inr (binary_default r'))"

lemma builds_binary_run:
  "list_all2 builds_binary ss ss' \<Longrightarrow> run_steps ss r = Inr r' \<Longrightarrow>
     run_steps ss' (binary_default r) = Inr (binary_default r')"
  by (induction arbitrary: r rule: list_all2_induct) (auto simp: res_bind_Inr_iff builds_binary_def)

definition adds_binary :: "adder \<Rightarrow> bool" where
  "adds_binary add \<longleftrightarrow> (\<forall>item r. add (binary_item item) (binary_default r) = binary_default (add item r))"

lemma adders_binary [simp]:
  "adds_binary to_items" "adds_binary to_sourceAddress" "adds_binary to_sourcePort"
  "adds_binary to_destinationAddress" "adds_binary to_destinationIPCIDR" "adds_binary to_destinationPort"
  by (auto simp: adds_binary_def adder_defs binary_default_def binary_ref_def)

lemma builds_binary_result:
  assumes "adds_binary add" "\<And>it. item = Inr it \<Longrightarrow> cond \<Longrightarrow> item' = Inr (binary_item it)"
  shows "builds_binary (step_result cond add item) (step_result cond add item')"
  using assms by (auto simp: builds_binary_def step_result_def res_bind_Inr_iff adds_binary_def)

lemma builds_binary_same:
  assumes "adds_binary add" "\<And>it. item = Inr it \<Longrightarrow> cond \<Longrightarrow> binary_item it = it"
  shows "builds_binary (step_result cond add item) (step_result cond add item)"
  using assms by (intro builds_binary_result) auto

lemma builds_binary_Inr: "builds_binary Inr Inr"
  by (auto simp: builds_binary_def)

lemma cidr_same:
  assumes "parse_cidrs env i cidrs = Inr ps"
  shows "res_mapM (parse_cidr (srs_rules env)) cidrs = Inr ps"
  using assms
proof (induction cidrs arbitrary: i ps)
  case (Cons c cs)
  obtain q qs where "parse_cidr (srs_rules env) c = Inr q" "ps = q # qs" "parse_cidrs env (Suc i) cs = Inr qs"
    using Cons.prems by (auto simp: parse_cidr_def res_bind_Inr_iff split: sum.splits)
  then show ?case using Cons.IH by simp
qed simp

lemma NewIPCIDRItem_ranges:
  assumes "srs_agrees env v" "NewIPCIDRItem (srs_rules env) isSource cidrs = Inr it" "cidr_IPSet env cidrs = Inr rr"
  shows "NewRawIPCIDRItem isSource (srs_IPSet_Contains env rr) = binary_item it"
proof -
  from assms(3) obtain ps where ps: "parse_cidrs env 0 cidrs = Inr ps" "srs_builder_IPSet env ps = Inr rr"
    by (auto simp: cidr_IPSet_def res_bind_Inr_iff)
  from ps(2) have "env_IPSet (srs_rules env) ps = Inr (srs_IPSet_Contains env rr)"
    using assms(1) unfolding srs_agrees_def by blast
  then show ?thesis
    using assms(2) cidr_same [OF ps(1)] by (auto simp: NewIPCIDRItem_def binary_item_def)
qed

lemma stored_fields:
  "h_Domain (stored_default env False v r) = []" "h_DomainSuffix (stored_default env False v r) = []"
  "h_DomainMatcher (stored_default env False v r) = (if has_domain r
     then Some (srs_Matcher_Match env (srs_NewMatcher env (h_Domain r) (h_DomainSuffix r) (v = 1))) else None)"
  "h_SourceIPCIDR (stored_default env False v r) = []"
  "h_SourceIPSet (stored_default env False v r) = (if h_SourceIPCIDR r \<noteq> []
     then Some (srs_IPSet_Contains env (cidr_ranges env (h_SourceIPCIDR r))) else None)"
  "h_IPCIDR (stored_default env False v r) = []"
  "h_IPSet (stored_default env False v r) = (if h_IPCIDR r \<noteq> []
     then Some (srs_IPSet_Contains env (cidr_ranges env (h_IPCIDR r))) else None)"
  "h_AdGuardDomain (stored_default env False v r) = []"
  "h_AdGuardDomainMatcher (stored_default env False v r) = (if h_AdGuardDomain r \<noteq> []
     then Some (srs_AdGuard_Match env (srs_NewAdGuardMatcher env (h_AdGuardDomain r))) else None)"
  "h_NetworkInterfaceAddress (stored_default env False v r) =
     (if map_nonempty (h_NetworkInterfaceAddress r) then h_NetworkInterfaceAddress r else None)"
  by (simp_all add: stored_default_def Let_def)

lemma stored_others:
  "h_QueryType (stored_default env recover v r) = h_QueryType r" "h_Network (stored_default env recover v r) = h_Network r"
  "h_DomainKeyword (stored_default env recover v r) = h_DomainKeyword r"
  "h_DomainRegex (stored_default env recover v r) = h_DomainRegex r"
  "h_SourcePort (stored_default env recover v r) = h_SourcePort r"
  "h_SourcePortRange (stored_default env recover v r) = h_SourcePortRange r"
  "h_Port (stored_default env recover v r) = h_Port r" "h_PortRange (stored_default env recover v r) = h_PortRange r"
  "h_ProcessName (stored_default env recover v r) = h_ProcessName r"
  "h_ProcessPath (stored_default env recover v r) = h_ProcessPath r"
  "h_ProcessPathRegex (stored_default env recover v r) = h_ProcessPathRegex r"
  "h_PackageName (stored_default env recover v r) = h_PackageName r"
  "h_PackageNameRegex (stored_default env recover v r) = h_PackageNameRegex r"
  "h_NetworkType (stored_default env recover v r) = h_NetworkType r"
  "h_NetworkIsExpensive (stored_default env recover v r) = h_NetworkIsExpensive r"
  "h_NetworkIsConstrained (stored_default env recover v r) = h_NetworkIsConstrained r"
  "h_WIFISSID (stored_default env recover v r) = h_WIFISSID r"
  "h_WIFIBSSID (stored_default env recover v r) = h_WIFIBSSID r"
  "h_DefaultInterfaceAddress (stored_default env recover v r) = h_DefaultInterfaceAddress r"
  "h_Invert (stored_default env recover v r) = h_Invert r"
  by (simp_all add: stored_default_def Let_def)

lemma domain_binary:
  assumes "srs_agrees env v" "source_default r"
  shows "builds_binary (domain_steps (srs_rules env) r) (domain_steps (srs_rules env) (stored_default env False v r))"
proof (cases "has_domain r")
  case True
  have "builds_binary (step_result True to_destinationAddress (NewDomainItem (srs_rules env) (h_Domain r) (h_DomainSuffix r)))
      (step_result True to_destinationAddress
        (Inr (NewRawDomainItem (srs_Matcher_Match env (srs_NewMatcher env (h_Domain r) (h_DomainSuffix r) (v = 1))))))"
    using assms(1)
    by (intro builds_binary_result)
      (auto simp: srs_agrees_def NewDomainItem_def binary_item_def Let_def split: if_splits)
  then show ?thesis using True by (auto simp: domain_steps_def stored_fields has_domain_def step_def)
next
  case False
  then show ?thesis using assms(2)
    by (auto simp: domain_steps_def stored_fields has_domain_def source_default_def builds_binary_Inr)
qed

lemma cidr_item_binary:
  assumes "srs_agrees env v" "adds_binary add" "cidr_IPSet env cidrs = Inr rr"
  shows "builds_binary (step_result True add (res_cause msg (NewIPCIDRItem (srs_rules env) isSource cidrs)))
    (step True add (NewRawIPCIDRItem isSource (srs_IPSet_Contains env (cidr_ranges env cidrs))))"
  unfolding step_def using assms NewIPCIDRItem_ranges [OF assms(1) _ assms(3), of isSource]
  by (intro builds_binary_result) (auto simp: cidr_ranges_def)

text \<open>Writing a rule has parsed its CIDR lists.\<close>

definition cidrs_parsed :: "('m, 'a) srs_env \<Rightarrow> DefaultHeadlessRule_options \<Rightarrow> bool" where
  "cidrs_parsed env r \<longleftrightarrow>
     (h_SourceIPCIDR r \<noteq> [] \<longrightarrow> (\<exists>rr. cidr_IPSet env (h_SourceIPCIDR r) = Inr rr)) \<and>
     (h_IPCIDR r \<noteq> [] \<longrightarrow> (\<exists>rr. cidr_IPSet env (h_IPCIDR r) = Inr rr))"

lemma source_cidr_binary:
  assumes "srs_agrees env v" "source_default r" "cidrs_parsed env r"
  shows "builds_binary (source_cidr_steps (srs_rules env) r) (source_cidr_steps (srs_rules env) (stored_default env False v r))"
  using assms cidr_item_binary [OF assms(1), of to_sourceAddress "h_SourceIPCIDR r"]
  by (cases "h_SourceIPCIDR r = []")
    (auto simp: source_cidr_steps_def stored_fields source_default_def builds_binary_Inr cidrs_parsed_def)

lemma cidr_binary:
  assumes "srs_agrees env v" "source_default r" "cidrs_parsed env r"
  shows "builds_binary (cidr_steps (srs_rules env) r) (cidr_steps (srs_rules env) (stored_default env False v r))"
  using assms cidr_item_binary [OF assms(1), of to_destinationIPCIDR "h_IPCIDR r"]
  by (cases "h_IPCIDR r = []")
    (auto simp: cidr_steps_def stored_fields source_default_def builds_binary_Inr cidrs_parsed_def)

lemma adguard_binary:
  assumes "srs_agrees env v" "source_default r"
  shows "builds_binary (adguard_steps (srs_rules env) r) (adguard_steps (srs_rules env) (stored_default env False v r))"
proof -
  have "NewRawAdGuardDomainItem (srs_AdGuard_Match env (srs_NewAdGuardMatcher env (h_AdGuardDomain r))) =
      NewAdGuardDomainItem (srs_rules env) (h_AdGuardDomain r)"
    using assms(1) by (simp add: srs_agrees_def NewRawAdGuardDomainItem_def NewAdGuardDomainItem_def)
  then show ?thesis using assms(2)
    by (cases "h_AdGuardDomain r = []")
      (auto simp: adguard_steps_def stored_fields source_default_def builds_binary_Inr step_def
        binary_item_def NewAdGuardDomainItem_def intro!: builds_binary_same)
qed

lemma plain_class_binary: "class_of it \<in> {COther, CSourcePort, CDestinationPort} \<Longrightarrow> binary_item it = it"
  by (cases it) (auto simp: binary_item_def split: if_splits)

lemma keyword_binary: "binary_item (NewDomainKeywordItem ks) = NewDomainKeywordItem ks"
  by (simp add: NewDomainKeywordItem_def binary_item_def)

lemma regex_binary: "NewDomainRegexItem env rs = Inr it \<Longrightarrow> binary_item it = it"
  by (auto simp: NewDomainRegexItem_def binary_item_def res_bind_Inr_iff Let_def)

lemma step_binary:
  "adds_binary add \<Longrightarrow> binary_item item = item \<Longrightarrow> builds_binary (step cond add item) (step cond add item)"
  unfolding step_def by (rule builds_binary_same) auto

lemma headless_steps_binary:
  assumes "srs_agrees env v" "source_default r" "cidrs_parsed env r"
  shows "list_all2 builds_binary (headless_rule_steps (srs_rules env) nm r)
    (headless_rule_steps (srs_rules env) nm (stored_default env False v r))"
proof -
  have "map_nonempty (if map_nonempty m then m else None) = map_nonempty m"
    "builds_binary (step (map_nonempty m) to_items (NewNetworkInterfaceAddressItem e (entries m)))
       (step (map_nonempty m) to_items (NewNetworkInterfaceAddressItem e (entries (if map_nonempty m then m else None))))"
    for m :: "(InterfaceType \<times> Prefix list) list option" and e
    by (auto simp: map_nonempty_def plain_class_binary intro!: step_binary)
       (auto simp: step_def step_result_def builds_binary_def)
  then show ?thesis
    using domain_binary [OF assms(1,2)] source_cidr_binary [OF assms] cidr_binary [OF assms] adguard_binary [OF assms(1,2)]
    by (auto simp: headless_rule_steps_def network_state_steps_def stored_others stored_fields(10) keyword_binary plain_class_binary
        class_of_results intro!: step_binary builds_binary_same dest: regex_binary)
qed

lemma w_seq_item: "w_seq ws = Inr bs \<Longrightarrow> w \<in> set ws \<Longrightarrow> \<exists>b. w = Inr b"
  by (auto simp: w_seq_Inr_iff)

lemma written_cidrs:
  assumes "writeDefaultRule env r v = Inr bs"
  shows "cidrs_parsed env r"
proof -
  have "\<exists>b. default_rule_items env r v ! k = Inr b" if "k < length (default_rule_items env r v)" for k
    using that by (intro w_seq_item [OF assms [unfolded writeDefaultRule_def]]) simp
  from this [of 5] this [of 6] have
    "\<exists>b. w_if (length (h_SourceIPCIDR r) > 0)
        (res_cause ''source_ip_cidr'' (writeRuleItemCIDR env ruleItemSourceIPCIDR (h_SourceIPCIDR r))) = Inr b"
    "\<exists>b. w_if (length (h_IPCIDR r) > 0)
        (res_cause ''ipcidr'' (writeRuleItemCIDR env ruleItemIPCIDR (h_IPCIDR r))) = Inr b"
    by (simp_all add: default_rule_items_defs)
  then show ?thesis
    by (auto simp: cidrs_parsed_def w_if_def writeRuleItemCIDR_def res_bind_Inr_iff)
qed

lemma NewDefaultHeadlessRule_stored:
  assumes "srs_agrees env v" "source_default r" "cidrs_parsed env r"
    and "NewDefaultHeadlessRule (srs_rules env) nm r = Inr d"
  shows "NewDefaultHeadlessRule (srs_rules env) nm (stored_default env False v r) = Inr (binary_default d)"
proof -
  have "binary_default (new_rule (h_Invert r) None) = new_rule (h_Invert r) None"
    by (simp add: binary_default_def new_rule_def)
  then show ?thesis
    using builds_binary_run [OF headless_steps_binary [OF assms(1,2,3)] assms(4) [unfolded NewDefaultHeadlessRule_def]]
    unfolding NewDefaultHeadlessRule_def stored_others(20) by simp
qed

lemma stored_default_valid:
  assumes "source_default r" "DefaultHeadlessRule_IsValid r"
  shows "DefaultHeadlessRule_IsValid (stored_default env False v r)"
proof -
  have "r = headless_zero\<lparr>h_Invert := h_Invert r\<rparr>"
    if "stored_default env False v r = headless_zero\<lparr>h_Invert := h_Invert (stored_default env False v r)\<rparr>"
  proof -
    have "map_nonempty (h_NetworkInterfaceAddress r) \<or> h_NetworkInterfaceAddress r = None"
      using assms(1) by (cases "h_NetworkInterfaceAddress r") (auto simp: source_default_def map_nonempty_def)
    then show ?thesis using that assms(1)
      by (cases r) (auto simp: stored_default_def headless_zero_def Let_def source_default_def has_domain_def
          map_nonempty_def split: if_splits)
  qed
  then show ?thesis using assms(2) by (auto simp: DefaultHeadlessRule_IsValid_def)
qed

lemma logical_written:
  assumes "writeRule env v (HeadlessRule_options type' default' mode rules inv') = Inr bs" "type' \<noteq> ''default''"
  shows "type' = ''logical''" "\<And>r. r \<in> set rules \<Longrightarrow> \<exists>b. writeRule env v r = Inr b"
proof -
  from assms show "type' = ''logical''" by (auto split: if_splits)
  from assms obtain ds where "w_seq (map (writeRule env v) rules) = Inr ds"
    by (auto split: if_splits elim!: writeLogicalRule_Inr)
  then show "\<And>r. r \<in> set rules \<Longrightarrow> \<exists>b. writeRule env v r = Inr b" using w_seq_item by fastforce
qed

lemma stored_rule_valid:
  "writeRule env v r = Inr bs \<Longrightarrow> source_rule r \<Longrightarrow> HeadlessRule_IsValid r = Inr True \<Longrightarrow>
     HeadlessRule_IsValid (stored_rule env False v r) = Inr True"
proof (induction r arbitrary: bs rule: storable.induct)
  case (1 type' default' mode rules inv')
  show ?case
  proof (cases "type' = ''default''")
    case True
    then show ?thesis using 1 by (auto intro: stored_default_valid)
  next
    case False
    note w = logical_written [OF 1(2) False]
    have "HeadlessRule_IsValid (stored_rule env False v r) = Inr True" if r: "r \<in> set rules" for r
    proof -
      obtain b where "writeRule env v r = Inr b" using w(2) [OF r] by blast
      moreover have "source_rule r" "HeadlessRule_IsValid r = Inr True"
        using w(1) 1(3,4) r by (auto simp: res_all_True_iff list_all_iff split: if_splits)
      ultimately show ?thesis by (rule 1(1) [OF False r])
    qed
    then show ?thesis using w(1) 1(4) by (auto simp: res_all_True_iff split: if_splits)
  qed
qed

lemma LogicalHeadlessRule_stored_valid:
  assumes "\<And>r. r \<in> set rules \<Longrightarrow> \<exists>b. writeRule env v r = Inr b" "\<And>r. r \<in> set rules \<Longrightarrow> source_rule r"
    and "LogicalHeadlessRule_IsValid rules = Inr True"
  shows "LogicalHeadlessRule_IsValid (map (stored_rule env False v) rules) = Inr True"
proof -
  have "rules \<noteq> []" and valid: "\<And>r. r \<in> set rules \<Longrightarrow> HeadlessRule_IsValid r = Inr True"
    using assms(3) by (auto simp: LogicalHeadlessRule_IsValid_def res_all_True_iff split: if_splits)
  moreover have "HeadlessRule_IsValid (stored_rule env False v r) = Inr True" if r: "r \<in> set rules" for r
    using assms(1) [OF r] stored_rule_valid [OF _ assms(2) [OF r] valid [OF r]] by blast
  ultimately show ?thesis by (simp add: LogicalHeadlessRule_IsValid_def res_all_True_iff)
qed

lemma NewHeadlessRule_stored:
  assumes "srs_agrees env v"
  shows "writeRule env v o' = Inr bs \<Longrightarrow> source_rule o' \<Longrightarrow> NewHeadlessRule (srs_rules env) nm o' = Inr r \<Longrightarrow>
     NewHeadlessRule (srs_rules env) nm (stored_rule env False v o') = Inr (binary_rule r)"
proof (induction o' arbitrary: bs r rule: storable.induct)
  case (1 type' default' mode rules inv')
  let ?New = "NewHeadlessRule (srs_rules env) nm" and ?st = "stored_rule env False v"
  show ?case
  proof (cases "type' = ''default''")
    case True
    then obtain d where "DefaultHeadlessRule_IsValid default'" "r = DefaultHeadlessRule d"
      and d: "NewDefaultHeadlessRule (srs_rules env) nm default' = Inr d"
      using 1(4) by (auto simp: res_bind_Inr_iff split: if_splits)
    moreover have "NewDefaultHeadlessRule (srs_rules env) nm (stored_default env False v default') = Inr (binary_default d)"
      using 1(2,3) True written_cidrs by (intro NewDefaultHeadlessRule_stored [OF assms _ _ d]) auto
    ultimately show ?thesis using 1(3) True stored_default_valid by auto
  next
    case False
    note w = logical_written [OF 1(2) False]
    from 1(4) False w(1) obtain mode' rs where valid: "LogicalHeadlessRule_IsValid rules = Inr True"
      and m: "logical_mode mode = Inr mode'" and rs: "res_mapiM ''sub rule['' ?New 0 rules = Inr rs"
      and r: "r = LogicalHeadlessRule rs mode' inv'"
      by (auto simp: res_bind_Inr_iff split: if_splits)
    have src: "source_rule x" if "x \<in> set rules" for x using 1(3) that by (auto simp: list_all_iff)
    have "?New (?st (rules ! k)) = Inr (binary_rule (rs ! k))" if k: "k < length rules" for k
    proof -
      note mem = nth_mem [OF k]
      obtain b where "writeRule env v (rules ! k) = Inr b" using w(2) [OF mem] by blast
      moreover have "?New (rules ! k) = Inr (rs ! k)" using rs k by (auto simp: res_mapiM_Inr_iff)
      ultimately show ?thesis using 1(1) [OF False mem _ src [OF mem]] by blast
    qed
    then have "res_mapiM ''sub rule['' ?New 0 (map ?st rules) = Inr (map binary_rule rs)"
      using rs by (auto simp: res_mapiM_Inr_iff)
    moreover have "LogicalHeadlessRule_IsValid (map ?st rules) = Inr True"
      by (rule LogicalHeadlessRule_stored_valid [OF w(2) src valid])
    ultimately show ?thesis using False m r by simp
  qed
qed

subsection \<open>Which rule sets can be written\<close>

text \<open>The oldest version of the format that has all the items of a rule.\<close>

definition needs_version :: "DefaultHeadlessRule_options \<Rightarrow> u8" where
  "needs_version r =
     (if h_PackageNameRegex r \<noteq> [] then 5
      else if map_nonempty (h_NetworkInterfaceAddress r) \<or> h_DefaultInterfaceAddress r \<noteq> [] then 4
      else if h_NetworkType r \<noteq> [] \<or> h_NetworkIsExpensive r \<or> h_NetworkIsConstrained r then 3
      else if h_AdGuardDomain r \<noteq> [] then 2 else 0)"

fun writable :: "('m, 'a) srs_env \<Rightarrow> u8 \<Rightarrow> HeadlessRule_options \<Rightarrow> bool" where
  "writable env v (HeadlessRule_options type' default' mode rules inv') \<longleftrightarrow>
     (if type' = ''default'' then needs_version default' \<le> v \<and> cidrs_parsed env default'
      else type' = ''logical'' \<and> (mode = ''and'' \<or> mode = ''or'') \<and> list_all (writable env v) rules)"

lemma w_seq_ok_iff: "(\<exists>bs. w_seq ws = Inr bs) \<longleftrightarrow> (\<forall>w \<in> set ws. \<exists>b. w = Inr b)"
proof (induction ws)
  case (Cons w ws)
  then show ?case by (cases w) (auto simp: res_bind_Inr_iff)
qed simp

lemma w_ok_simps:
  "(\<exists>b. w_strings env t xs = Inr b) \<longleftrightarrow> True" "(\<exists>b. w_uint16s env t ps = Inr b) \<longleftrightarrow> True"
  "(\<exists>b. w_if c (Inr bs) = Inr b) \<longleftrightarrow> True"
  "(\<exists>b. w_since c v n msg bs = Inr b) \<longleftrightarrow> (c \<longrightarrow> n \<le> v)"
  "(\<exists>b. w_if (length cs > 0) (res_cause msg (writeRuleItemCIDR env t cs)) = Inr b) \<longleftrightarrow>
     (cs \<noteq> [] \<longrightarrow> (\<exists>rr. cidr_IPSet env cs = Inr rr))"
  by (auto simp: w_strings_def w_uint16s_def w_if_def w_since_def writeRuleItemCIDR_def res_bind_Inr_iff not_less)

lemma needs_version_iff:
  "needs_version r \<le> v \<longleftrightarrow>
     (length (h_PackageNameRegex r) > 0 \<longrightarrow> 5 \<le> v) \<and> (length (h_NetworkType r) > 0 \<longrightarrow> 3 \<le> v) \<and>
     (h_NetworkIsExpensive r \<longrightarrow> 3 \<le> v) \<and> (h_NetworkIsConstrained r \<longrightarrow> 3 \<le> v) \<and>
     (map_nonempty (h_NetworkInterfaceAddress r) \<longrightarrow> 4 \<le> v) \<and>
     (length (h_DefaultInterfaceAddress r) > 0 \<longrightarrow> 4 \<le> v) \<and> (length (h_AdGuardDomain r) > 0 \<longrightarrow> 2 \<le> v)"
proof -
  have "v \<ge> 4 \<and> v \<ge> 3 \<and> v \<ge> 2" if "v \<ge> 5" using that order_trans [OF _ that] by (simp add: word_le_nat_alt)
  moreover have "v \<ge> 3 \<and> v \<ge> 2" if "v \<ge> 4" using that by (simp add: word_le_nat_alt)
  moreover have "v \<ge> 2" if "v \<ge> 3" using that by (simp add: word_le_nat_alt)
  ultimately show ?thesis by (auto simp: needs_version_def)
qed

lemma writeDefaultRule_ok_iff:
  "(\<exists>bs. writeDefaultRule env r v = Inr bs) \<longleftrightarrow> needs_version r \<le> v \<and> cidrs_parsed env r"
  unfolding writeDefaultRule_def w_seq_ok_iff default_rule_items_defs needs_version_iff cidrs_parsed_def
  by (simp add: w_ok_simps [simplified] conj_commute conj_left_commute)

end
