(* ===== verification/SrsProperties.thy ===== *)
theory SrsProperties
  imports CompiledRules Samples "HOL-Library.AList"
begin

text \<open>
  The properties of binary rule sets, with an instance of the libraries the codec uses
  (\<open>sample_srs\<close>) in which the assumptions \<open>srs_env_ok\<close> and \<open>srs_agrees\<close> hold: matchers are their
  lists of strings, an IP set is a list of single addresses, and the compressed form of a byte is a
  continuation mark and the byte.
\<close>

subsection \<open>A sample of the libraries\<close>

definition extern_of :: "'b parser \<Rightarrow> stream \<Rightarrow> ('b \<times> nat) result" where
  "extern_of p s = (case p s of Inl e \<Rightarrow> Inl e | Inr (a, s') \<Rightarrow> Inr (a, length (fst s) - length (fst s')))"

definition slice8 :: "u8 list parser" where
  "slice8 = p_bind binary_ReadUvarint io_ReadFull"

definition slice16 :: "u16 list parser" where
  "slice16 = p_bind binary_ReadUvarint (\<lambda>n. p_times n 0 (\<lambda>_. p_bind (binary_Read_uint 2) (\<lambda>v. p_return (of_nat v))))"

definition strings :: "string list parser" where
  "strings = p_bind binary_ReadUvarint (\<lambda>n. p_times n 0 (\<lambda>_. p_bind slice8 (\<lambda>v. p_return (string_of v))))"

definition write_strings :: "string list \<Rightarrow> bytes" where
  "write_strings v = AppendUvarint (length v) @ concat (map (\<lambda>s. AppendUvarint (length s) @ bytes_of s) v)"

fun unpack :: "bytes \<Rightarrow> error \<Rightarrow> stream result" where
  "unpack (b # c # bs) e =
     (if b = 0 then Inr ([], io_EOF) else res_bind (unpack bs e) (\<lambda>(cs, e'). Inr (c # cs, e')))"
| "unpack [b] e = (if b = 0 then Inr ([], io_EOF) else Inl e)"
| "unpack [] e = Inl e"

definition sample_builder :: "(Prefix + Addr) list \<Rightarrow> (Addr \<times> Addr) list result" where
  "sample_builder ps =
     (if length ps < 2 ^ 64 \<and> list_all (\<lambda>p. \<not> isl p \<and> plain_addr (projr p)) ps
      then Inr (map (\<lambda>p. (projr p, projr p)) ps) else Inl EInvalid)"

definition srs_rule_env :: rule_env where
  "srs_rule_env = sample_env\<lparr>env_AddrFromIP := \<lambda>b. case addr_FromSlice b of None \<Rightarrow> AddrInvalid | Some a \<Rightarrow> a,
     env_ParseAddr := \<lambda>s. if s = ''10.0.0.1'' then Inr (Addr4 0x0A000001) else Inl (ENew s)\<rparr>"

definition sample_srs :: "(string list \<times> string list, string list) srs_env" where
  "sample_srs =
     \<lparr>srs_rules = srs_rule_env,
      srs_WriteUvarint = AppendUvarint,
      srs_ReadSlice8 = extern_of slice8,
      srs_ReadSlice16 = extern_of slice16,
      srs_NewMatcher = (\<lambda>ds ss legacy. (ds, ss)),
      srs_Matcher_Write = (\<lambda>(ds, ss). write_strings ds @ write_strings ss),
      srs_ReadMatcher = extern_of (p_bind strings (\<lambda>ds. p_bind strings (\<lambda>ss. p_return (ds, ss)))),
      srs_Matcher_Match = (\<lambda>(ds, ss) d. d \<in> set ds),
      srs_Matcher_Dump = (\<lambda>m. m),
      srs_NewAdGuardMatcher = (\<lambda>ls. ls),
      srs_AdGuard_Write = write_strings,
      srs_ReadAdGuardMatcher = extern_of strings,
      srs_AdGuard_Match = (\<lambda>ls d. d \<in> set ls),
      srs_AdGuard_Dump = (\<lambda>m. m),
      srs_builder_IPSet = sample_builder,
      srs_IPSet_Contains = (\<lambda>rr a. a \<in> fst ` set rr),
      srs_IPSet_Prefixes = (\<lambda>rr. map (\<lambda>(a, b). prefix_From a (int (addr_BitLen a))) rr),
      srs_TypedMap_Put = (\<lambda>m k v. AList.update k v m),
      srs_compress = (\<lambda>bs. concat (map (\<lambda>b. [1, b]) bs) @ [0]),
      srs_decompress = (\<lambda>(bs, e). unpack bs e)\<rparr>"

definition domain_rule :: HeadlessRule_options where
  "domain_rule = HeadlessRule_options ''default''
     (headless_zero\<lparr>h_Domain := [''example.org''], h_IPCIDR := [''10.0.0.1''], h_Port := [443]\<rparr>) [] [] False"

definition nested_rule :: HeadlessRule_options where
  "nested_rule = HeadlessRule_options ''logical'' headless_zero ''or''
     [domain_rule, HeadlessRule_options ''default'' (headless_zero\<lparr>h_Network := [''udp'']\<rparr>) [] [] False] True"

fun and_tower :: "nat \<Rightarrow> HeadlessRule_options" where
  "and_tower 0 = domain_rule"
| "and_tower (Suc n) = HeadlessRule_options ''logical'' headless_zero ''and'' [and_tower n] False"

lemma reads_extern_of: "reads p bs a \<Longrightarrow> reads (p_extern (extern_of p)) bs a"
  by (auto simp: reads_def p_extern_def extern_of_def)

lemma reads_slices:
  "sized v \<Longrightarrow> reads slice8 (AppendUvarint (length v) @ v) v"
  "sized w \<Longrightarrow> reads slice16 (AppendUvarint (length w) @ concat (map (\<lambda>x. be_bytes 2 (unat x)) w)) w"
proof -
  show "sized v \<Longrightarrow> reads slice8 (AppendUvarint (length v) @ v) v"
    unfolding slice8_def by (intro reads_bind [OF reads_ReadUvarint] reads_ReadFull) (auto simp: sized_def)
  have "unat x < 256 ^ 2" for x :: u16 using unsigned_less [of x, where 'a = nat] by simp
  then have "reads (p_times (length w) 0 (\<lambda>_. p_bind (binary_Read_uint 2) (\<lambda>v. p_return (of_nat v :: u16))))
      (concat (map (\<lambda>x. be_bytes 2 (unat x)) w)) (map (\<lambda>x. x) w)"
    by (intro reads_times reads_bind_return [OF reads_Read_uint]) auto
  then show "sized w \<Longrightarrow> reads slice16 (AppendUvarint (length w) @ concat (map (\<lambda>x. be_bytes 2 (unat x)) w)) w"
    unfolding slice16_def by (intro reads_bind [OF reads_ReadUvarint]) (auto simp: sized_def)
qed

lemma reads_sample_strings:
  assumes "strings_ok v"
  shows "reads strings (write_strings v) v"
proof -
  have "reads slice8 (AppendUvarint (length s) @ bytes_of s) (bytes_of s)" if "sized s" for s
    using reads_slices(1) [of "bytes_of s"] that by (simp add: sized_def)
  then have "reads (p_times (length v) 0 (\<lambda>_. p_bind slice8 (\<lambda>v. p_return (string_of v))))
      (concat (map (\<lambda>s. AppendUvarint (length s) @ bytes_of s) v)) (map (\<lambda>s. s) v)"
    using assms by (intro reads_times) (auto simp: strings_ok_def list_all_iff intro!: reads_bind_return)
  then show ?thesis
    using assms unfolding strings_def write_strings_def strings_ok_def
    by (intro reads_bind [OF reads_ReadUvarint]) (auto simp: sized_def)
qed

lemma unpack_pack: "unpack (concat (map (\<lambda>b. [1, b]) body) @ [0] @ rest) e = Inr (body, io_EOF)"
proof (induction body)
  case Nil
  show ?case by (cases rest) auto
qed simp

lemma sample_srs_ok: "srs_env_ok sample_srs"
proof -
  have "srs_varbin_ok sample_srs"
    by (auto simp: srs_varbin_ok_def sample_srs_def intro!: reads_ReadUvarint reads_extern_of reads_slices)
  moreover have "srs_matchers_ok sample_srs"
    unfolding srs_matchers_ok_def sample_srs_def Let_def
    by (auto intro!: exI reads_extern_of reads_bind reads_bind_return reads_sample_strings)
  moreover have "AList.update k v m = m @ [(k, v)]" if "k \<notin> fst ` set m" for k v and m :: "(InterfaceType \<times> Prefix list) list"
    using that by (induction m) auto
  moreover have "env_AddrFromIP srs_rule_env (addr_AsSlice a) = a" if "plain_addr a" for a
    using that addr_FromSlice_AsSlice [of a] by (auto simp: srs_rule_env_def plain_addr_def)
  moreover have "sized rr \<and> (\<forall>(a, b) \<in> set rr. plain_addr a \<and> plain_addr b)" if "sample_builder ps = Inr rr" for ps rr
    using that by (auto simp: sample_builder_def sized_def list_all_iff split: if_splits)
  moreover have "\<exists>e'. srs_decompress sample_srs (srs_compress sample_srs body @ rest, e) = Inr (body, e')" for body rest e
    using unpack_pack [of body rest e] by (auto simp: sample_srs_def)
  ultimately show ?thesis unfolding srs_env_ok_def by (auto simp: sample_srs_def)
qed

lemma sample_srs_agrees: "srs_agrees sample_srs v"
proof -
  have "(\<lambda>a. Inr a \<in> set ps) = (\<lambda>a. a \<in> fst ` set rr)" if "sample_builder ps = Inr rr" for ps rr
  proof -
    from that have "\<forall>p \<in> set ps. p = Inr (projr p)" "rr = map (\<lambda>p. (projr p, projr p)) ps"
      by (auto simp: sample_builder_def list_all_iff isl_def split: if_splits)
    then show ?thesis by (force simp: image_iff fun_eq_iff)
  qed
  then show ?thesis
    by (auto simp: srs_agrees_def sample_srs_def srs_rule_env_def sample_env_def)
qed

lemma sample_rules_ok:
  "storable domain_rule" "storable nested_rule" "source_rule domain_rule" "source_rule nested_rule"
  "nesting domain_rule = 0" "nesting nested_rule = 1"
  by (auto simp: domain_rule_def nested_rule_def headless_zero_def default_storable_def strings_ok_def sized_def
      interface_addresses_ok_def entries_def source_default_def)

lemma sample_cidr: "cidr_IPSet sample_srs [''10.0.0.1''] = Inr [(Addr4 0x0A000001, Addr4 0x0A000001)]"
  by (simp add: cidr_IPSet_def sample_srs_def srs_rule_env_def sample_env_def sample_builder_def plain_addr_def)

lemma writable_iff: "(\<exists>bs. writeRule env v r = Inr bs) \<longleftrightarrow> writable env v r"
proof (induction r rule: storable.induct)
  case (1 type' default' mode rules inv')
  show ?case
  proof (cases "type' = ''default''")
    case True
    then show ?thesis using writeDefaultRule_ok_iff [of env default' v] by simp
  next
    case False
    have "(\<exists>ds. w_seq (map (writeRule env v) rules) = Inr ds) \<longleftrightarrow> list_all (writable env v) rules"
      using 1(1) [OF False] by (auto simp: w_seq_ok_iff list_all_iff)
    moreover have "(\<exists>c. write_mode mode = Inr c) \<longleftrightarrow> mode = ''and'' \<or> mode = ''or''"
      by (auto simp: write_mode_def)
    ultimately show ?thesis
      using False by (auto simp: writeLogicalRule_def res_bind_Inr_iff)
  qed
qed

lemma srs_Write_ok_iff: "(\<exists>bs. srs_Write env rules v = Inr bs) \<longleftrightarrow> list_all (writable env v) rules"
proof -
  have "(\<exists>bs. srs_Write env rules v = Inr bs) \<longleftrightarrow> (\<exists>ds. w_seq (map (writeRule env v) rules) = Inr ds)"
    by (auto simp: srs_Write_def res_bind_Inr_iff)
  also have "\<dots> \<longleftrightarrow> list_all (writable env v) rules"
    by (auto simp: w_seq_ok_iff list_all_iff writable_iff)
  finally show ?thesis .
qed

lemma sample_writable: "writable sample_srs v domain_rule" "writable sample_srs v nested_rule" "writable sample_srs v (and_tower n)"
proof -
  show d: "writable sample_srs v domain_rule"
    by (simp add: domain_rule_def needs_version_def cidrs_parsed_def headless_zero_def map_nonempty_def sample_cidr)
  then show "writable sample_srs v nested_rule"
    by (simp add: nested_rule_def needs_version_def cidrs_parsed_def headless_zero_def map_nonempty_def)
  from d show "writable sample_srs v (and_tower n)" by (induction n) auto
qed

lemma and_tower_ok: "storable (and_tower n)" "nesting (and_tower n) = n"
  by (induction n) (auto simp: sample_rules_ok sized_def)

subsection \<open>Properties\<close>

text \<open>
  C5: a rule set that is written in a version the reader knows and whose rules are nested at most 100
  logical rules deep is read back: the version, and every rule with its domains, CIDR lists and
  AdGuard lines replaced by the compiled matchers (and kept as text when recovering), every other
  field unchanged. What follows the file in the stream does not matter.
\<close>

theorem srs_round_trip:
  assumes "srs_env_ok env" "v \<le> 5" "sized rules" "list_all storable rules"
    and "list_all (\<lambda>r. nesting r \<le> 100) rules" "srs_Write env rules v = Inr bs"
  shows "srs_Read env recover (bs @ rest, e) = Inr (v, map (stored_rule env recover v) rules)"
  using srs_file_outcome [OF assms(1-4,6)] assms(5) by simp

theorem srs_round_trip_witness:
  "\<exists>bs. srs_Write sample_srs [domain_rule, nested_rule] 3 = Inr bs \<and>
     srs_Read sample_srs True (bs @ [7], io_EOF) =
       Inr (3, [stored_rule sample_srs True 3 domain_rule, stored_rule sample_srs True 3 nested_rule])"
proof -
  obtain bs where bs: "srs_Write sample_srs [domain_rule, nested_rule] 3 = Inr bs"
    using srs_Write_ok_iff [of sample_srs "[domain_rule, nested_rule]" 3] sample_writable by auto
  moreover have "srs_Read sample_srs True (bs @ [7], io_EOF) =
      Inr (3, map (stored_rule sample_srs True 3) [domain_rule, nested_rule])"
    by (rule srs_round_trip [OF sample_srs_ok _ _ _ _ bs])
      (simp_all add: sample_rules_ok sized_def word_le_nat_alt)
  ultimately show ?thesis by simp
qed



text \<open>
  C31: a rule set is written exactly when every item of its rules exists in the chosen version of the
  format, its CIDR lists parse, and the types and modes of its rules are known; in every other case the
  writer reports an error or panics.
\<close>

theorem srs_write_version_checked:
  "(\<exists>bs. srs_Write env rules v = Inr bs) \<longleftrightarrow> list_all (writable env v) rules"
  by (rule srs_Write_ok_iff)

text \<open>
  C6: a compiled rule set matches what its source matches. When the rule engine accepts the source
  rules, it accepts the rules read back from the binary file too, and a rule set holding them gives the
  same verdict and leaves the same context for every connection.
\<close>

theorem compiled_rule_set_matches_source:
  assumes "srs_env_ok env" "srs_agrees env v" "v \<le> 5" "sized rules" "list_all storable rules"
    and "list_all (\<lambda>r. nesting r \<le> 100) rules" "list_all source_rule rules" "srs_Write env rules v = Inr bs"
    and "res_mapM (NewHeadlessRule (srs_rules env) nm) rules = Inr built"
  shows "\<exists>rules' built'. srs_Read env False (bs @ rest, e) = Inr (v, rules') \<and>
    res_mapM (NewHeadlessRule (srs_rules env) nm) rules' = Inr built' \<and>
    RuleSet_Match env' (s\<lparr>rst_rules := built'\<rparr>) = RuleSet_Match env' (s\<lparr>rst_rules := built\<rparr>)"
proof -
  have "NewHeadlessRule (srs_rules env) nm (stored_rule env False v (rules ! k)) = Inr (binary_rule (built ! k))"
    if k: "k < length rules" for k
    using NewHeadlessRule_stored [OF assms(2) srs_Write_Inr(1) [OF assms(8) nth_mem [OF k]]] assms(7,9) k
    by (auto simp: res_mapM_Inr_iff list_all2_conv_all_nth list_all_length)
  then have "res_mapM (NewHeadlessRule (srs_rules env) nm) (map (stored_rule env False v) rules) = Inr (map binary_rule built)"
    using assms(9) by (auto simp: res_mapM_Inr_iff list_all2_conv_all_nth)
  moreover have "srs_Read env False (bs @ rest, e) = Inr (v, map (stored_rule env False v) rules)"
    using srs_file_outcome [OF assms(1,3-5,8)] assms(6) by simp
  moreover have "RuleSet_Match env' (s\<lparr>rst_rules := map binary_rule built\<rparr>) = RuleSet_Match env' (s\<lparr>rst_rules := built\<rparr>)"
  proof -
    have "rule_Match env' no_sets (binary_rule r) = rule_Match env' no_sets r" for r
      by (rule ext) (rule rule_Match_binary)
    then show ?thesis by (intro ext) (simp add: RuleSet_Match_def comp_def)
  qed
  ultimately show ?thesis by blast
qed

theorem compiled_rule_set_matches_source_witness:
  "\<exists>bs built rules' built'. srs_Write sample_srs [domain_rule] 2 = Inr bs \<and>
     res_mapM (NewHeadlessRule srs_rule_env False) [domain_rule] = Inr built \<and>
     srs_Read sample_srs False (bs @ [], io_EOF) = Inr (2, rules') \<and>
     res_mapM (NewHeadlessRule srs_rule_env False) rules' = Inr built' \<and>
     RuleSet_Match srs_rule_env ((sample_set ''s'' [])\<lparr>rst_rules := built'\<rparr>) =
       RuleSet_Match srs_rule_env ((sample_set ''s'' [])\<lparr>rst_rules := built\<rparr>)"
proof -
  obtain bs where bs: "srs_Write sample_srs [domain_rule] 2 = Inr bs"
    using srs_Write_ok_iff [of sample_srs "[domain_rule]" 2] sample_writable by auto
  have env: "srs_rules sample_srs = srs_rule_env" by (simp add: sample_srs_def)
  obtain built where built: "res_mapM (NewHeadlessRule (srs_rules sample_srs) False) [domain_rule] = Inr built"
    by (simp add: env domain_rule_def srs_rule_env_def sample_env_def NewDefaultHeadlessRule_def headless_rule_steps_def
        headless_zero_def DefaultHeadlessRule_IsValid_def step_def step_result_def domain_steps_def source_cidr_steps_def
        cidr_steps_def adguard_steps_def NewDomainItem_def NewIPCIDRItem_def parse_cidr_def Let_def)
  show ?thesis
    using compiled_rule_set_matches_source [OF sample_srs_ok sample_srs_agrees _ _ _ _ _ bs built,
        where rest = "[]" and e = io_EOF and env' = srs_rule_env and s = "sample_set ''s'' []"] bs built
    by (simp add: sample_rules_ok sized_def word_le_nat_alt env)
qed

end
