(* ===== verification/Sniffing.thy ===== *)
theory Sniffing
  imports RuleMatch
begin

text \<open>
  Protocol sniffing as the router does it: \<open>Skip\<close>, \<open>PeekStream\<close> and \<open>PeekPacket\<close> of
  \<open>common/sniff/sniff.go\<close> and the sniff action of \<open>route/route.go\<close> (\<open>Router.actionSniff\<close>).

  The sniffers are functions the code passes around; \<open>se_sniffer\<close> gives the function of a name, which
  reads from a list of buffers (a packet is a single buffer). What
  a connection delivers is a script: the outcomes of its reads, one after the other. A read beyond the
  end of the script runs into the deadline. \<open>se_Errors\<close> and \<open>se_NeedMore\<close> are \<open>E.Errors\<close> of the
  \<open>sing\<close> library and \<open>errors.Is(err, ErrNeedMoreData)\<close>.
\<close>

type_synonym packet = "bytes \<times> Socksaddr"

datatype stream_read = StreamData bytes | StreamErr error | DeadlineErr error

datatype packet_read = PacketData bytes Socksaddr | PacketTimeout error | PacketErr error | PacketCanceled error

datatype conn_input = StreamInput "stream_read list" | PacketInput "packet_read list"

record sniff_env =
  se_sniffer :: "Sniffer \<Rightarrow> InboundContext \<Rightarrow> bytes list \<Rightarrow> error option \<times> InboundContext"
  se_Errors :: "error option list \<Rightarrow> error option"
  se_NeedMore :: "error \<Rightarrow> bool"
  se_IsDomainName :: "string \<Rightarrow> bool"

abbreviation io_timeout :: error where
  "io_timeout \<equiv> ENew ''i/o timeout''"

definition need_more :: "sniff_env \<Rightarrow> error option \<Rightarrow> bool" where
  "need_more env err = (case err of None \<Rightarrow> False | Some e \<Rightarrow> se_NeedMore env e)"

subsection \<open>Peeking\<close>

definition sniff_Skip :: "InboundContext \<Rightarrow> bool" where
  "sniff_Skip metadata \<longleftrightarrow> List.member [25, 465, 587, 143, 993, 110, 995] (sock_Port (Destination metadata))"

fun PeekPacket_loop ::
    "sniff_env \<Rightarrow> bytes \<Rightarrow> Sniffer list \<Rightarrow> error list \<Rightarrow> InboundContext \<Rightarrow> error option \<times> InboundContext" where
  "PeekPacket_loop env packet [] errs metadata = (se_Errors env (map Some errs), metadata)"
| "PeekPacket_loop env packet (sniffer # rest) errs metadata =
     (case se_sniffer env sniffer metadata [packet] of
        (None, md) \<Rightarrow> (None, md)
      | (Some err, md) \<Rightarrow> PeekPacket_loop env packet rest (errs @ [err]) md)"

definition PeekPacket ::
    "sniff_env \<Rightarrow> InboundContext \<Rightarrow> bytes \<Rightarrow> Sniffer list \<Rightarrow> error option \<times> InboundContext" where
  "PeekPacket env metadata packet sniffers = PeekPacket_loop env packet sniffers [] metadata"

text \<open>One pass of \<open>PeekStream\<close> over the sniffers: whether one succeeded, and the joined error.\<close>

fun stream_sniffers ::
    "sniff_env \<Rightarrow> bytes list \<Rightarrow> Sniffer list \<Rightarrow> error option \<Rightarrow> InboundContext \<Rightarrow>
     bool \<times> error option \<times> InboundContext" where
  "stream_sniffers env readers [] sniffError metadata = (False, sniffError, metadata)"
| "stream_sniffers env readers (sniffer # rest) sniffError metadata =
     (case se_sniffer env sniffer metadata readers of
        (None, md) \<Rightarrow> (True, None, md)
      | (Some err, md) \<Rightarrow> stream_sniffers env readers rest (se_Errors env [sniffError, Some err]) md)"

text \<open>
  The loop of \<open>PeekStream\<close>; \<open>prev\<close> are the buffers read before, \<open>buffer\<close> is the content of the buffer
  being filled. A sniffer reads from \<open>io.MultiReader\<close> over all of them.
\<close>

fun PeekStream_loop ::
    "sniff_env \<Rightarrow> bytes list \<Rightarrow> Sniffer list \<Rightarrow> nat \<Rightarrow> error option \<Rightarrow> InboundContext \<Rightarrow> bytes \<Rightarrow> stream_read list \<Rightarrow>
     error option \<times> InboundContext \<times> bytes \<times> stream_read list" where
  "PeekStream_loop env prev sniffers i sniffError metadata buffer [] =
     (if i > 0 then sniffError else Some (ECause ''read payload'' io_timeout), metadata, buffer, [])"
| "PeekStream_loop env prev sniffers i sniffError metadata buffer (DeadlineErr e # rest) =
     (Some (ECause ''set read deadline'' e), metadata, buffer, rest)"
| "PeekStream_loop env prev sniffers i sniffError metadata buffer (StreamErr e # rest) =
     (if i > 0 then sniffError else Some (ECause ''read payload'' e), metadata, buffer, rest)"
| "PeekStream_loop env prev sniffers i sniffError metadata buffer (StreamData b # rest) =
     (let buffer' = buffer @ b;
          (ok, err, md) = stream_sniffers env (prev @ [buffer']) sniffers None metadata
      in if ok then (None, md, buffer', rest)
         else if \<not> need_more env err then (err, md, buffer', rest)
         else PeekStream_loop env prev sniffers (Suc i) err md buffer' rest)"

definition PeekStream ::
    "sniff_env \<Rightarrow> InboundContext \<Rightarrow> bytes list \<Rightarrow> Sniffer list \<Rightarrow> stream_read list \<Rightarrow>
     error option \<times> InboundContext \<times> bytes \<times> stream_read list" where
  "PeekStream env metadata buffers sniffers script =
     PeekStream_loop env buffers sniffers 0 None metadata [] script"

subsection \<open>The sniff action\<close>

definition defaultPacketSniffers :: "Sniffer list" where
  "defaultPacketSniffers = [DomainNameQuery, QUICClientHello, STUNMessage, UTP, UDPTracker, DTLSRecord, NTP]"

definition defaultStreamSniffers :: "Sniffer list" where
  "defaultStreamSniffers = [TLSClientHello, HTTPHost, StreamDomainNameQuery, BitTorrent, SSH, RDP]"

definition override_destination :: "sniff_env \<Rightarrow> RuleActionSniff \<Rightarrow> InboundContext \<Rightarrow> InboundContext" where
  "override_destination env act metadata =
     (if OverrideDestination act \<and> se_IsDomainName env (Domain' metadata)
      then metadata\<lparr>Destination :=
             \<lparr>sock_Addr = AddrInvalid, sock_Port = sock_Port (Destination metadata), sock_Fqdn = Domain' metadata\<rparr>\<rparr>
      else metadata)"

definition sniffed_before :: "sniff_env \<Rightarrow> RuleActionSniff \<Rightarrow> InboundContext \<Rightarrow> bool" where
  "sniffed_before env act metadata \<longleftrightarrow>
     SnifferNames metadata = SnifferNames_of act \<and> SniffError metadata \<noteq> None \<and>
     \<not> need_more env (SniffError metadata)"

definition quicMoreData :: "sniff_env \<Rightarrow> RuleActionSniff \<Rightarrow> InboundContext \<Rightarrow> bool" where
  "quicMoreData env act metadata \<longleftrightarrow>
     SnifferNames metadata = SnifferNames_of act \<and> need_more env (SniffError metadata)"

definition sniff_packet ::
    "sniff_env \<Rightarrow> RuleActionSniff \<Rightarrow> bytes \<Rightarrow> InboundContext \<Rightarrow> error option \<times> InboundContext" where
  "sniff_packet env act packet metadata =
     (let packetSniffers = (if length (PacketSniffers act) > 0 then PacketSniffers act else defaultPacketSniffers);
          (err, md) = PeekPacket env metadata packet
            (if quicMoreData env act metadata then [QUICClientHello] else packetSniffers)
      in (err, md\<lparr>SnifferNames := SnifferNames_of act, SniffError := err\<rparr>))"

text \<open>
  The packets that are already buffered: \<open>Some err\<close> when one of them ends the sniffing with \<open>err\<close>,
  \<open>None\<close> when all of them need more data.
\<close>

fun sniff_buffered ::
    "sniff_env \<Rightarrow> RuleActionSniff \<Rightarrow> packet list \<Rightarrow> InboundContext \<Rightarrow> error option option \<times> InboundContext" where
  "sniff_buffered env act [] metadata = (None, metadata)"
| "sniff_buffered env act ((b, _) # rest) metadata =
     (let (err, md) = sniff_packet env act b metadata in
      if need_more env err then sniff_buffered env act rest md else (Some err, md))"

record sniff_result =
  sr_buffer :: "bytes option"
  sr_packets :: "packet list"
  sr_fatal :: "error option"
  sr_metadata :: InboundContext
  sr_input :: conn_input

definition sniff_finally :: "sniff_env \<Rightarrow> RuleActionSniff \<Rightarrow> error option \<Rightarrow> InboundContext \<Rightarrow> InboundContext" where
  "sniff_finally env act err metadata =
     (if err = None then override_destination env act metadata else metadata)"

fun sniff_reads ::
    "sniff_env \<Rightarrow> RuleActionSniff \<Rightarrow> packet list \<Rightarrow> InboundContext \<Rightarrow> packet_read list \<Rightarrow> sniff_result" where
  "sniff_reads env act packets metadata [] =
     \<lparr>sr_buffer = None, sr_packets = packets, sr_fatal = None, sr_metadata = metadata, sr_input = PacketInput []\<rparr>"
| "sniff_reads env act packets metadata (PacketTimeout e # rest) =
     \<lparr>sr_buffer = None, sr_packets = packets, sr_fatal = None, sr_metadata = metadata, sr_input = PacketInput rest\<rparr>"
| "sniff_reads env act packets metadata (PacketErr e # rest) =
     \<lparr>sr_buffer = None, sr_packets = packets, sr_fatal = Some e, sr_metadata = metadata, sr_input = PacketInput rest\<rparr>"
| "sniff_reads env act packets metadata (PacketCanceled e # rest) =
     \<lparr>sr_buffer = None, sr_packets = packets, sr_fatal = Some e, sr_metadata = metadata, sr_input = PacketInput rest\<rparr>"
| "sniff_reads env act packets metadata (PacketData b d # rest) =
     (let (err, md) = sniff_packet env act b metadata;
          packets' = packets @ [(b, d)]
      in if need_more env err then sniff_reads env act packets' md rest
         else \<lparr>sr_buffer = None, sr_packets = packets', sr_fatal = None,
                sr_metadata = sniff_finally env act err md, sr_input = PacketInput rest\<rparr>)"

definition sniff_stream ::
    "sniff_env \<Rightarrow> RuleActionSniff \<Rightarrow> bytes list \<Rightarrow> InboundContext \<Rightarrow> stream_read list \<Rightarrow> sniff_result" where
  "sniff_stream env act buffers metadata script =
     (let sniffers = (if length (StreamSniffers act) > 0 then StreamSniffers act else defaultStreamSniffers);
          (err, md, buffer, rest) = PeekStream env metadata buffers sniffers script;
          md1 = md\<lparr>SnifferNames := SnifferNames_of act, SniffError := err\<rparr>
      in \<lparr>sr_buffer = (if buffer \<noteq> [] then Some buffer else None), sr_packets = [], sr_fatal = None,
          sr_metadata = sniff_finally env act err md1, sr_input = StreamInput rest\<rparr>)"

definition sniff_packets ::
    "sniff_env \<Rightarrow> RuleActionSniff \<Rightarrow> packet list \<Rightarrow> InboundContext \<Rightarrow> packet_read list \<Rightarrow> sniff_result" where
  "sniff_packets env act packetBuffers metadata script =
     (case sniff_buffered env act packetBuffers metadata of
        (Some err, md) \<Rightarrow>
          \<lparr>sr_buffer = None, sr_packets = [], sr_fatal = None,
           sr_metadata = sniff_finally env act err md, sr_input = PacketInput script\<rparr>
      | (None, md) \<Rightarrow> sniff_reads env act packetBuffers md script)"

definition actionSniff ::
    "sniff_env \<Rightarrow> RuleActionSniff \<Rightarrow> bytes list \<Rightarrow> packet list \<Rightarrow> InboundContext \<Rightarrow> conn_input \<Rightarrow> sniff_result" where
  "actionSniff env act buffers packetBuffers metadata input =
     (let skipped = \<lparr>sr_buffer = None, sr_packets = [], sr_fatal = None, sr_metadata = metadata, sr_input = input\<rparr> in
      if sniff_Skip metadata then skipped
      else if Protocol metadata \<noteq> [] then skipped
      else case input of
        StreamInput script \<Rightarrow>
          if length (StreamSniffers act) = 0 \<and> length (PacketSniffers act) > 0 then skipped
          else if sniffed_before env act metadata then skipped
          else sniff_stream env act buffers metadata script
      | PacketInput script \<Rightarrow>
          if length (PacketSniffers act) = 0 \<and> length (StreamSniffers act) > 0 then skipped
          else if sniffed_before env act metadata then skipped
          else sniff_packets env act packetBuffers metadata script)"

subsection \<open>Nothing read is lost\<close>

text \<open>The data of a script, in the order it is delivered.\<close>

fun packets_in :: "packet_read list \<Rightarrow> packet list" where
  "packets_in [] = []"
| "packets_in (PacketData b d # rest) = (b, d) # packets_in rest"
| "packets_in (_ # rest) = packets_in rest"

fun bytes_in :: "stream_read list \<Rightarrow> bytes" where
  "bytes_in [] = []"
| "bytes_in (StreamData b # rest) = b @ bytes_in rest"
| "bytes_in (_ # rest) = bytes_in rest"

lemma sniff_reads_packets:
  "sniff_reads env act packets metadata script = r \<Longrightarrow>
     \<exists>script'. sr_input r = PacketInput script' \<and> sr_buffer r = None \<and>
       sr_packets r @ packets_in script' = packets @ packets_in script"
proof (induction env act packets metadata script arbitrary: r rule: sniff_reads.induct)
  case (5 env act packets metadata b d rest)
  obtain err md where p: "sniff_packet env act b metadata = (err, md)" by (metis surj_pair)
  show ?case
  proof (cases "need_more env err")
    case True
    then show ?thesis using 5(1) [OF p [symmetric] refl refl True] 5(2) p by auto
  next
    case False
    then show ?thesis using 5(2) p by auto
  qed
qed auto

lemma PeekStream_loop_bytes:
  "PeekStream_loop env prev sniffers i sniffError metadata buffer script = (err, md, buffer', script') \<Longrightarrow>
     buffer' @ bytes_in script' = buffer @ bytes_in script"
proof (induction env prev sniffers i sniffError metadata buffer script rule: PeekStream_loop.induct)
  case (4 env prev sniffers i sniffError metadata buffer b rest)
  obtain ok err1 md1 where p: "stream_sniffers env (prev @ [buffer @ b]) sniffers None metadata = (ok, err1, md1)"
    by (metis surj_pair)
  show ?case
  proof (cases "\<not> ok \<and> need_more env err1")
    case True
    then show ?thesis using 4(1) [OF refl p [symmetric] refl] 4(2) p by auto
  next
    case False
    then show ?thesis using 4(2) p by (auto simp: Let_def split: if_splits)
  qed
qed (auto split: if_splits)

end
