(* ===== verification/Router.thy ===== *)
theory Router
  imports Sniffing
begin

text \<open>
  The routing of connections (\<open>route/route.go\<close>, \<open>route/process_cache.go\<close>): preparing the metadata,
  the walk over the route rules with its actions, and the decision for stream connections, packet
  connections and packets of a network interface (\<open>PreMatch\<close>). A rule is matched by the rule engine
  (\<open>rule_Match\<close>); the metadata is threaded through the walk.

  The record \<open>router_env\<close> holds what the router reaches through interfaces: address predicates of the
  \<open>sing\<close> library, the process searcher and the neighbour resolver, the fake-IP store of the DNS server
  manager, the reverse mapping, the look-up of the DNS router, and the outbound and inbound managers.
  The sniff actions read from a script of the connection (theory Sniffing). The mutable
  drop counters of the reject actions are a function of the rule index.
\<close>

subsection \<open>Environment\<close>

datatype PreMatchAction =
    PreMatchContinue | PreMatchFlow | PreMatchReject | PreMatchDrop | PreMatchBypass | PreMatchHijackDNS

record outbound_view =
  ov_Tag :: string
  ov_Network :: "string list"
  ov_Now :: "string option"
  ov_PreMatchFlow :: "(string \<Rightarrow> Addr \<Rightarrow> PreMatchAction) option"

record inbound_view =
  iv_TCPInjectable :: bool
  iv_UDPInjectable :: bool

record lookup_options =
  lo_Transport :: "string option"
  lo_Strategy :: DomainStrategy
  lo_DisableCache :: bool
  lo_DisableOptimisticCache :: bool
  lo_RewriteTTL :: "u32 option"
  lo_Timeout :: duration
  lo_ClientSubnet :: Prefix

record router_env =
  re_rules :: rule_env
  re_sets :: "string \<Rightarrow> RuleSetI"
  re_sniff :: sniff_env
  re_IsValid :: "Socksaddr \<Rightarrow> bool"
  re_IsDomain :: "Socksaddr \<Rightarrow> bool"
  re_IsIPv4 :: "Socksaddr \<Rightarrow> bool"
  re_FindProcess :: "(string \<Rightarrow> Addr \<times> u16 \<Rightarrow> Addr \<times> u16 \<Rightarrow> ConnectionOwner result) option"
  re_IsLoopback :: "Addr \<Rightarrow> bool"
  re_MyInterfaceAddress :: "Addr list"
  re_neighbor :: "((Addr \<Rightarrow> bytes option) \<times> (Addr \<Rightarrow> string option)) option"
  re_FakeIP :: "((Addr \<Rightarrow> bool) \<times> (Addr \<Rightarrow> string option)) option"
  re_LookupReverseMapping :: "Addr \<Rightarrow> string option"
  re_Transport :: "string \<Rightarrow> bool"
  re_Lookup :: "InboundContext \<Rightarrow> string \<Rightarrow> lookup_options \<Rightarrow> Addr list result"
  re_Outbound :: "string \<Rightarrow> outbound_view option"
  re_Default :: outbound_view
  re_Inbound :: "string \<Rightarrow> inbound_view option"

definition addr_port :: "Socksaddr \<Rightarrow> Addr \<times> u16" where
  "addr_port s = (sock_Addr s, sock_Port s)"

subsection \<open>Preparing the metadata\<close>

definition isLocalSource :: "router_env \<Rightarrow> Addr \<Rightarrow> bool" where
  "isLocalSource env source \<longleftrightarrow>
     re_IsLoopback env source \<or> List.member (re_MyInterfaceAddress env) source \<or>
     list_ex (\<lambda>netInterface. list_ex (\<lambda>prefix. prefix_Addr prefix = source) (if_Addresses netInterface))
       (env_Interfaces (re_rules env))"

definition searchProcessInfo :: "router_env \<Rightarrow> InboundContext \<Rightarrow> InboundContext" where
  "searchProcessInfo env metadata =
     (case re_FindProcess env of
        None \<Rightarrow> metadata
      | Some find' \<Rightarrow>
          if ProcessInfo metadata \<noteq> None \<or> \<not> isLocalSource env (sock_Addr (Source metadata)) then metadata
          else
            let originDestination =
                  (if re_IsValid env (OriginDestination metadata) then addr_port (OriginDestination metadata)
                   else if env_IsIP (re_rules env) (Destination metadata) then addr_port (Destination metadata)
                   else (AddrInvalid, 0))
            in (case find' (Network metadata) (addr_port (Source metadata)) originDestination of
                  Inl _ \<Rightarrow> metadata
                | Inr processInfo \<Rightarrow> metadata\<lparr>ProcessInfo := Some processInfo\<rparr>))"

definition search_neighbor :: "router_env \<Rightarrow> InboundContext \<Rightarrow> InboundContext" where
  "search_neighbor env metadata =
     (case re_neighbor env of
        None \<Rightarrow> metadata
      | Some (lookupMAC, lookupHostname) \<Rightarrow>
          if SourceMACAddress metadata = None \<and> addr_IsValid (sock_Addr (Source metadata)) then
            let md1 = (case lookupMAC (sock_Addr (Source metadata)) of
                         None \<Rightarrow> metadata | Some mac \<Rightarrow> metadata\<lparr>SourceMACAddress := Some mac\<rparr>)
            in (case lookupHostname (sock_Addr (Source metadata)) of
                  None \<Rightarrow> md1 | Some hostname \<Rightarrow> md1\<lparr>SourceHostname := hostname\<rparr>)
          else metadata)"

definition reverse_mapping :: "router_env \<Rightarrow> InboundContext \<Rightarrow> InboundContext" where
  "reverse_mapping env metadata =
     (if Domain' metadata = [] then
        case re_LookupReverseMapping env (sock_Addr (Destination metadata)) of
          None \<Rightarrow> metadata | Some domain \<Rightarrow> metadata\<lparr>Domain' := domain\<rparr>
      else metadata)"

definition resolve_fakeip :: "router_env \<Rightarrow> InboundContext \<Rightarrow> InboundContext result" where
  "resolve_fakeip env metadata =
     (case re_FakeIP env of
        Some (contains, lookup') \<Rightarrow>
          if addr_IsValid (sock_Addr (Destination metadata)) \<and> contains (sock_Addr (Destination metadata)) then
            (case lookup' (sock_Addr (Destination metadata)) of
               None \<Rightarrow> Inl (ENew ''missing fakeip record, try enable `experimental.cache_file`'')
             | Some domain \<Rightarrow>
                 if domain \<noteq> [] then
                   Inr (metadata\<lparr>OriginDestination := Destination metadata,
                                 Destination := \<lparr>sock_Addr = AddrInvalid, sock_Port = sock_Port (Destination metadata),
                                                 sock_Fqdn = domain\<rparr>,
                                 FakeIP := True\<rparr>)
                 else Inr metadata)
          else Inr (reverse_mapping env metadata)
      | None \<Rightarrow> Inr (reverse_mapping env metadata))"

definition set_ip_version :: "router_env \<Rightarrow> InboundContext \<Rightarrow> InboundContext" where
  "set_ip_version env metadata =
     (if re_IsIPv4 env (Destination metadata) then metadata\<lparr>IPVersion := 4\<rparr>
      else if env_IsIPv6 (re_rules env) (Destination metadata) then metadata\<lparr>IPVersion := 6\<rparr>
      else metadata)"

definition prepareMatchMetadata :: "router_env \<Rightarrow> InboundContext \<Rightarrow> InboundContext result" where
  "prepareMatchMetadata env metadata =
     res_bind (resolve_fakeip env (search_neighbor env (searchProcessInfo env metadata)))
       (\<lambda>md. Inr (set_ip_version env md))"

subsection \<open>Actions\<close>

definition applyRouteOptionsOverride ::
    "router_env \<Rightarrow> RuleActionRouteOptions \<Rightarrow> InboundContext \<Rightarrow> InboundContext" where
  "applyRouteOptionsOverride env routeOptions metadata =
     (let md1 = (if re_IsValid env (act_OverrideAddress routeOptions)
                 then metadata\<lparr>Destination :=
                        \<lparr>sock_Addr = sock_Addr (act_OverrideAddress routeOptions),
                         sock_Port = sock_Port (Destination metadata),
                         sock_Fqdn = sock_Fqdn (act_OverrideAddress routeOptions)\<rparr>\<rparr>
                 else metadata);
          md2 = (if act_OverridePort routeOptions > 0
                 then md1\<lparr>Destination := (Destination md1)\<lparr>sock_Port := act_OverridePort routeOptions\<rparr>\<rparr>
                 else md1)
      in if act_UDPTimeout routeOptions > 0 then md2\<lparr>UDPTimeout := act_UDPTimeout routeOptions\<rparr> else md2)"

definition types_of :: "InterfaceType list option \<Rightarrow> InterfaceType list" where
  "types_of ts = (case ts of None \<Rightarrow> [] | Some ts \<Rightarrow> ts)"

text \<open>The dial settings a route action changes.\<close>

definition apply_dial_options :: "RuleActionRouteOptions \<Rightarrow> InboundContext \<Rightarrow> InboundContext" where
  "apply_dial_options ro md =
     md\<lparr>NetworkStrategy' := if act_NetworkStrategy ro \<noteq> None then act_NetworkStrategy ro else NetworkStrategy' md,
        NetworkType := if length (types_of (act_NetworkType ro)) > 0 then types_of (act_NetworkType ro) else NetworkType md,
        FallbackNetworkType := if length (types_of (act_FallbackNetworkType ro)) > 0
          then types_of (act_FallbackNetworkType ro) else FallbackNetworkType md,
        FallbackDelay := if act_FallbackDelay ro \<noteq> 0 then act_FallbackDelay ro else FallbackDelay md,
        UDPDisableDomainUnmapping := act_UDPDisableDomainUnmapping ro \<or> UDPDisableDomainUnmapping md,
        UDPConnect := act_UDPConnect ro \<or> UDPConnect md,
        UDPTimeout := if act_UDPTimeout ro > 0 then act_UDPTimeout ro else UDPTimeout md,
        TLSFragment := act_TLSFragment ro \<or> TLSFragment md,
        TLSFragmentFallbackDelay := if act_TLSFragment ro then act_TLSFragmentFallbackDelay ro else TLSFragmentFallbackDelay md,
        TLSRecordFragment := act_TLSRecordFragment ro \<or> TLSRecordFragment md,
        TLSSpoof := if act_TLSSpoof ro \<noteq> [] then act_TLSSpoof ro else TLSSpoof md,
        TLSSpoofMethod' := if act_TLSSpoof ro \<noteq> [] then act_TLSSpoofMethod ro else TLSSpoofMethod' md\<rparr>"

definition apply_route_options :: "router_env \<Rightarrow> RuleActionRouteOptions \<Rightarrow> InboundContext \<Rightarrow> InboundContext" where
  "apply_route_options env ro metadata =
     (let md1 = (if (re_IsValid env (act_OverrideAddress ro) \<or> act_OverridePort ro > 0) \<and>
                    \<not> re_IsValid env (RouteOriginalDestination metadata)
                 then metadata\<lparr>RouteOriginalDestination := Destination metadata\<rparr> else metadata);
          md2 = (if re_IsValid env (act_OverrideAddress ro) then md1\<lparr>DestinationAddresses := []\<rparr> else md1)
      in apply_dial_options ro (applyRouteOptionsOverride env ro md2))"

fun routeOptions_of :: "RuleAction \<Rightarrow> RuleActionRouteOptions option" where
  "routeOptions_of (RuleActionRoute _ options) = Some options"
| "routeOptions_of (RuleActionRouteOpts options) = Some options"
| "routeOptions_of (RuleActionBypass outbound options) = (if outbound \<noteq> [] then Some options else None)"
| "routeOptions_of _ = None"

definition actionResolve ::
    "router_env \<Rightarrow> string \<Rightarrow> lookup_options \<Rightarrow> InboundContext \<Rightarrow> InboundContext result" where
  "actionResolve env server options metadata =
     (if re_IsDomain env (Destination metadata) then
        if server \<noteq> [] \<and> \<not> re_Transport env server then Inl (ENew (''DNS server not found: '' @ server))
        else
          res_bind (re_Lookup env metadata (sock_Fqdn (Destination metadata))
              (options\<lparr>lo_Transport := if server \<noteq> [] then Some server else None\<rparr>))
            (\<lambda>addresses. Inr (metadata\<lparr>DestinationAddresses := addresses\<rparr>))
      else Inr metadata)"

fun resolve_options :: "RuleAction \<Rightarrow> lookup_options" where
  "resolve_options (RuleActionResolve server timeout strategy disableCache disableOptimistic rewriteTTL subnet) =
     \<lparr>lo_Transport = None, lo_Strategy = strategy, lo_DisableCache = disableCache,
      lo_DisableOptimisticCache = disableOptimistic, lo_RewriteTTL = rewriteTTL, lo_Timeout = timeout,
      lo_ClientSubnet = subnet\<rparr>"
| "resolve_options _ =
     \<lparr>lo_Transport = None, lo_Strategy = 0, lo_DisableCache = False, lo_DisableOptimisticCache = False,
      lo_RewriteTTL = None, lo_Timeout = 0, lo_ClientSubnet = prefix_zero\<rparr>"

subsection \<open>The walk over the rules\<close>

record match_state =
  ms_metadata :: InboundContext
  ms_buffers :: "bytes list"
  ms_packets :: "packet list"
  ms_input :: conn_input

text \<open>What the second \<open>switch\<close> of \<open>matchRule\<close> does: sniffing and resolving; the error is fatal.\<close>

definition run_action :: "router_env \<Rightarrow> RuleAction \<Rightarrow> match_state \<Rightarrow> error option \<times> match_state" where
  "run_action env act st =
     (case act of
        RuleActionSniffAct sniffAction \<Rightarrow>
          let r = actionSniff (re_sniff env) sniffAction (ms_buffers st) (ms_packets st) (ms_metadata st) (ms_input st);
              st1 = st\<lparr>ms_metadata := sr_metadata r, ms_input := sr_input r\<rparr>;
              st2 = (case sr_buffer r of
                       Some b \<Rightarrow> st1\<lparr>ms_buffers := ms_buffers st1 @ [b]\<rparr>
                     | None \<Rightarrow> st1\<lparr>ms_packets := ms_packets st1 @ sr_packets r\<rparr>)
          in (sr_fatal r, st2)
      | RuleActionResolve server _ _ _ _ _ _ \<Rightarrow>
          (case actionResolve env server (resolve_options act) (ms_metadata st) of
             Inl e \<Rightarrow> (Some e, st)
           | Inr md \<Rightarrow> (None, st\<lparr>ms_metadata := md\<rparr>))
      | _ \<Rightarrow> (None, st))"

text \<open>The actions that end the walk.\<close>

definition ends_walk :: "RuleAction \<Rightarrow> bool" where
  "ends_walk act \<longleftrightarrow>
     action_Type act = ''route'' \<or> action_Type act = ''reject'' \<or> action_Type act = ''hijack-dns'' \<or>
     (case act of RuleActionBypass outbound _ \<Rightarrow> outbound \<noteq> [] | _ \<Rightarrow> False)"

fun matchRule_loop ::
    "router_env \<Rightarrow> nat \<Rightarrow> Rule list \<Rightarrow> match_state \<Rightarrow> (Rule \<times> nat) option result \<times> match_state" where
  "matchRule_loop env i [] st = (Inr None, st)"
| "matchRule_loop env i (rule # rules) st =
     (let (matched, md) = rule_Match (re_rules env) (re_sets env) rule (ResetRuleCache (ms_metadata st));
          st1 = st\<lparr>ms_metadata := md\<rparr>
      in if \<not> matched then matchRule_loop env (Suc i) rules st1
         else case rule_Action rule of
           None \<Rightarrow> (Inl (EPanic ''nil action''), st1)
         | Some act \<Rightarrow>
             let st2 = (case routeOptions_of act of
                          None \<Rightarrow> st1 | Some ro \<Rightarrow> st1\<lparr>ms_metadata := apply_route_options env ro (ms_metadata st1)\<rparr>)
             in (case run_action env act st2 of
                   (Some e, st3) \<Rightarrow> (Inl e, st3)
                 | (None, st3) \<Rightarrow>
                     if ends_walk act then (Inr (Some (rule, i)), st3)
                     else matchRule_loop env (Suc i) rules st3))"

definition matchRule ::
    "router_env \<Rightarrow> Rule list \<Rightarrow> InboundContext \<Rightarrow> conn_input \<Rightarrow> (Rule \<times> nat) option result \<times> match_state" where
  "matchRule env rules metadata input =
     (let st = \<lparr>ms_metadata = metadata, ms_buffers = [], ms_packets = [], ms_input = input\<rparr> in
      case prepareMatchMetadata env metadata of
        Inl e \<Rightarrow> (Inl e, st)
      | Inr md \<Rightarrow> matchRule_loop env 0 rules (st\<lparr>ms_metadata := md\<rparr>))"

subsection \<open>Connections\<close>

datatype route_outcome =
    RouteError error
  | Injected string InboundContext
  | HijackedDNS InboundContext "bytes list" "packet list"
  | Rejected "reject_error option"
  | Routed outbound_view InboundContext "bytes list" "packet list"

text \<open>
  The loop that puts the buffered payload in front of the connection again, one wrapper per buffer;
  \<open>NewCached\<close> is \<open>bufio.NewCachedConn\<close> or \<open>bufio.NewCachedPacketConn\<close> of the \<open>sing\<close> library.
\<close>

fun cache_buffers :: "('b \<Rightarrow> 'c \<Rightarrow> 'c) \<Rightarrow> 'b list \<Rightarrow> 'c \<Rightarrow> 'c" where
  "cache_buffers NewCached [] conn = conn"
| "cache_buffers NewCached (buffer # rest) conn = cache_buffers NewCached rest (NewCached buffer conn)"

text \<open>What \<open>hijackDNSStream\<close> and \<open>hijackDNSPacket\<close> change in the metadata.\<close>

definition hijack_metadata :: "router_env \<Rightarrow> string \<Rightarrow> InboundContext \<Rightarrow> InboundContext" where
  "hijack_metadata env network metadata =
     (let md = searchProcessInfo env metadata in
      if network = ''tcp'' then md\<lparr>Destination := socksaddr_zero\<rparr> else md)"

text \<open>Looking up the outbound of an action, which must support the network.\<close>

definition named_outbound :: "router_env \<Rightarrow> string \<Rightarrow> string \<Rightarrow> string \<Rightarrow> outbound_view result" where
  "named_outbound env network name tag =
     (case re_Outbound env tag of
        None \<Rightarrow> Inl (ENew (''outbound not found: '' @ tag))
      | Some out \<Rightarrow>
          if List.member (ov_Network out) network then Inr out
          else Inl (ENew (name @ '' is not supported by outbound: '' @ ov_Tag out)))"

definition finish_route :: "router_env \<Rightarrow> Rule option \<Rightarrow> outbound_view \<Rightarrow> match_state \<Rightarrow> route_outcome" where
  "finish_route env selected out st =
     Routed out
       ((ms_metadata st)\<lparr>RouteRule := (case selected of None \<Rightarrow> RouteRule (ms_metadata st) | Some rule \<Rightarrow> rule_String (re_rules env) rule),
                         RouteOutbound := ov_Tag out\<rparr>)
       (ms_buffers st) (ms_packets st)"

definition default_route :: "router_env \<Rightarrow> string \<Rightarrow> string \<Rightarrow> match_state \<Rightarrow> route_outcome" where
  "default_route env network msg st =
     (if List.member (ov_Network (re_Default env)) network then finish_route env None (re_Default env) st
      else RouteError (ENew (msg @ ov_Tag (re_Default env))))"

text \<open>
  The decision after the walk. \<open>name\<close> is the protocol name in the messages and \<open>msg\<close> the message for
  an unsuitable default outbound; a selected rule whose action yields no outbound leaves the outbound
  nil, which the code then dereferences.
\<close>

definition decide ::
    "router_env \<Rightarrow> string \<Rightarrow> string \<Rightarrow> string \<Rightarrow> duration \<Rightarrow> (nat \<Rightarrow> duration list) \<Rightarrow> (Rule \<times> nat) option \<Rightarrow> match_state \<Rightarrow>
     route_outcome \<times> (nat \<Rightarrow> duration list)" where
  "decide env network name msg now counters selected st =
     (case selected of
        None \<Rightarrow> (default_route env network msg st, counters)
      | Some (rule, i) \<Rightarrow>
          (case rule_Action rule of
             Some (RuleActionRoute tag _) \<Rightarrow>
               (case named_outbound env network name tag of
                  Inl e \<Rightarrow> (RouteError e, counters) | Inr out \<Rightarrow> (finish_route env (Some rule) out st, counters))
           | Some (RuleActionBypass tag _) \<Rightarrow>
               if tag = [] then (RouteError (EPanic ''nil outbound''), counters)
               else (case named_outbound env network name tag of
                  Inl e \<Rightarrow> (RouteError e, counters) | Inr out \<Rightarrow> (finish_route env (Some rule) out st, counters))
           | Some (RuleActionReject method noDrop) \<Rightarrow>
               if method = ''reply''
               then (RouteError (ENew (''reject method `reply` is not supported for '' @ name @ '' connections'')), counters)
               else (let (r, counter) = RuleActionReject_Error method noDrop now (counters i);
                         counters' = counters(i := counter)
                     in (case r of Inl e \<Rightarrow> (RouteError e, counters') | Inr err \<Rightarrow> (Rejected err, counters')))
           | Some RuleActionHijackDNS \<Rightarrow>
               (HijackedDNS (hijack_metadata env network (ms_metadata st)) (ms_buffers st) (ms_packets st), counters)
           | _ \<Rightarrow> (RouteError (EPanic ''nil outbound''), counters)))"

definition inject_detour ::
    "router_env \<Rightarrow> string \<Rightarrow> (inbound_view \<Rightarrow> bool) \<Rightarrow> InboundContext \<Rightarrow> route_outcome" where
  "inject_detour env name injectable metadata =
     (let detour = InboundDetour metadata in
      if LastInbound metadata = detour then RouteError (ENew (''routing loop on detour: '' @ detour))
      else case re_Inbound env detour of
        None \<Rightarrow> RouteError (ENew (''inbound detour not found: '' @ detour))
      | Some inb \<Rightarrow>
          if \<not> injectable inb then RouteError (ENew (''inbound detour is not '' @ name @ '' injectable: '' @ detour))
          else Injected detour
            (metadata\<lparr>LastInbound := Inbound metadata, Inbound := detour, InboundDetour := []\<rparr>))"

definition routeConnection ::
    "router_env \<Rightarrow> (string \<Rightarrow> error option) \<Rightarrow> Rule list \<Rightarrow> duration \<Rightarrow> (nat \<Rightarrow> duration list) \<Rightarrow> InboundContext \<Rightarrow>
     stream_read list \<Rightarrow> route_outcome \<times> (nat \<Rightarrow> duration list)" where
  "routeConnection env reserved rules now counters metadata script =
     (if InboundDetour metadata \<noteq> [] then (inject_detour env ''TCP'' iv_TCPInjectable metadata, counters)
      else
        let md = metadata\<lparr>Network := ''tcp''\<rparr> in
        case reserved (sock_Fqdn (Destination md)) of
          Some e \<Rightarrow> (RouteError e, counters)
        | None \<Rightarrow>
            if InboundType md = ''tun'' \<and> Protocol md = ''dns''
            then (HijackedDNS (hijack_metadata env ''tcp'' md) [] [], counters)
            else (case matchRule env rules md (StreamInput script) of
                    (Inl e, _) \<Rightarrow> (RouteError e, counters)
                  | (Inr selected, st) \<Rightarrow>
                      decide env ''tcp'' ''TCP'' ''TCP is not supported by default outbound: '' now counters selected st))"

definition routePacketConnection ::
    "router_env \<Rightarrow> Rule list \<Rightarrow> duration \<Rightarrow> (nat \<Rightarrow> duration list) \<Rightarrow> InboundContext \<Rightarrow>
     packet_read list \<Rightarrow> route_outcome \<times> (nat \<Rightarrow> duration list)" where
  "routePacketConnection env rules now counters metadata script =
     (if InboundDetour metadata \<noteq> [] then (inject_detour env ''UDP'' iv_UDPInjectable metadata, counters)
      else
        let md = metadata\<lparr>Network := ''udp''\<rparr> in
        if InboundType md = ''tun'' \<and> Protocol md = ''dns''
        then (HijackedDNS (hijack_metadata env ''udp'' md) [] [], counters)
        else (case matchRule env rules md (PacketInput script) of
                (Inl e, _) \<Rightarrow> (RouteError e, counters)
              | (Inr selected, st) \<Rightarrow>
                  decide env ''udp'' ''UDP'' ''UDP is not supported by outbound: '' now counters selected st))"

subsection \<open>Pre-matching packets\<close>

record PreMatchResult =
  pm_Action :: PreMatchAction
  pm_Outbound :: "outbound_view option"
  pm_Destination :: "(Addr \<times> u16) option"
  pm_UDPTimeout :: duration

definition pm_result :: "PreMatchAction \<Rightarrow> PreMatchResult" where
  "pm_result a = \<lparr>pm_Action = a, pm_Outbound = None, pm_Destination = None, pm_UDPTimeout = 0\<rparr>"

definition PortProtocols :: "u16 \<Rightarrow> string" where
  "PortProtocols port =
     (if port = 53 then ''dns'' else if port = 123 then ''ntp'' else if port = 3478 then ''stun''
      else if port = 443 then ''quic'' else [])"

definition ProtocolTimeouts :: "string \<Rightarrow> duration" where
  "ProtocolTimeouts protocol =
     (if List.member [''dns'', ''ntp'', ''stun''] protocol then 10 * second
      else if List.member [''quic'', ''dtls''] protocol then 30 * second else 0)"

text \<open>The selected outbound of nested groups, at most eight deep.\<close>

fun follow_group :: "router_env \<Rightarrow> nat \<Rightarrow> outbound_view \<Rightarrow> outbound_view option" where
  "follow_group env 0 out = Some out"
| "follow_group env (Suc n) out =
     (case ov_Now out of
        None \<Rightarrow> Some out
      | Some tag \<Rightarrow> (case re_Outbound env tag of None \<Rightarrow> None | Some out' \<Rightarrow> follow_group env n out'))"

definition flow_timeout :: "InboundContext \<Rightarrow> duration" where
  "flow_timeout metadata =
     (if Network metadata = ''udp'' then
        if UDPTimeout metadata > 0 then UDPTimeout metadata
        else
          let protocol = (if Protocol metadata = [] then PortProtocols (sock_Port (Destination metadata))
                          else Protocol metadata)
          in if protocol \<noteq> [] then ProtocolTimeouts protocol else 0
      else 0)"

definition flow_to ::
    "router_env \<Rightarrow> InboundContext \<Rightarrow> Socksaddr \<Rightarrow> outbound_view \<Rightarrow> (string \<Rightarrow> Addr \<Rightarrow> PreMatchAction) \<Rightarrow> PreMatchResult" where
  "flow_to env metadata packetDestination out flow =
     (let decided = (\<lambda>a. \<lparr>pm_Action = a, pm_Outbound = Some out, pm_Destination = None, pm_UDPTimeout = 0\<rparr>);
          flowAction = flow (Network metadata) (sock_Addr (Destination metadata));
          result = (decided PreMatchFlow)\<lparr>pm_UDPTimeout := flow_timeout metadata\<rparr>
      in if flowAction \<noteq> PreMatchFlow then decided flowAction
         else if re_IsDomain env (Destination metadata) then
           if \<not> FakeIP metadata then pm_result PreMatchContinue
           else (case find (\<lambda>a. addr_Is4 a = re_IsIPv4 env packetDestination) (DestinationAddresses metadata) of
                   None \<Rightarrow> pm_result PreMatchReject
                 | Some a \<Rightarrow>
                     if \<not> addr_IsValid a then pm_result PreMatchReject
                     else if flow (Network metadata) a \<noteq> PreMatchFlow then decided (flow (Network metadata) a)
                     else result\<lparr>pm_Destination := Some (a, sock_Port (Destination metadata))\<rparr>)
         else if Destination metadata \<noteq> packetDestination
         then result\<lparr>pm_Destination := Some (addr_port (Destination metadata))\<rparr>
         else result)"

definition preMatchFlow :: "router_env \<Rightarrow> InboundContext \<Rightarrow> Socksaddr \<Rightarrow> string \<Rightarrow> PreMatchResult" where
  "preMatchFlow env metadata packetDestination outboundTag =
     (case (if outboundTag = [] then Some (re_Default env) else re_Outbound env outboundTag) of
        None \<Rightarrow> pm_result PreMatchContinue
      | Some out0 \<Rightarrow>
          (case follow_group env 8 out0 of
             None \<Rightarrow> pm_result PreMatchContinue
           | Some out \<Rightarrow>
               if \<not> List.member (ov_Network out) (Network metadata) then pm_result PreMatchContinue
               else (case ov_PreMatchFlow out of
                       None \<Rightarrow> pm_result PreMatchContinue
                     | Some flow \<Rightarrow> flow_to env metadata packetDestination out flow)))"

text \<open>The sniff action on the first packet: \<open>None\<close> when the packet must go through the connection.\<close>

definition prematch_sniff :: "router_env \<Rightarrow> RuleActionSniff \<Rightarrow> bytes \<Rightarrow> InboundContext \<Rightarrow> InboundContext option" where
  "prematch_sniff env act firstPacket metadata =
     (if Network metadata = ''icmp'' then Some metadata
      else if Network metadata \<noteq> ''udp'' \<or> length firstPacket = 0 then None
      else if sniff_Skip metadata \<or> Protocol metadata \<noteq> [] then Some metadata
      else if length (PacketSniffers act) = 0 \<and> length (StreamSniffers act) > 0 then Some metadata
      else if SnifferNames metadata = SnifferNames_of act \<and> SniffError metadata \<noteq> None then Some metadata
      else
        let sniffers = (if length (PacketSniffers act) = 0 then defaultPacketSniffers else PacketSniffers act);
            (err, md) = PeekPacket (re_sniff env) metadata firstPacket sniffers;
            md1 = md\<lparr>SnifferNames := SnifferNames_of act, SniffError := err\<rparr>
        in if err \<noteq> None then if need_more (re_sniff env) err then None else Some md1
           else Some (override_destination (re_sniff env) act md1))"

fun PreMatch_loop ::
    "router_env \<Rightarrow> duration \<Rightarrow> Socksaddr \<Rightarrow> bytes \<Rightarrow> nat \<Rightarrow> Rule list \<Rightarrow> (nat \<Rightarrow> duration list) \<Rightarrow> InboundContext \<Rightarrow>
     PreMatchResult result \<times> (nat \<Rightarrow> duration list)" where
  "PreMatch_loop env now dest firstPacket i [] counters metadata = (Inr (preMatchFlow env metadata dest []), counters)"
| "PreMatch_loop env now dest firstPacket i (rule # rules) counters metadata =
     (let (matched, md) = rule_Match (re_rules env) (re_sets env) rule (ResetRuleCache metadata);
          next' = PreMatch_loop env now dest firstPacket (Suc i) rules counters
      in if \<not> matched then next' md
         else case rule_Action rule of
           Some (RuleActionSniffAct act) \<Rightarrow>
             (case prematch_sniff env act firstPacket md of
                None \<Rightarrow> (Inr (pm_result PreMatchContinue), counters) | Some md1 \<Rightarrow> next' md1)
         | Some (RuleActionRouteOpts ro) \<Rightarrow> next' (applyRouteOptionsOverride env ro md)
         | Some (RuleActionRoute tag ro) \<Rightarrow>
             (Inr (preMatchFlow env (applyRouteOptionsOverride env ro md) dest tag), counters)
         | Some (RuleActionBypass tag ro) \<Rightarrow>
             (let md1 = applyRouteOptionsOverride env ro md;
                  moved = (re_IsDomain env (Destination md1) \<or> Destination md1 \<noteq> dest);
                  r = preMatchFlow env md1 dest tag
              in (Inr (if tag = [] then pm_result (if moved then PreMatchContinue else PreMatchBypass)
                       else if moved then r
                       else if pm_Action r \<noteq> PreMatchFlow then pm_result PreMatchBypass
                       else r\<lparr>pm_Action := PreMatchBypass\<rparr>), counters))
         | Some (RuleActionReject method noDrop) \<Rightarrow>
             (let (r, counter) = RuleActionReject_Error method noDrop now (counters i);
                  counters' = counters(i := counter)
              in (case r of
                    Inl e \<Rightarrow> (Inl e, counters')
                  | Inr err \<Rightarrow>
                      (Inr (pm_result (if err = None \<and> Network md = ''icmp'' then PreMatchContinue
                                       else if err = Some ErrDrop then PreMatchDrop else PreMatchReject)), counters')))
         | Some RuleActionHijackDNS \<Rightarrow>
             (Inr (pm_result (if Network md \<noteq> ''udp'' then PreMatchContinue else PreMatchHijackDNS)), counters)
         | Some (RuleActionResolve server a b c d e f) \<Rightarrow>
             (case actionResolve env server (resolve_options (RuleActionResolve server a b c d e f)) md of
                Inl _ \<Rightarrow> (Inr (pm_result PreMatchReject), counters) | Inr md1 \<Rightarrow> next' md1)
         | _ \<Rightarrow> (Inr (pm_result PreMatchContinue), counters))"

definition Router_PreMatch ::
    "router_env \<Rightarrow> Rule list \<Rightarrow> duration \<Rightarrow> (nat \<Rightarrow> duration list) \<Rightarrow> InboundContext \<Rightarrow> bytes \<Rightarrow>
     PreMatchResult result \<times> (nat \<Rightarrow> duration list)" where
  "Router_PreMatch env rules now counters metadata firstPacket =
     (let md = metadata\<lparr>PreMatch := True\<rparr> in
      case prepareMatchMetadata env md of
        Inl _ \<Rightarrow> (Inr (pm_result PreMatchContinue), counters)
      | Inr md1 \<Rightarrow> PreMatch_loop env now (Destination metadata) firstPacket 0 rules counters md1)"

end
