(* ===== verification/RouterLaws.thy ===== *)
theory RouterLaws
  imports Router RuleProperties RuleBuild FakeIPTransport
begin

text \<open>
  Laws of the router: without sniffing, resolving and route options the walk selects the first
  matching rule with a final action, whatever the rules before it are; the payload a sniff action
  reads is forwarded; rules built from decoded options never lead the router into a nil action or a
  nil outbound. \<open>selects_only\<close> are the rules whose actions neither read nor change anything,
  \<open>matchRule_loop_cases\<close> and \<open>matchRule_loop_invariant\<close> are the rules of the walk.
\<close>

subsection \<open>The first matching rule\<close>

text \<open>Rules whose action only selects.\<close>

definition selects_only :: "Rule \<Rightarrow> bool" where
  "selects_only rule \<longleftrightarrow>
     (case rule_Action rule of
        Some act \<Rightarrow> action_Type act \<noteq> ''sniff'' \<and> action_Type act \<noteq> ''resolve'' \<and> action_Type act \<noteq> ''route-options''
      | None \<Rightarrow> False)"

definition final_rule :: "Rule \<Rightarrow> bool" where
  "final_rule rule \<longleftrightarrow> (case rule_Action rule of None \<Rightarrow> False | Some act \<Rightarrow> ends_walk act)"

text \<open>The rule that applies to a connection: the first final one that matches.\<close>

fun first_final :: "(Rule \<Rightarrow> bool) \<Rightarrow> nat \<Rightarrow> Rule list \<Rightarrow> (Rule \<times> nat) option" where
  "first_final matches i [] = None"
| "first_final matches i (rule # rules) =
     (if final_rule rule \<and> matches rule then Some (rule, i) else first_final matches (Suc i) rules)"

definition connection_matches :: "router_env \<Rightarrow> InboundContext \<Rightarrow> Rule \<Rightarrow> bool" where
  "connection_matches env md rule = fst (rule_Match (re_rules env) (re_sets env) rule (ResetRuleCache md))"

lemma route_options_not_final:
  "action_Type act \<noteq> ''route-options'' \<Longrightarrow> \<not> ends_walk act \<Longrightarrow> routeOptions_of act = None"
  by (cases act) (auto simp: ends_walk_def)

lemma run_action_pure:
  "action_Type act \<noteq> ''sniff'' \<Longrightarrow> action_Type act \<noteq> ''resolve'' \<Longrightarrow> run_action env act st = (None, st)"
  by (cases act) (auto simp: run_action_def)

lemma matchRule_loop_first:
  assumes frame: "\<And>rule. match_frame (rule_Match (re_rules env) (re_sets env) rule)"
  shows "list_all selects_only rules \<Longrightarrow> ResetRuleCache (ms_metadata st) = ResetRuleCache md0 \<Longrightarrow>
    fst (matchRule_loop env i rules st) = Inr (first_final (connection_matches env md0) i rules)"
proof (induction rules arbitrary: i st)
  case (Cons rule rules)
  obtain matched md where m: "rule_Match (re_rules env) (re_sets env) rule (ResetRuleCache (ms_metadata st)) = (matched, md)"
    by (metis surj_pair)
  have md: "ResetRuleCache md = ResetRuleCache md0"
    using match_frame_cache [OF frame m] Cons.prems(2) by simp
  have cm: "connection_matches env md0 rule = matched"
    using m Cons.prems(2) by (simp add: connection_matches_def)
  obtain act where act: "rule_Action rule = Some act" "action_Type act \<noteq> ''sniff''" "action_Type act \<noteq> ''resolve''"
    "action_Type act \<noteq> ''route-options''"
    using Cons.prems(1) by (auto simp: selects_only_def split: option.splits)
  note IH = Cons.IH [of "st\<lparr>ms_metadata := md\<rparr>" "Suc i"]
  show ?case
  proof (cases "matched \<and> ends_walk act")
    case True
    then show ?thesis
      using m act cm by (auto simp: final_rule_def run_action_pure Let_def split: option.split)
  next
    case False
    then show ?thesis
      using IH m act cm md Cons.prems(1) route_options_not_final [OF act(4)]
      by (auto simp: final_rule_def run_action_pure)
  qed
qed simp

subsection \<open>Payload\<close>

definition is_sniff :: "Rule \<Rightarrow> bool" where
  "is_sniff rule \<longleftrightarrow> (case rule_Action rule of Some (RuleActionSniffAct _) \<Rightarrow> True | _ \<Rightarrow> False)"

text \<open>What has been read is in the buffers, and the rest still in the script.\<close>

definition stream_kept :: "stream_read list \<Rightarrow> match_state \<Rightarrow> bool" where
  "stream_kept script st \<longleftrightarrow> (\<exists>rest. ms_input st = StreamInput rest \<and> concat (ms_buffers st) @ bytes_in rest = bytes_in script)"

definition packets_kept :: "packet_read list \<Rightarrow> match_state \<Rightarrow> bool" where
  "packets_kept script st \<longleftrightarrow> (\<exists>rest. ms_input st = PacketInput rest \<and> ms_packets st @ packets_in rest = packets_in script)"

lemma actionSniff_stream:
  assumes "actionSniff env act buffers packetBuffers md (StreamInput script) = r"
  shows "\<exists>rest. sr_input r = StreamInput rest \<and> sr_packets r = [] \<and>
    (case sr_buffer r of None \<Rightarrow> [] | Some b \<Rightarrow> b) @ bytes_in rest = bytes_in script"
proof -
  obtain err md' buffer rest where p: "PeekStream env md buffers
      (if length (StreamSniffers act) > 0 then StreamSniffers act else defaultStreamSniffers) script = (err, md', buffer, rest)"
    by (metis surj_pair)
  then have "buffer @ bytes_in rest = bytes_in script"
    using PeekStream_loop_bytes by (fastforce simp: PeekStream_def)
  then show ?thesis
    using assms p by (auto simp: actionSniff_def sniff_stream_def Let_def split: if_splits)
qed

lemma run_action_stream:
  assumes "stream_kept script st" "run_action env act st = (err, st')"
  shows "stream_kept script st'"
proof -
  obtain rest where rest: "ms_input st = StreamInput rest" "concat (ms_buffers st) @ bytes_in rest = bytes_in script"
    using assms(1) by (auto simp: stream_kept_def)
  show ?thesis
  proof (cases act)
    case (RuleActionSniffAct a)
    define r where "r = actionSniff (re_sniff env) a (ms_buffers st) (ms_packets st) (ms_metadata st) (ms_input st)"
    obtain rest' where "sr_input r = StreamInput rest'" "(case sr_buffer r of None \<Rightarrow> [] | Some b \<Rightarrow> b) @ bytes_in rest' = bytes_in rest"
      using actionSniff_stream r_def rest(1) by metis
    then show ?thesis
      using assms(2) rest r_def RuleActionSniffAct
      by (auto simp: run_action_def stream_kept_def Let_def split: option.splits)
  qed (use assms in \<open>auto simp: run_action_def stream_kept_def split: sum.splits\<close>)
qed

lemma actionSniff_packets:
  assumes "actionSniff env act buffers [] md (PacketInput script) = r"
  shows "\<exists>rest. sr_input r = PacketInput rest \<and> sr_buffer r = None \<and> sr_packets r @ packets_in rest = packets_in script"
  using assms sniff_reads_packets [of env act "[]" md script]
  by (auto simp: actionSniff_def sniff_packets_def Let_def split: if_splits)

lemma run_action_packets:
  assumes "packets_kept script st" "run_action env act st = (err, st')" "ms_packets st = []"
  shows "packets_kept script st'"
proof -
  obtain rest where rest: "ms_input st = PacketInput rest" "packets_in rest = packets_in script"
    using assms(1,3) by (auto simp: packets_kept_def)
  show ?thesis
  proof (cases act)
    case (RuleActionSniffAct a)
    define r where "r = actionSniff (re_sniff env) a (ms_buffers st) (ms_packets st) (ms_metadata st) (ms_input st)"
    obtain rest' where "sr_input r = PacketInput rest'" "sr_buffer r = None" "sr_packets r @ packets_in rest' = packets_in rest"
      using actionSniff_packets r_def rest(1) assms(3) by metis
    then show ?thesis
      using assms(2,3) rest r_def RuleActionSniffAct by (auto simp: run_action_def packets_kept_def Let_def)
  qed (use assms in \<open>auto simp: run_action_def packets_kept_def split: sum.splits\<close>)
qed

lemma run_action_other:
  assumes "run_action env act st = (err, st')" "\<And>a. act \<noteq> RuleActionSniffAct a"
  shows "ms_packets st' = ms_packets st" "ms_buffers st' = ms_buffers st" "ms_input st' = ms_input st"
  using assms by (cases act; auto simp: run_action_def split: sum.splits)+

text \<open>
  One step of the walk: a rule that does not match is skipped; otherwise its action runs, on the state
  with changed metadata, and ends the walk or not.
\<close>

lemma matchRule_loop_step:
  assumes "rule_Match (re_rules env) (re_sets env) rule (ResetRuleCache (ms_metadata st)) = (True, md)"
    and act: "rule_Action rule = Some act"
  shows "\<exists>md' err st'. run_action env act (st\<lparr>ms_metadata := md'\<rparr>) = (err, st') \<and>
    matchRule_loop env i (rule # rules) st =
      (case err of Some e \<Rightarrow> (Inl e, st')
       | None \<Rightarrow> if ends_walk act then (Inr (Some (rule, i)), st') else matchRule_loop env (Suc i) rules st')"
proof -
  define md' where "md' = (case routeOptions_of act of None \<Rightarrow> md | Some ro \<Rightarrow> apply_route_options env ro md)"
  obtain err st' where r: "run_action env act (st\<lparr>ms_metadata := md'\<rparr>) = (err, st')" by (metis surj_pair)
  then show ?thesis
    using assms by (intro exI [of _ md'] exI [of _ err] exI [of _ st'] conjI)
      (cases err; cases "routeOptions_of act"; simp add: md'_def)+
qed

lemma matchRule_loop_skip:
  "rule_Match (re_rules env) (re_sets env) rule (ResetRuleCache (ms_metadata st)) = (False, md) \<Longrightarrow>
     matchRule_loop env i (rule # rules) st = matchRule_loop env (Suc i) rules (st\<lparr>ms_metadata := md\<rparr>)"
  "rule_Match (re_rules env) (re_sets env) rule (ResetRuleCache (ms_metadata st)) = (True, md) \<Longrightarrow> rule_Action rule = None \<Longrightarrow>
     matchRule_loop env i (rule # rules) st = (Inl (EPanic ''nil action''), st\<lparr>ms_metadata := md\<rparr>)"
  by simp_all

lemma matchRule_loop_cases:
  obtains (skip) md where "matchRule_loop env i (rule # rules) st = matchRule_loop env (Suc i) rules (st\<lparr>ms_metadata := md\<rparr>)"
  | (nil) md where "rule_Action rule = None" "matchRule_loop env i (rule # rules) st = (Inl (EPanic ''nil action''), st\<lparr>ms_metadata := md\<rparr>)"
  | (run) act md err st' where "rule_Action rule = Some act" "run_action env act (st\<lparr>ms_metadata := md\<rparr>) = (err, st')"
      "matchRule_loop env i (rule # rules) st =
        (case err of Some e \<Rightarrow> (Inl e, st')
         | None \<Rightarrow> if ends_walk act then (Inr (Some (rule, i)), st') else matchRule_loop env (Suc i) rules st')"
proof -
  obtain matched md where m: "rule_Match (re_rules env) (re_sets env) rule (ResetRuleCache (ms_metadata st)) = (matched, md)"
    by (metis surj_pair)
  consider "\<not> matched" | "matched" "rule_Action rule = None" | act where "matched" "rule_Action rule = Some act"
    by (cases "rule_Action rule") auto
  then show thesis
  proof cases
    case 1
    then show ?thesis using skip [OF matchRule_loop_skip(1)] m by simp
  next
    case 2
    then show ?thesis using nil [OF 2(2) matchRule_loop_skip(2)] m by simp
  next
    case 3
    then have "rule_Match (re_rules env) (re_sets env) rule (ResetRuleCache (ms_metadata st)) = (True, md)" using m by simp
    from matchRule_loop_step [OF this 3(2)] show ?thesis using run [OF 3(2)] by blast
  qed
qed

text \<open>A property of the rules to come and the state that metadata changes, skipped rules and actions keep.\<close>

lemma matchRule_loop_invariant:
  assumes md: "\<And>rules st md. I rules st \<Longrightarrow> I rules (st\<lparr>ms_metadata := md\<rparr>)"
    and skip: "\<And>rule rules st. I (rule # rules) st \<Longrightarrow> I rules st"
    and run: "\<And>rule rules st act err st'. I (rule # rules) st \<Longrightarrow> rule_Action rule = Some act \<Longrightarrow>
      run_action env act st = (err, st') \<Longrightarrow> I rules st'"
  shows "I rules st \<Longrightarrow> \<exists>rules'. I rules' (snd (matchRule_loop env i rules st))"
proof (induction rules arbitrary: i st)
  case (Cons rule rules)
  show ?case
  proof (cases rule: matchRule_loop_cases [of env i rule rules st])
    case (skip md')
    have "I rules (st\<lparr>ms_metadata := md'\<rparr>)" using md assms(2) Cons.prems by blast
    then show ?thesis using Cons.IH skip by simp
  next
    case (nil md')
    then show ?thesis using md [OF Cons.prems, of md'] by auto
  next
    case (run act md' err st')
    then have "I rules st'" using assms(3) md Cons.prems by blast
    then show ?thesis using Cons.IH run(3) by (cases err) auto
  qed
qed auto

lemma run_action_buffers:
  assumes "run_action env act st = (err, st')"
  shows "length (ms_buffers st') \<le> length (ms_buffers st) + (case act of RuleActionSniffAct _ \<Rightarrow> 1 | _ \<Rightarrow> 0)"
  using assms by (cases act) (auto simp: run_action_def Let_def split: option.splits sum.splits)

lemma matchRule_loop_stream:
  assumes "stream_kept script st" "length (ms_buffers st) + length (filter is_sniff rules) \<le> n"
  shows "stream_kept script (snd (matchRule_loop env i rules st)) \<and> length (ms_buffers (snd (matchRule_loop env i rules st))) \<le> n"
proof -
  let ?I = "\<lambda>rules st. stream_kept script st \<and> length (ms_buffers st) + length (filter is_sniff rules) \<le> n"
  have run: "?I rules st'"
    if I: "?I (rule # rules) st" and act: "rule_Action rule = Some act" and r: "run_action env act st = (err, st')"
    for rule rules st act err st'
  proof -
    have "length (ms_buffers st') \<le> length (ms_buffers st) + (if is_sniff rule then 1 else 0)"
      using run_action_buffers [OF r] act by (cases act) (auto simp: is_sniff_def)
    then show ?thesis using I run_action_stream [OF _ r] by (auto split: if_splits)
  qed
  have skip: "?I rules st" if "?I (rule # rules) st" for rule rules st
    using that by (simp split: if_splits)
  have md: "?I rules (st\<lparr>ms_metadata := md\<rparr>)" if "?I rules st" for rules st md
    using that by (simp add: stream_kept_def)
  have "\<exists>rules'. ?I rules' (snd (matchRule_loop env i rules st))"
    by (rule matchRule_loop_invariant [where I = ?I], erule md, erule skip, erule (2) run) (use assms in simp)
  then show ?thesis by fastforce
qed

lemma matchRule_loop_packets:
  assumes "packets_kept script st" "ms_packets st = []" "length (filter is_sniff rules) \<le> 1"
  shows "packets_kept script (snd (matchRule_loop env i rules st))"
proof -
  let ?I = "\<lambda>rules st. packets_kept script st \<and> length (filter is_sniff rules) \<le> (if ms_packets st = [] then 1 else 0)"
  have run: "?I rules st'"
    if I: "?I (rule # rules) st" and act: "rule_Action rule = Some act" and r: "run_action env act st = (err, st')"
    for rule rules st act err st'
  proof (cases "is_sniff rule")
    case True
    then have "ms_packets st = []" "filter is_sniff rules = []" using I by (auto split: if_splits)
    then show ?thesis using run_action_packets [OF _ r] I by simp
  next
    case False
    then have "\<And>a. act \<noteq> RuleActionSniffAct a" using act by (auto simp: is_sniff_def)
    note other = run_action_other [OF r this]
    show ?thesis using I other False by (simp add: packets_kept_def)
  qed
  have skip: "?I rules st" if "?I (rule # rules) st" for rule rules st
    using that by (simp split: if_splits)
  have md: "?I rules (st\<lparr>ms_metadata := md\<rparr>)" if "?I rules st" for rules st md
    using that by (simp add: packets_kept_def)
  have "\<exists>rules'. ?I rules' (snd (matchRule_loop env i rules st))"
    by (rule matchRule_loop_invariant [where I = ?I], erule md, erule skip, erule (2) run) (use assms in simp)
  then show ?thesis by blast
qed

text \<open>Wrapping puts the buffer that was read last in front.\<close>

lemma cache_buffers_cached:
  "(\<And>b c. NewCached b c = f b @ c) \<Longrightarrow> cache_buffers NewCached buffers conn = concat (map f (rev buffers)) @ conn"
  by (induction buffers arbitrary: conn) simp_all

subsection \<open>Built rules\<close>

text \<open>The actions the decision knows, with a reject method of the documentation.\<close>

definition routable_action :: "RuleAction \<Rightarrow> bool" where
  "routable_action act \<longleftrightarrow>
     (case act of
        RuleActionRoute _ _ \<Rightarrow> True | RuleActionBypass _ _ \<Rightarrow> True | RuleActionRouteOpts _ \<Rightarrow> True
      | RuleActionDirect _ \<Rightarrow> True | RuleActionReject method _ \<Rightarrow> method \<in> {''default'', ''drop'', ''reply''}
      | RuleActionHijackDNS \<Rightarrow> True | RuleActionSniffAct _ \<Rightarrow> True | RuleActionResolve _ _ _ _ _ _ _ \<Rightarrow> True
      | _ \<Rightarrow> False)"

definition routable_rule :: "Rule \<Rightarrow> bool" where
  "routable_rule rule \<longleftrightarrow> (case rule_Action rule of None \<Rightarrow> False | Some act \<Rightarrow> routable_action act)"

text \<open>The action of route rule options, and what the JSON decoder has filled in: an action and a reject method.\<close>

fun options_action :: "Rule_options \<Rightarrow> RuleAction_options" where
  "options_action (Rule_options type' default' action' mode rules inv' laction) =
     (if type' = ''logical'' then laction else action')"

definition decoded_action :: "RuleAction_options \<Rightarrow> bool" where
  "decoded_action a \<longleftrightarrow> ra_Action a \<noteq> [] \<and> rej_Method (ra_RejectOptions a) \<in> {''default'', ''drop'', ''reply''}"

lemma NewRuleAction_routable:
  assumes "NewRuleAction ae a = Inr act" "decoded_action a"
  shows "\<exists>b. act = Some b \<and> routable_action b"
  using assms by (auto simp: NewRuleAction_def decoded_action_def routable_action_def res_bind_Inr_iff Let_def split: if_splits)

lemma NewRule_routable:
  assumes "NewRule env ae o' b = Inr rule" "decoded_action (options_action o')"
  shows "routable_rule rule"
proof -
  obtain t d a m rs inv' la where o': "o' = Rule_options t d a m rs inv' la" by (cases o')
  show ?thesis
  proof (cases "t = [] \<or> t = ''default''")
    case True
    then obtain r where r: "NewDefaultRule env ae d a = Inr r" "rule = DefaultRule r"
      using assms(1) o' by (auto simp: res_bind_Inr_iff split: if_splits)
    have "NewRuleAction ae a = Inr (action r)" using NewDefaultRule_wf [OF r(1)] by auto
    then show ?thesis
      using NewRuleAction_routable [of ae a] assms(2) True r(2) by (auto simp: o' routable_rule_def)
  next
    case False
    then obtain act where "NewRuleAction ae la = Inr act" "rule_Action rule = act" "t = ''logical''"
      using assms(1) o' by (auto simp: res_bind_Inr_iff split: if_splits)
    then show ?thesis
      using NewRuleAction_routable [of ae la] assms(2) by (auto simp: o' routable_rule_def)
  qed
qed

text \<open>The rule the walk selects is one of the rules, and its action ends the walk.\<close>

lemma matchRule_loop_selected:
  "fst (matchRule_loop env i rules st) = Inr (Some (rule, j)) \<Longrightarrow>
     rule \<in> set rules \<and> (\<exists>act. rule_Action rule = Some act \<and> ends_walk act)"
proof (induction rules arbitrary: i st)
  case (Cons r rules)
  show ?case
  proof (cases rule: matchRule_loop_cases [of env i r rules st])
    case (run act md' err st')
    then show ?thesis using Cons by (cases err) (auto split: if_splits)
  qed (use Cons in \<open>auto simp del: matchRule_loop.simps\<close>)
qed simp

text \<open>Errors that are panics of the code, as opposed to errors it returns.\<close>

definition is_panic :: "error \<Rightarrow> bool" where
  "is_panic e \<longleftrightarrow> (\<exists>m. e = EPanic m)"

lemma is_panic_simps [simp]: "\<not> is_panic (ENew m)" "\<not> is_panic (ECause m e)" "is_panic (EPanic m)"
  by (simp_all add: is_panic_def)

lemma named_outbound_no_panic: "named_outbound env network name tag = Inl e \<Longrightarrow> \<not> is_panic e"
  by (auto simp: named_outbound_def is_panic_def split: option.splits if_splits)

lemma decide_no_panic:
  assumes "\<And>rule i. selected = Some (rule, i) \<Longrightarrow> \<exists>act. rule_Action rule = Some act \<and> routable_action act \<and> ends_walk act"
    and "fst (decide env network name msg now counters selected st) = RouteError e"
  shows "\<not> is_panic e"
proof (cases selected)
  case None
  then show ?thesis using assms(2) by (auto simp: decide_def default_route_def finish_route_def is_panic_def split: if_splits)
next
  case (Some p)
  then obtain rule i act where act: "selected = Some (rule, i)" "rule_Action rule = Some act" "routable_action act" "ends_walk act"
    using assms(1) by (metis surj_pair)
  show ?thesis
  proof (cases act)
    case (RuleActionReject rejectMethod noDrop)
    then show ?thesis
      using act assms(2)
      by (auto simp: decide_def routable_action_def RuleActionReject_Error_def is_panic_def Let_def split: if_splits)
  qed (use act assms(2) named_outbound_no_panic in
      \<open>auto simp: decide_def routable_action_def ends_walk_def finish_route_def split: sum.splits if_splits\<close>)
qed

text \<open>The errors a connection's reads can deliver are errors, not panics; sniffing only shortens the script.\<close>

definition read_error :: "packet_read \<Rightarrow> error option" where
  "read_error r = (case r of PacketErr e \<Rightarrow> Some e | PacketCanceled e \<Rightarrow> Some e | _ \<Rightarrow> None)"

definition clean_input :: "conn_input \<Rightarrow> bool" where
  "clean_input input \<longleftrightarrow>
     (case input of StreamInput _ \<Rightarrow> True
      | PacketInput script \<Rightarrow> list_all (\<lambda>r. case read_error r of None \<Rightarrow> True | Some e \<Rightarrow> \<not> is_panic e) script)"

lemma sniff_reads_clean:
  "clean_input (PacketInput script) \<Longrightarrow> sniff_reads env act packets metadata script = r \<Longrightarrow>
     clean_input (sr_input r) \<and> (\<forall>e. sr_fatal r = Some e \<longrightarrow> \<not> is_panic e)"
proof (induction env act packets metadata script arbitrary: r rule: sniff_reads.induct)
  case (5 env act packets metadata b d rest)
  obtain err md where p: "sniff_packet env act b metadata = (err, md)" by (metis surj_pair)
  show ?case
  proof (cases "need_more env err")
    case True
    then show ?thesis using 5(1) [OF p [symmetric] refl refl True] 5(2,3) p by (auto simp: clean_input_def read_error_def)
  next
    case False
    then show ?thesis using 5(2,3) p by (auto simp: clean_input_def read_error_def)
  qed
qed (auto simp: clean_input_def read_error_def)

lemma actionSniff_clean:
  assumes "clean_input input" "actionSniff env act buffers packets md input = r"
  shows "clean_input (sr_input r) \<and> (\<forall>e. sr_fatal r = Some e \<longrightarrow> \<not> is_panic e)"
proof (cases input)
  case (StreamInput script)
  then show ?thesis using assms
    by (auto simp: actionSniff_def sniff_stream_def clean_input_def Let_def split: if_splits prod.splits)
next
  case (PacketInput script)
  then show ?thesis using assms sniff_reads_clean
    by (auto simp: actionSniff_def sniff_packets_def Let_def split: if_splits prod.splits option.splits)
qed

definition lookups_return :: "router_env \<Rightarrow> bool" where
  "lookups_return env \<longleftrightarrow> (\<forall>md domain options e. re_Lookup env md domain options = Inl e \<longrightarrow> \<not> is_panic e)"

lemma lookups_returnD: "lookups_return env \<Longrightarrow> re_Lookup env md domain options = Inl e \<Longrightarrow> \<not> is_panic e"
  unfolding lookups_return_def by blast

lemma run_action_clean:
  assumes "lookups_return env"
    and "clean_input (ms_input st)" "run_action env act st = (err, st')"
  shows "clean_input (ms_input st') \<and> (\<forall>e. err = Some e \<longrightarrow> \<not> is_panic e)"
proof (cases act)
  case (RuleActionSniffAct a)
  define r where "r = actionSniff (re_sniff env) a (ms_buffers st) (ms_packets st) (ms_metadata st) (ms_input st)"
  have "clean_input (sr_input r) \<and> (\<forall>e. sr_fatal r = Some e \<longrightarrow> \<not> is_panic e)"
    using actionSniff_clean [OF assms(2)] r_def by blast
  then show ?thesis
    using assms(3) RuleActionSniffAct r_def by (auto simp: run_action_def Let_def split: option.splits)
next
  case (RuleActionResolve server)
  then show ?thesis
    using assms(2,3) by (auto simp: run_action_def actionResolve_def res_bind_def split: sum.splits if_splits dest: lookups_returnD [OF assms(1)])
qed (use assms in \<open>auto simp: run_action_def\<close>)

lemma matchRule_loop_no_panic:
  assumes "lookups_return env"
  shows "list_all routable_rule rules \<Longrightarrow> clean_input (ms_input st) \<Longrightarrow>
    fst (matchRule_loop env i rules st) = Inl e \<Longrightarrow> \<not> is_panic e"
proof (induction rules arbitrary: i st)
  case (Cons r rules)
  show ?case
  proof (cases rule: matchRule_loop_cases [of env i r rules st])
    case (skip md)
    then show ?thesis using Cons.IH [of "st\<lparr>ms_metadata := md\<rparr>" "Suc i"] Cons.prems by simp
  next
    case (nil md)
    then show ?thesis using Cons.prems(1) by (simp add: routable_rule_def)
  next
    case (run act md err st')
    have "clean_input (ms_input st') \<and> (\<forall>e. err = Some e \<longrightarrow> \<not> is_panic e)"
      by (rule run_action_clean [OF assms _ run(2)]) (use Cons.prems(2) in auto)
    then show ?thesis using Cons.IH [of st' "Suc i"] Cons.prems(1,3) run(3) by (cases err) (auto split: if_splits)
  qed
qed simp

lemma matchRule_no_panic:
  assumes "lookups_return env"
    and "list_all routable_rule rules" "clean_input input" "fst (matchRule env rules md input) = Inl e"
  shows "\<not> is_panic e"
proof (cases "prepareMatchMetadata env md")
  case (Inl e')
  then show ?thesis using assms(4)
    by (auto simp: matchRule_def prepareMatchMetadata_def resolve_fakeip_def res_bind_def is_panic_def Let_def
        split: option.splits if_splits sum.splits)
next
  case (Inr md')
  then show ?thesis
    using matchRule_loop_no_panic [where e = e and i = 0 and st = "\<lparr>ms_metadata = md', ms_buffers = [], ms_packets = [], ms_input = input\<rparr>",
        OF assms(1,2)] assms(3,4) by (simp add: matchRule_def Let_def)
qed

lemma matchRule_selected:
  assumes "matchRule env rules md input = (Inr (Some (rule, j)), st)" "list_all routable_rule rules"
  shows "\<exists>act. rule_Action rule = Some act \<and> routable_action act \<and> ends_walk act"
proof -
  obtain i st0 where "fst (matchRule_loop env i rules st0) = Inr (Some (rule, j))"
    using assms(1) by (auto simp: matchRule_def Let_def split: sum.splits) (metis fst_conv)
  from matchRule_loop_selected [OF this] show ?thesis
    using assms(2) by (auto simp: routable_rule_def list_all_iff split: option.splits)
qed

end
