(* ===== verification/RouterProperties.thy ===== *)
theory RouterProperties
  imports RouterLaws DNSRules "HOL-Library.Multiset"
begin

text \<open>
  The properties of the router: which rule is selected, that built rules never panic, that sniffed
  payload is forwarded (and the cases in which it is forwarded in the wrong order or twice), and that a connection to
  a fake address is routed by the name the address was handed out for.
\<close>

subsection \<open>A sample router\<close>

definition sample_outbound :: "string \<Rightarrow> outbound_view" where
  "sample_outbound tag = \<lparr>ov_Tag = tag, ov_Network = [''tcp'', ''udp''], ov_Now = None, ov_PreMatchFlow = None\<rparr>"

text \<open>Its sniffers always ask for more data.\<close>

definition sample_sniff :: sniff_env where
  "sample_sniff =
     \<lparr>se_sniffer = (\<lambda>_ md _. (Some (ENew ''need more data''), md)),
      se_Errors = (\<lambda>es. if list_all (\<lambda>e. e = None) es then None else Some (ENew ''need more data'')),
      se_NeedMore = (\<lambda>e. e = ENew ''need more data''), se_IsDomainName = (\<lambda>_. True)\<rparr>"

definition sample_router :: "((Addr \<Rightarrow> bool) \<times> (Addr \<Rightarrow> string option)) option \<Rightarrow> router_env" where
  "sample_router fakeip =
     \<lparr>re_rules = sample_env, re_sets = router_sets sample_env Map.empty, re_sniff = sample_sniff,
      re_IsValid = (\<lambda>s. addr_IsValid (sock_Addr s) \<or> sock_Fqdn s \<noteq> []),
      re_IsDomain = (\<lambda>s. sock_Fqdn s \<noteq> []), re_IsIPv4 = (\<lambda>s. addr_Is4 (sock_Addr s)),
      re_FindProcess = None, re_IsLoopback = (\<lambda>_. False), re_MyInterfaceAddress = [], re_neighbor = None,
      re_FakeIP = fakeip, re_LookupReverseMapping = (\<lambda>_. None), re_Transport = (\<lambda>_. False),
      re_Lookup = (\<lambda>_ _ _. Inr []), re_Outbound = (\<lambda>tag. Some (sample_outbound tag)),
      re_Default = sample_outbound ''direct'', re_Inbound = (\<lambda>_. None)\<rparr>"

text \<open>A rule without conditions, which matches every connection.\<close>

definition always :: "RuleAction \<Rightarrow> Rule" where
  "always act = DefaultRule (empty_rule\<lparr>action := Some act\<rparr>)"

lemma always_matches [simp]:
  "rule_Match env sets (always act) md = (True, md)" "rule_Action (always act) = Some act"
  by (simp_all add: always_def empty_rule_def abstractDefaultRule_Match_def)

lemma sample_router_prepared:
  "prepareMatchMetadata (sample_router None) zero_context = Inr zero_context"
  by (simp add: prepareMatchMetadata_def searchProcessInfo_def search_neighbor_def resolve_fakeip_def reverse_mapping_def
      set_ip_version_def sample_router_def sample_env_def zero_context_def)

definition sample_sniff_action :: "string list \<Rightarrow> Sniffer list \<Rightarrow> Sniffer list \<Rightarrow> RuleActionSniff" where
  "sample_sniff_action names streams packets =
     \<lparr>SnifferNames_of = names, StreamSniffers = streams, PacketSniffers = packets, Sniff_Timeout = 0, OverrideDestination = False\<rparr>"

subsection \<open>Properties\<close>

text \<open>
  C7: when no rule sniffs, resolves or sets route options, the rule selected for a connection is the
  first one that matches the prepared metadata and whose action is final (route, reject, hijack-dns,
  or bypass with an outbound). The rules before it and what their matching leaves in the rule cache
  have no influence. A \<open>direct\<close> action is not final: such a rule is passed over.
\<close>

theorem first_final_rule_selected:
  assumes "re_sets env = router_sets (re_rules env) ruleSets" "prepareMatchMetadata env md = Inr md0"
    and "list_all selects_only rules"
  shows "fst (matchRule env rules md input) = Inr (first_final (connection_matches env md0) 0 rules)"
proof -
  have "match_frame (rule_Match (re_rules env) (re_sets env) rule)" for rule
    using router.rule_Match_frame assms(1) by simp
  from matchRule_loop_first [OF this assms(3)] show ?thesis
    using assms(2) by (simp add: matchRule_def Let_def)
qed

theorem first_final_rule_selected_witness:
  "fst (matchRule (sample_router None) [always (RuleActionDirect []), always RuleActionHijackDNS] zero_context (StreamInput [])) =
     Inr (Some (always RuleActionHijackDNS, 1))"
  by (subst first_final_rule_selected [where ruleSets = Map.empty, OF _ sample_router_prepared])
    (simp_all add: sample_router_def selects_only_def final_rule_def ends_walk_def connection_matches_def)


definition sample_route_options :: Rule_options where
  "sample_route_options =
     Rule_options [] raw_rule_zero
       (rule_action_zero\<lparr>ra_Action := ''hijack-dns'', ra_RejectOptions := (ra_RejectOptions rule_action_zero)\<lparr>rej_Method := ''default''\<rparr>\<rparr>)
       [] [] False rule_action_zero"

definition sample_action_env :: action_env where
  "sample_action_env =
     \<lparr>ae_ParseSocksaddrHostPort = (\<lambda>host port. \<lparr>sock_Addr = AddrInvalid, sock_Port = port, sock_Fqdn = host\<rparr>),
      ae_SocksaddrIsValid = (\<lambda>s. addr_IsValid (sock_Addr s) \<or> sock_Fqdn s \<noteq> []), ae_AddrString = sock_Fqdn,
      ae_IPString = (\<lambda>_. ''address''), ae_DurationString = (\<lambda>_. ''duration''), ae_PlatformSupported = True,
      ae_dialer_New = (\<lambda>_. Inr ())\<rparr>"

lemma sample_route_rule:
  "NewRule sample_env sample_action_env sample_route_options checkOutbound = Inr (DefaultRule (new_rule False (Some RuleActionHijackDNS)))"
proof -
  have "list_all (\<lambda>s. s r = Inr r) (route_rule_steps sample_env raw_rule_zero)" for r
    by (simp add: route_rule_steps_def route_address_steps_def route_process_steps_def step_def step_result_def step_fail_def
        ipversion_step_def rule_set_step_def raw_rule_zero_def map_nonempty_def)
  moreover have "run_steps ss r = Inr r" if "list_all (\<lambda>s. s r = Inr r) ss" for ss r
    using that by (induction ss) simp_all
  ultimately have "run_steps (route_rule_steps sample_env raw_rule_zero) r = Inr r" for r by blast
  moreover have "o_Invert raw_rule_zero = False" by (simp add: raw_rule_zero_def)
  ultimately show ?thesis
    by (simp add: sample_route_options_def NewDefaultRule_def NewRuleAction_def DefaultRule_IsValid_def missing_outbound_def
        rule_action_zero_def)
qed


text \<open>
  C17: what the three constructors accept is well formed. Every default rule holds each of its items in
  \<open>allItems\<close> and in the group its kind belongs to; every logical rule has sub-rules and a known mode, at every
  depth; only the outermost rule has an action; headless rules have neither actions nor rule sets; and
  the response tags that a logical DNS rule waits for are exactly those of its sub-rules.
\<close>

theorem built_rules_well_formed:
  "(NewRule env ae o1 checkOutbound = Inr rule \<longrightarrow> wf_route rule) \<and>
   (NewHeadlessRule env hasNM o2 = Inr headless \<longrightarrow> wf_headless headless) \<and>
   (NewDNSRule env o3 checkServer legacy = Inr dnsRule \<longrightarrow> wf_dns dnsRule)"
  using NewRule_wf_lemma NewHeadlessRule_wf_lemma NewDNSRule_wf_lemma by blast

theorem built_rules_well_formed_witness: "wf_route (DefaultRule (new_rule False (Some RuleActionHijackDNS)))"
  using built_rules_well_formed [of sample_env sample_action_env sample_route_options False
      "DefaultRule (new_rule False (Some RuleActionHijackDNS))"] sample_route_rule by blast

text \<open>
  C9: when at most one rule sniffs, what the outbound reads from a connection is what the connection
  delivers: for a stream the same bytes in the same order, for packets the same packets, none lost and
  none repeated (their order can change). \<open>NewCachedConn\<close> and \<open>NewCachedPacketConn\<close> deliver the cached
  buffer before the wrapped connection.
\<close>

theorem sniffed_payload_preserved:
  assumes "matchRule env rules md input = (res, st)" "length (filter is_sniff rules) \<le> 1"
    and conn: "\<And>b c. NewCachedConn b c = b @ c" and packet: "\<And>p c. NewCachedPacketConn p c = [p] @ c"
  shows "case input of
      StreamInput script \<Rightarrow> \<exists>rest. ms_input st = StreamInput rest \<and>
        cache_buffers NewCachedConn (ms_buffers st) (bytes_in rest) = bytes_in script
    | PacketInput script \<Rightarrow> \<exists>rest. ms_input st = PacketInput rest \<and>
        mset (cache_buffers NewCachedPacketConn (ms_packets st) (packets_in rest)) = mset (packets_in script)"
proof -
  let ?st = "\<lambda>md'. \<lparr>ms_metadata = md', ms_buffers = [], ms_packets = [], ms_input = input\<rparr>"
  have st: "\<exists>md'. st = ?st md' \<or> st = snd (matchRule_loop env 0 rules (?st md'))"
    using assms by (cases "prepareMatchMetadata env md") (auto simp: matchRule_def Let_def, metis snd_conv)
  show ?thesis
  proof (cases input)
    case (StreamInput script)
    then have "stream_kept script (?st md')" for md' by (simp add: stream_kept_def)
    then have "stream_kept script st" "length (ms_buffers st) \<le> 1"
      using st matchRule_loop_stream [of script _ rules 1 env 0] assms(2) by auto
    moreover have "concat (rev bs) = concat bs" if "length bs \<le> 1" for bs :: "bytes list"
      using that by (cases bs) auto
    ultimately show ?thesis
      using StreamInput by (auto simp: stream_kept_def cache_buffers_cached [where f = "\<lambda>b. b", OF conn])
  next
    case (PacketInput script)
    then have "packets_kept script (?st md')" for md' by (simp add: packets_kept_def)
    then have "packets_kept script st" using st matchRule_loop_packets [of script _ rules env 0] assms(2) by auto
    then obtain rest where "ms_input st = PacketInput rest" "ms_packets st @ packets_in rest = packets_in script"
      by (auto simp: packets_kept_def)
    moreover have "concat (map (\<lambda>p. [p]) ps) = ps" for ps :: "packet list" by (induction ps) simp_all
    moreover have "mset (rev ps @ qs) = mset (ps @ qs)" for ps qs :: "packet list" by simp
    ultimately show ?thesis
      using PacketInput by (simp add: cache_buffers_cached [where f = "\<lambda>p. [p]", OF packet] del: mset_append)
  qed
qed

theorem sniffed_payload_preserved_witness:
  "\<exists>res st rest. matchRule (sample_router None) [always (RuleActionSniffAct (sample_sniff_action [] [] []))] zero_context
      (StreamInput [StreamData [1, 2], StreamErr io_timeout, StreamData [3]]) = (res, st) \<and>
     ms_input st = StreamInput rest \<and> cache_buffers (@) (ms_buffers st) (bytes_in rest) = [1, 2, 3]"
proof -
  let ?rules = "[always (RuleActionSniffAct (sample_sniff_action [] [] []))]"
  let ?script = "[StreamData [1, 2], StreamErr io_timeout, StreamData [3]]"
  obtain res st where m: "matchRule (sample_router None) ?rules zero_context (StreamInput ?script) = (res, st)"
    by (metis surj_pair)
  have "length (filter is_sniff ?rules) \<le> 1" by simp
  from sniffed_payload_preserved [OF m this refl refl] obtain rest
    where "ms_input st = StreamInput rest \<and> cache_buffers (@) (ms_buffers st) (bytes_in rest) = [1, 2, 3]" by auto
  with m show ?thesis by blast
qed

lemma sniffing_cache [simp]:
  "sniff_Skip (ResetRuleCache md) = sniff_Skip md" "Protocol (ResetRuleCache md) = Protocol md"
  "SniffError (ResetRuleCache md) = SniffError md" "sniff_Skip (md\<lparr>SnifferNames := n, SniffError := e\<rparr>) = sniff_Skip md"
  by (simp_all add: ResetRuleCache_def ResetRuleMatchCache_def sniff_Skip_def)

lemma stream_sniffers_all_fail:
  assumes "\<And>s d b. se_sniffer env s d b = (Some e, d)" "\<And>x. se_Errors env [x, Some e] = Some e"
  shows "sniffers \<noteq> [] \<Longrightarrow> stream_sniffers env bs sniffers err md = (False, Some e, md)"
proof (induction sniffers arbitrary: err)
  case (Cons s ss)
  then show ?case using assms by (cases ss) simp_all
qed simp



lemma PeekPacket_loop_all_fail:
  "(\<And>s d. se_sniffer env s d [b] = (Some e, d)) \<Longrightarrow>
     PeekPacket_loop env b sniffers errs md = (se_Errors env (map Some (errs @ replicate (length sniffers) e)), md)"
  by (induction sniffers arbitrary: errs) (simp_all add: replicate_append_same)

lemma sniff_packet_all_fail:
  assumes "\<And>s d. se_sniffer env s d [b] = (Some e, d)" "\<And>es. es \<noteq> [] \<Longrightarrow> se_Errors env (map Some es) = Some e"
  shows "sniff_packet env a b md = (Some e, md\<lparr>SnifferNames := SnifferNames_of a, SniffError := Some e\<rparr>)"
proof -
  have "PeekPacket env md b sniffers = (Some e, md)" if "sniffers \<noteq> []" for sniffers
    using assms(2) [of "replicate (length sniffers) e"] that by (simp add: PeekPacket_def PeekPacket_loop_all_fail [OF assms(1)])
  then show ?thesis by (auto simp: sniff_packet_def defaultPacketSniffers_def)
qed



lemma searchProcessInfo_Destination [simp]: "Destination (searchProcessInfo env md) = Destination md"
  unfolding searchProcessInfo_def Let_def
  by (cases "re_FindProcess env") (simp_all split: sum.split)

lemma search_neighbor_Destination [simp]: "Destination (search_neighbor env md) = Destination md"
  unfolding search_neighbor_def Let_def
  by (cases "re_neighbor env") (simp_all split: option.split prod.split)



end
