(* ===== verification/Sniffers.thy ===== *)
theory Sniffers
  imports Sniffing GoReader DNSMessage
begin

text \<open>
  The protocol sniffers of \<open>common/sniff\<close>: each looks at the first bytes of a stream or at a packet
  and sets the protocol of the connection, or fails. A reader is the list of buffers under
  \<open>io.MultiReader\<close>; reading fully crosses the buffers, a single \<open>Read\<close> ends at the end of the first.

  An index or slice out of range is a panic, written as the error \<open>EPanic\<close>; a loop that does not
  return would be one as well. \<open>snf_env\<close> holds the code of other modules: \<open>Unpack\<close> of \<open>miekg/dns\<close>, the
  HTTP request reader and the buffers of \<open>sing\<close>, the TLS handshake up to the client hello, and the
  QUIC sniffer, which decrypts the first packets and is not modelled.
\<close>

record snf_env =
  snf_Unpack :: "bytes \<Rightarrow> Msg result"
  snf_ReadRequest :: "bytes list \<Rightarrow> string result"
  snf_IsUnexpectedEOF :: "error \<Rightarrow> bool"
  snf_HostFqdn :: "string \<Rightarrow> string"
  snf_ClientHello :: "bytes list \<Rightarrow> error + string"
  snf_ReadFullFrom :: "nat \<Rightarrow> bytes list \<Rightarrow> bytes \<times> error option"
  snf_SkipN :: "nat \<Rightarrow> bytes list \<Rightarrow> bytes list result"
  snf_QUICClientHello :: "InboundContext \<Rightarrow> bytes \<Rightarrow> InboundContext result"

subsection \<open>Errors and readers\<close>

text \<open>\<open>ErrNeedMoreData\<close>, \<open>E.Cause1(ErrNeedMoreData, err)\<close> and \<open>errors.Is(err, ErrNeedMoreData)\<close>.\<close>

definition ErrNeedMoreData :: error where
  "ErrNeedMoreData = ENew ''need more data''"

definition Cause1_NeedMoreData :: "error \<Rightarrow> error" where
  "Cause1_NeedMoreData err = ECause ''need more data'' err"

fun Is_NeedMoreData :: "error \<Rightarrow> bool" where
  "Is_NeedMoreData (ENew msg) \<longleftrightarrow> msg = ''need more data''"
| "Is_NeedMoreData (ECause msg _) \<longleftrightarrow> msg = ''need more data''"
| "Is_NeedMoreData _ \<longleftrightarrow> False"

definition go_index :: "bytes \<Rightarrow> nat \<Rightarrow> u8 result" where
  "go_index bs i = (if i < length bs then Inr (bs ! i) else Inl (EPanic ''index out of range''))"

definition go_slice :: "'a list \<Rightarrow> nat \<Rightarrow> nat \<Rightarrow> 'a list result" where
  "go_slice xs i j = (if i \<le> j \<and> j \<le> length xs then Inr (take (j - i) (drop i xs)) else Inl (EPanic ''slice bounds out of range''))"

fun drop_buffers :: "nat \<Rightarrow> bytes list \<Rightarrow> bytes list" where
  "drop_buffers n [] = []"
| "drop_buffers n (b # bs) = (if n < length b then drop n b # bs else drop_buffers (n - length b) bs)"

text \<open>\<open>binary.Read\<close> of a big-endian number of \<open>n\<close> bytes, a failure being a request for more data.\<close>

definition read_number :: "nat \<Rightarrow> bytes list \<Rightarrow> (nat \<times> bytes list) result" where
  "read_number n reader =
     (if n \<le> length (concat reader) then Inr (be_value (take n (concat reader)), drop_buffers n reader)
      else Inl (Cause1_NeedMoreData (if concat reader = [] then io_EOF else io_ErrUnexpectedEOF)))"

text \<open>A single \<open>Read\<close> into \<open>n > 0\<close> bytes.\<close>

fun MultiReader_Read :: "nat \<Rightarrow> bytes list \<Rightarrow> bytes \<times> error option" where
  "MultiReader_Read n [] = ([], Some io_EOF)"
| "MultiReader_Read n (b # bs) = (if b = [] then MultiReader_Read n bs else (take n b, None))"

subsection \<open>BitTorrent\<close>

definition sniff_BitTorrent :: "InboundContext \<Rightarrow> bytes list \<Rightarrow> InboundContext result" where
  "sniff_BitTorrent metadata reader =
     res_bind (read_number 1 reader) (\<lambda>(first, reader).
     if first \<noteq> 19 then Inl EInvalid
     else
       let (protocol, err) = MultiReader_Read 19 reader;
           n = length protocol
       in if protocol \<noteq> take n (bytes_of ''BitTorrent protocol'') then Inl EInvalid
          else case err of
            Some e \<Rightarrow> Inl (Cause1_NeedMoreData e)
          | None \<Rightarrow> if n < 19 then Inl ErrNeedMoreData else Inr (metadata\<lparr>Protocol := ''bittorrent''\<rparr>))"

text \<open>The loop over the extensions of a uTP packet; \<open>None\<close> would be a loop that does not return.\<close>

partial_function (option) UTP_extensions :: "u8 \<Rightarrow> bytes \<Rightarrow> error option option" where
  "UTP_extensions extension reader =
     (if extension = 0 then Some None
      else case reader of
        [] \<Rightarrow> Some (Some io_EOF)
      | extension' # r1 \<Rightarrow>
          if extension' > 4 then Some (Some EInvalid)
          else case r1 of
            [] \<Rightarrow> Some (Some io_EOF)
          | len # r2 \<Rightarrow> UTP_extensions extension' (drop (unat len) r2))"

definition sniff_UTP :: "InboundContext \<Rightarrow> bytes \<Rightarrow> InboundContext result" where
  "sniff_UTP metadata packet =
     (if length packet < 20 then Inl EInvalid
      else
        res_bind (go_index packet 0) (\<lambda>b.
        let version = b AND 0x0F; ty = drop_bit 4 b in
        if version \<noteq> 1 \<or> ty > 4 then Inl EInvalid
        else
          res_bind (go_index packet 1) (\<lambda>extension.
          res_bind (go_slice packet 20 (length packet)) (\<lambda>reader.
          case UTP_extensions extension reader of
            None \<Rightarrow> Inl (EPanic ''no return'')
          | Some (Some e) \<Rightarrow> Inl e
          | Some None \<Rightarrow> Inr (metadata\<lparr>Protocol := ''bittorrent''\<rparr>)))))"

definition sniff_UDPTracker :: "InboundContext \<Rightarrow> bytes \<Rightarrow> InboundContext result" where
  "sniff_UDPTracker metadata packet =
     (if length packet < 16 then Inl EInvalid
      else
        res_bind (go_slice packet 0 8) (\<lambda>protocolID.
        if be_value protocolID \<noteq> 0x41727101980 then Inl EInvalid
        else
          res_bind (go_slice packet 8 12) (\<lambda>flag.
          if be_value flag \<noteq> 0 then Inl EInvalid else Inr (metadata\<lparr>Protocol := ''bittorrent''\<rparr>))))"

subsection \<open>DNS\<close>

text \<open>A message that unpacks but is not a plain query makes the sniffer return the nil error.\<close>

definition sniff_DomainNameQuery :: "snf_env \<Rightarrow> InboundContext \<Rightarrow> bytes \<Rightarrow> InboundContext result" where
  "sniff_DomainNameQuery env metadata packet =
     (case snf_Unpack env packet of
        Inl e \<Rightarrow> Inl e
      | Inr msg \<Rightarrow>
          if msg_Response msg \<or> length (msg_Question msg) = 0 \<or> length (msg_Answer msg) > 0 \<or> length (msg_Ns msg) > 0
          then Inr metadata
          else Inr (metadata\<lparr>Protocol := ''dns''\<rparr>))"

definition dns_header_invalid :: "bytes \<Rightarrow> bool result" where
  "dns_header_invalid packet =
     (let n = length packet in
      res_bind (if n > 2 then res_bind (go_index packet 2) (\<lambda>b. Inr (b AND 0x80 \<noteq> 0)) else Inr False) (\<lambda>qr.
      if qr then Inr True
      else
        res_bind (if n > 5 then res_bind (go_index packet 4) (\<lambda>b4. res_bind (go_index packet 5) (\<lambda>b5. Inr (b4 = 0 \<and> b5 = 0)))
                  else Inr False) (\<lambda>qd.
        if qd then Inr True
        else
          res_bind (res_mapM (\<lambda>i. if n > i then res_bind (go_index packet i) (\<lambda>b. Inr (b \<noteq> 0)) else Inr False) [6, 7, 8, 9])
            (\<lambda>counts. Inr (True \<in> set counts)))))"

definition sniff_StreamDomainNameQuery :: "snf_env \<Rightarrow> InboundContext \<Rightarrow> bytes list \<Rightarrow> InboundContext result" where
  "sniff_StreamDomainNameQuery env metadata reader =
     res_bind (read_number 2 reader) (\<lambda>(len, reader).
     if len < 12 then Inl EInvalid
     else
       let (packet, err) = snf_ReadFullFrom env len reader in
       res_bind (dns_header_invalid packet) (\<lambda>invalid.
       if invalid then Inl EInvalid
       else case err of
         Some e \<Rightarrow> Inl (Cause1_NeedMoreData e)
       | None \<Rightarrow> sniff_DomainNameQuery env metadata packet))"

subsection \<open>Other packets\<close>

definition sniff_DTLSRecord :: "InboundContext \<Rightarrow> bytes \<Rightarrow> InboundContext result" where
  "sniff_DTLSRecord metadata packet =
     (if length packet < 13 then Inl EInvalid
      else
        res_bind (go_index packet 0) (\<lambda>contentType.
        if \<not> List.member [20, 21, 22, 23, 25] contentType then Inl EInvalid
        else
          res_bind (go_index packet 1) (\<lambda>versionMajor.
          if versionMajor \<noteq> 0xfe then Inl EInvalid
          else
            res_bind (go_index packet 2) (\<lambda>versionMinor.
            if versionMinor \<noteq> 0xff \<and> versionMinor \<noteq> 0xfd then Inl EInvalid
            else Inr (metadata\<lparr>Protocol := ''dtls''\<rparr>)))))"

text \<open>
  The comparisons of the root delay and dispersion with 16 seconds are exact in \<open>float64\<close>: a 32-bit
  number divided by \<open>65536\<close>.
\<close>

definition sniff_NTP :: "InboundContext \<Rightarrow> bytes \<Rightarrow> InboundContext result" where
  "sniff_NTP metadata packet =
     (if length packet < 48 then Inl EInvalid
      else
        res_bind (go_index packet 0) (\<lambda>firstByte.
        let li = drop_bit 6 firstByte AND 0x03;
            vn = drop_bit 3 firstByte AND 0x07;
            mode = firstByte AND 0x07
        in if li > 3 then Inl EInvalid
           else if vn \<noteq> 3 \<and> vn \<noteq> 4 then Inl EInvalid
           else if mode \<noteq> 3 then Inl EInvalid
           else
             res_bind (go_slice packet 4 8) (\<lambda>rootDelay.
             res_bind (go_slice packet 8 12) (\<lambda>rootDispersion.
             if be_value rootDelay > 16 * 65536 then Inl EInvalid
             else if be_value rootDispersion > 16 * 65536 then Inl EInvalid
             else Inr (metadata\<lparr>Protocol := ''ntp''\<rparr>)))))"

definition sniff_STUNMessage :: "InboundContext \<Rightarrow> bytes \<Rightarrow> InboundContext result" where
  "sniff_STUNMessage metadata packet =
     (if length packet < 20 then Inl EInvalid
      else
        res_bind (go_slice packet 4 8) (\<lambda>cookie.
        if be_value cookie \<noteq> 0x2112A442 then Inl EInvalid
        else
          res_bind (go_slice packet 2 4) (\<lambda>len.
          if length packet < 20 + be_value len then Inl EInvalid
          else Inr (metadata\<lparr>Protocol := ''stun''\<rparr>))))"

subsection \<open>Other streams\<close>

definition sniff_HTTPHost :: "snf_env \<Rightarrow> InboundContext \<Rightarrow> bytes list \<Rightarrow> InboundContext result" where
  "sniff_HTTPHost env metadata reader =
     (case snf_ReadRequest env reader of
        Inl e \<Rightarrow> Inl (if snf_IsUnexpectedEOF env e then Cause1_NeedMoreData e else e)
      | Inr host \<Rightarrow> Inr (metadata\<lparr>Protocol := ''http'', Domain' := snf_HostFqdn env host\<rparr>))"

definition sniff_TLSClientHello :: "snf_env \<Rightarrow> InboundContext \<Rightarrow> bytes list \<Rightarrow> InboundContext result" where
  "sniff_TLSClientHello env metadata reader =
     (case snf_ClientHello env reader of
        Inr serverName \<Rightarrow> Inr (metadata\<lparr>Protocol := ''tls'', Domain' := serverName\<rparr>)
      | Inl e \<Rightarrow> Inl (if snf_IsUnexpectedEOF env e then Cause1_NeedMoreData e else e))"

text \<open>One field of the connection request: a number that must have the given value.\<close>

definition expect_number :: "nat \<Rightarrow> nat \<Rightarrow> bytes list \<Rightarrow> bytes list result" where
  "expect_number n v reader =
     res_bind (read_number n reader) (\<lambda>(x, reader). if x \<noteq> v then Inl EInvalid else Inr reader)"

definition sniff_RDP :: "snf_env \<Rightarrow> InboundContext \<Rightarrow> bytes list \<Rightarrow> InboundContext result" where
  "sniff_RDP env metadata reader =
     res_bind (expect_number 1 0x03 reader) (\<lambda>reader.
     res_bind (expect_number 1 0x00 reader) (\<lambda>reader.
     res_bind (expect_number 2 19 reader) (\<lambda>reader.
     res_bind (expect_number 1 14 reader) (\<lambda>reader.
     res_bind (expect_number 1 0xE0 reader) (\<lambda>reader.
     res_bind (case snf_SkipN env 5 reader of Inl e \<Rightarrow> Inl (Cause1_NeedMoreData e) | Inr reader \<Rightarrow> Inr reader) (\<lambda>reader.
     res_bind (expect_number 1 0x01 reader) (\<lambda>reader.
     res_bind (read_number 1 reader) (\<lambda>(rdpFlags, reader).
     res_bind (expect_number 1 8 reader) (\<lambda>reader.
       Inr (metadata\<lparr>Protocol := ''rdp''\<rparr>))))))))))"

text \<open>
  \<open>ReadLine\<close> of a \<open>bufio.Reader\<close> with its buffer of 4096 bytes on a non-empty input: up to the first
  newline, without it and a carriage return before it; without a newline the whole input or, when it
  fills the buffer, the first 4096 bytes.
\<close>

definition bufio_ReadLine :: "bytes \<Rightarrow> bytes" where
  "bufio_ReadLine bs =
     (let line = takeWhile (\<lambda>b. b \<noteq> 10) (take 4096 bs);
          stripped = (if line \<noteq> [] \<and> last line = 13 then butlast line else line)
      in if length line < 4096 \<and> length line = length bs then line else stripped)"

definition sniff_SSH :: "InboundContext \<Rightarrow> bytes list \<Rightarrow> InboundContext result" where
  "sniff_SSH metadata reader =
     (let bs = concat reader; prefix = take 8 bs in
      if prefix \<noteq> take (length prefix) (bytes_of ''SSH-2.0-'') then Inl EInvalid
      else if length prefix < 8 then Inl (Cause1_NeedMoreData io_EOF)
      else
        let firstLine = bufio_ReadLine bs in
        res_bind (go_slice (string_of firstLine) 8 (length firstLine)) (\<lambda>client.
          Inr (metadata\<lparr>Protocol := ''ssh'', Client := client\<rparr>)))"

subsection \<open>The table of the sniffers\<close>

fun run_sniffer :: "snf_env \<Rightarrow> Sniffer \<Rightarrow> InboundContext \<Rightarrow> bytes list \<Rightarrow> InboundContext result" where
  "run_sniffer env TLSClientHello metadata reader = sniff_TLSClientHello env metadata reader"
| "run_sniffer env HTTPHost metadata reader = sniff_HTTPHost env metadata reader"
| "run_sniffer env QUICClientHello metadata reader = snf_QUICClientHello env metadata (concat reader)"
| "run_sniffer env StreamDomainNameQuery metadata reader = sniff_StreamDomainNameQuery env metadata reader"
| "run_sniffer env DomainNameQuery metadata reader = sniff_DomainNameQuery env metadata (concat reader)"
| "run_sniffer env STUNMessage metadata reader = sniff_STUNMessage metadata (concat reader)"
| "run_sniffer env BitTorrent metadata reader = sniff_BitTorrent metadata reader"
| "run_sniffer env UTP metadata reader = sniff_UTP metadata (concat reader)"
| "run_sniffer env UDPTracker metadata reader = sniff_UDPTracker metadata (concat reader)"
| "run_sniffer env DTLSRecord metadata reader = sniff_DTLSRecord metadata (concat reader)"
| "run_sniffer env SSH metadata reader = sniff_SSH metadata reader"
| "run_sniffer env RDP metadata reader = sniff_RDP env metadata reader"
| "run_sniffer env NTP metadata reader = sniff_NTP metadata (concat reader)"

definition sniffer_table :: "snf_env \<Rightarrow> Sniffer \<Rightarrow> InboundContext \<Rightarrow> bytes list \<Rightarrow> error option \<times> InboundContext" where
  "sniffer_table env sniffer metadata reader =
     (case run_sniffer env sniffer metadata reader of Inl e \<Rightarrow> (Some e, metadata) | Inr md \<Rightarrow> (None, md))"

end
