(* ===== verification/SnifferProperties.thy ===== *)
theory SnifferProperties
  imports Sniffers "HOL-Library.Sublist"
begin

text \<open>
  Properties of the sniffers: none of them panics or loops, more data does not change the verdict of
  a sniffer that did not ask for more, and what a DNS message that is no query does to a sniff action.
\<close>

subsection \<open>No panics\<close>

definition panics :: "'a result \<Rightarrow> bool" where
  "panics r \<longleftrightarrow> (\<exists>m. r = Inl (EPanic m))"

lemma panics_simps [simp]:
  "\<not> panics (Inr x)" "panics (Inl (EPanic m))" "\<not> panics (Inl (ENew m))" "\<not> panics (Inl (ECause m e))" "\<not> panics (Inl EInvalid)"
  by (auto simp: panics_def)

lemma panics_bind: "panics (res_bind r f) \<longleftrightarrow> panics r \<or> (\<exists>x. r = Inr x \<and> panics (f x))"
  by (cases r) (auto simp: panics_def)

lemma panics_if: "panics (if c then r else r') \<longleftrightarrow> (if c then panics r else panics r')"
  by simp

lemma panics_access [simp]:
  "panics (go_index bs i) \<longleftrightarrow> \<not> i < length bs" "panics (go_slice xs i j) \<longleftrightarrow> \<not> (i \<le> j \<and> j \<le> length xs)"
  by (simp_all add: go_index_def go_slice_def)

lemma go_index_Inr [simp]: "go_index bs i = Inr b \<longleftrightarrow> i < length bs \<and> b = bs ! i"
  by (auto simp: go_index_def)

lemma go_slice_Inr [simp]: "go_slice xs i j = Inr ys \<longleftrightarrow> i \<le> j \<and> j \<le> length xs \<and> ys = take (j - i) (drop i xs)"
  by (auto simp: go_slice_def)

lemma read_number_no_panic [simp]: "\<not> panics (read_number n reader)"
  by (simp add: read_number_def Cause1_NeedMoreData_def)

lemma expect_number_no_panic [simp]: "\<not> panics (expect_number n v reader)"
  by (simp add: expect_number_def panics_bind panics_if split: prod.split)

text \<open>The loop over the extensions consumes at least two bytes in every round.\<close>

lemma UTP_extensions_returns:
  "\<exists>r. UTP_extensions extension reader = Some r \<and> (r = None \<or> r = Some io_EOF \<or> r = Some EInvalid)"
proof (induction reader arbitrary: extension rule: measure_induct_rule [of length])
  case (less reader)
  consider "extension = 0 \<or> reader = []" | e' where "reader = [e']" | e' len r2 where "reader = e' # len # r2"
    by (metis neq_Nil_conv)
  then show ?case
  proof cases
    case 1
    then show ?thesis by (subst UTP_extensions.simps) (auto split: list.split)
  next
    case 2
    then show ?thesis by (subst UTP_extensions.simps) auto
  next
    case 3
    then have "length (drop (unat len) r2) < length reader" by simp
    from less.IH [OF this, of e'] show ?thesis using 3 by (subst UTP_extensions.simps) auto
  qed
qed

definition snf_env_ok :: "snf_env \<Rightarrow> bool" where
  "snf_env_ok env \<longleftrightarrow>
     (\<forall>b. \<not> panics (snf_Unpack env b)) \<and> (\<forall>r. \<not> panics (snf_ReadRequest env r)) \<and>
     (\<forall>r. \<not> panics (snf_ClientHello env r)) \<and> (\<forall>md b. \<not> panics (snf_QUICClientHello env md b))"

lemma packet_sniffers_no_panic:
  "\<not> panics (sniff_UTP md packet)" "\<not> panics (sniff_UDPTracker md packet)" "\<not> panics (sniff_DTLSRecord md packet)"
  "\<not> panics (sniff_NTP md packet)" "\<not> panics (sniff_STUNMessage md packet)"
proof -
  show "\<not> panics (sniff_UTP md packet)"
    using UTP_extensions_returns [of "packet ! 1" "drop 20 packet"]
    by (auto simp: sniff_UTP_def panics_bind panics_if Let_def)
qed (auto simp: sniff_UDPTracker_def sniff_DTLSRecord_def sniff_NTP_def sniff_STUNMessage_def panics_bind panics_if Let_def)

lemma dns_header_invalid_no_panic: "\<not> panics (dns_header_invalid packet)"
  by (simp add: dns_header_invalid_def go_index_def Let_def)

lemma DomainNameQuery_no_panic: "snf_env_ok env \<Longrightarrow> \<not> panics (sniff_DomainNameQuery env md packet)"
  unfolding sniff_DomainNameQuery_def snf_env_ok_def panics_def by (auto split: sum.splits if_splits)

text \<open>The first line is at least as long as a prefix without line ends.\<close>

lemma bufio_ReadLine_prefix:
  assumes "bs = p @ rest" "length p \<le> 4096" "p \<noteq> []" "\<forall>b\<in>set p. b \<noteq> 10 \<and> b \<noteq> 13"
  shows "length p \<le> length (bufio_ReadLine bs)"
proof -
  let ?line = "takeWhile (\<lambda>b. b \<noteq> 10) (take 4096 bs)"
  have line: "?line = p @ takeWhile (\<lambda>b. b \<noteq> 10) (take (4096 - length p) rest)"
    using assms by (simp add: takeWhile_append2)
  show ?thesis
  proof (cases "takeWhile (\<lambda>b. b \<noteq> 10) (take (4096 - length p) rest)")
    case Nil
    then have "last ?line \<noteq> 13" using line assms(3,4) by (metis append_Nil2 last_in_set)
    then show ?thesis using line Nil by (simp add: bufio_ReadLine_def Let_def)
  next
    case (Cons b bs')
    then show ?thesis using line by (auto simp: bufio_ReadLine_def Let_def)
  qed
qed

lemma SSH_no_panic: "\<not> panics (sniff_SSH md reader)"
proof (cases "take 8 (concat reader) = bytes_of ''SSH-2.0-''")
  case True
  let ?p = "bytes_of ''SSH-2.0-''"
  have "\<forall>b\<in>set ?p. b \<noteq> 10 \<and> b \<noteq> 13" "length ?p = 8" "?p \<noteq> []" by (simp_all add: bytes_of_def)
  moreover have "concat reader = ?p @ drop 8 (concat reader)" using True by (metis append_take_drop_id)
  ultimately have "8 \<le> length (bufio_ReadLine (concat reader))"
    using bufio_ReadLine_prefix [of "concat reader" ?p "drop 8 (concat reader)"] by simp
  then show ?thesis by (simp add: sniff_SSH_def Cause1_NeedMoreData_def string_of_def panics_bind panics_if Let_def)
next
  case False
  then show ?thesis
    by (auto simp: sniff_SSH_def Cause1_NeedMoreData_def panics_bind panics_if Let_def min_def split: if_splits)
qed

lemma run_sniffer_no_panic:
  assumes "snf_env_ok env"
  shows "\<not> panics (run_sniffer env sniffer md reader)"
proof (cases sniffer)
  case StreamDomainNameQuery
  then show ?thesis
    using DomainNameQuery_no_panic [OF assms] dns_header_invalid_no_panic
    by (auto simp: sniff_StreamDomainNameQuery_def Cause1_NeedMoreData_def panics_bind panics_if split: prod.splits option.split)
next
  case BitTorrent
  then show ?thesis
    by (auto simp: sniff_BitTorrent_def Cause1_NeedMoreData_def ErrNeedMoreData_def panics_bind panics_if Let_def split: prod.splits option.split)
next
  case RDP
  then show ?thesis
    by (auto simp: sniff_RDP_def Cause1_NeedMoreData_def panics_bind split: prod.splits sum.splits)
qed (use assms DomainNameQuery_no_panic packet_sniffers_no_panic SSH_no_panic in
    \<open>auto simp: snf_env_ok_def sniff_HTTPHost_def sniff_TLSClientHello_def Cause1_NeedMoreData_def panics_def split: sum.splits if_splits\<close>)

subsection \<open>More data\<close>

text \<open>
  Two results agree when the first one asks for more data, or both are the same error, or both are
  values in a relation.
\<close>

definition agree :: "('a \<Rightarrow> 'a \<Rightarrow> bool) \<Rightarrow> 'a result \<Rightarrow> 'a result \<Rightarrow> bool" where
  "agree R x x' \<longleftrightarrow> (case x of Inl e \<Rightarrow> Is_NeedMoreData e \<or> x' = Inl e | Inr a \<Rightarrow> \<exists>a'. x' = Inr a' \<and> R a a')"

lemma agree_bind:
  assumes "agree R x x'" "\<And>a a'. R a a' \<Longrightarrow> agree S (f a) (f' a')"
  shows "agree S (res_bind x f) (res_bind x' f')"
proof (cases x)
  case (Inl e)
  then show ?thesis using assms(1) by (auto simp: agree_def)
next
  case (Inr a)
  then obtain a' where "x' = Inr a'" "R a a'" using assms(1) by (auto simp: agree_def)
  then show ?thesis using assms(2) Inr by simp
qed

lemma agree_simps [simp]:
  "agree R (Inr a) (Inr a') \<longleftrightarrow> R a a'" "agree R (Inl e) (Inl e)" "agree R (Inl (Cause1_NeedMoreData e)) x'"
  "agree R (Inl ErrNeedMoreData) x'"
  by (auto simp: agree_def Cause1_NeedMoreData_def ErrNeedMoreData_def)

text \<open>The same reader with more data behind it; there is a single buffer.\<close>

definition longer :: "bytes \<Rightarrow> bytes list \<Rightarrow> bytes list \<Rightarrow> bool" where
  "longer c r r' \<longleftrightarrow> length r \<le> 1 \<and> length r' \<le> 1 \<and> concat r' = concat r @ c"

lemma length_drop_buffers: "length (drop_buffers n r) \<le> length r"
  by (induction n r rule: drop_buffers.induct) auto

lemma concat_drop_buffers: "concat (drop_buffers n r) = drop n (concat r)"
  by (induction n r rule: drop_buffers.induct) auto

lemma longer_drop: "longer c r r' \<Longrightarrow> n \<le> length (concat r) \<Longrightarrow> longer c (drop_buffers n r) (drop_buffers n r')"
  using length_drop_buffers [of n r] length_drop_buffers [of n r'] by (auto simp: longer_def concat_drop_buffers)

lemma agree_read_number:
  "longer c r r' \<Longrightarrow> agree (\<lambda>(v, s) (v', s'). v' = v \<and> longer c s s') (read_number n r) (read_number n r')"
  using longer_drop [of c r r' n] by (auto simp: read_number_def longer_def)

lemma agree_expect_number: "longer c r r' \<Longrightarrow> agree (longer c) (expect_number n v r) (expect_number n v r')"
  unfolding expect_number_def by (rule agree_bind [OF agree_read_number]) auto

lemma MultiReader_Read_single:
  "length r \<le> 1 \<Longrightarrow> MultiReader_Read n r = (if concat r = [] then ([], Some io_EOF) else (take n (concat r), None))"
  by (cases r) auto

text \<open>What the code relies on of the \<open>sing\<close> library: \<open>SkipN\<close> and \<open>ReadFullFrom\<close> read exactly what they are asked for.\<close>

definition snf_readers_ok :: "snf_env \<Rightarrow> bool" where
  "snf_readers_ok env \<longleftrightarrow>
     (\<forall>n r. n \<le> length (concat r) \<longrightarrow> snf_SkipN env n r = Inr (drop_buffers n r)) \<and>
     (\<forall>n r. length (concat r) < n \<longrightarrow> (\<exists>e. snf_SkipN env n r = Inl e)) \<and>
     (\<forall>n r. fst (snf_ReadFullFrom env n r) = take n (concat r)) \<and>
     (\<forall>n r. snd (snf_ReadFullFrom env n r) = None \<longleftrightarrow> n \<le> length (concat r))"

lemma agree_RDP:
  assumes "snf_readers_ok env" "longer c r r'"
  shows "agree (=) (sniff_RDP env md r) (sniff_RDP env md r')"
proof -
  have skip: "agree (longer c) (case snf_SkipN env n r of Inl e \<Rightarrow> Inl (Cause1_NeedMoreData e) | Inr s \<Rightarrow> Inr s)
      (case snf_SkipN env n r' of Inl e \<Rightarrow> Inl (Cause1_NeedMoreData e) | Inr s \<Rightarrow> Inr s)" if "longer c r r'" for n r r'
  proof (cases "n \<le> length (concat r)")
    case True
    moreover have "n \<le> length (concat r')" using True that by (simp add: longer_def)
    ultimately show ?thesis using assms(1) longer_drop [OF that True] by (simp add: snf_readers_ok_def)
  next
    case False
    then obtain e where "snf_SkipN env n r = Inl e" using assms(1) by (meson snf_readers_ok_def not_le)
    then show ?thesis by simp
  qed
  show ?thesis
    unfolding sniff_RDP_def
    by (insert assms(2), (rule agree_bind, rule agree_expect_number, assumption)+, rule agree_bind, rule skip, assumption,
        rule agree_bind, rule agree_expect_number, assumption, rule agree_bind, rule agree_read_number, assumption)
      (auto intro!: agree_bind [OF agree_expect_number])
qed

lemma eq_take_prefix: "p = take (length p) h \<longleftrightarrow> prefix p h"
  by (metis append_eq_conv_conj prefix_def take_is_prefix)

lemma prefix_take_append: "prefix (take n (xs @ ys)) h \<Longrightarrow> prefix (take n xs) h"
  by (auto simp: take_append dest: append_prefixD)

lemma agree_BitTorrent:
  assumes "longer c r r'"
  shows "agree (=) (sniff_BitTorrent md r) (sniff_BitTorrent md r')"
  unfolding sniff_BitTorrent_def
proof (rule agree_bind [OF agree_read_number [OF assms]], clarify)
  fix first :: nat and s s' :: "bytes list"
  assume "longer c s s'"
  then have s: "length s \<le> 1" "length s' \<le> 1" "concat s' = concat s @ c" by (auto simp: longer_def)
  have p: "prefix (take 19 (concat s @ c)) h \<Longrightarrow> prefix (take 19 (concat s)) h" for h by (rule prefix_take_append)
  show "agree (=)
      (if first \<noteq> 19 then Inl EInvalid
       else let (protocol, err) = MultiReader_Read 19 s; n = length protocol
            in if protocol \<noteq> take n (bytes_of ''BitTorrent protocol'') then Inl EInvalid
               else case err of None \<Rightarrow> if n < 19 then Inl ErrNeedMoreData else Inr (md\<lparr>Protocol := ''bittorrent''\<rparr>)
                    | Some e \<Rightarrow> Inl (Cause1_NeedMoreData e))
      (if first \<noteq> 19 then Inl EInvalid
       else let (protocol, err) = MultiReader_Read 19 s'; n = length protocol
            in if protocol \<noteq> take n (bytes_of ''BitTorrent protocol'') then Inl EInvalid
               else case err of None \<Rightarrow> if n < 19 then Inl ErrNeedMoreData else Inr (md\<lparr>Protocol := ''bittorrent''\<rparr>)
                    | Some e \<Rightarrow> Inl (Cause1_NeedMoreData e))"
  proof (cases "concat s = []")
    case True
    then show ?thesis using s(1) by (simp add: MultiReader_Read_single Let_def)
  next
    case False
    then show ?thesis
      using s p unfolding MultiReader_Read_single [OF s(1)] MultiReader_Read_single [OF s(2)] eq_take_prefix Let_def
      by (auto simp: take_append dest: append_prefixD)
  qed
qed

lemma dns_header_invalid_eq:
  "dns_header_invalid p = Inr (length p > 2 \<and> p ! 2 AND 0x80 \<noteq> 0 \<or> length p > 5 \<and> p ! 4 = 0 \<and> p ! 5 = 0 \<or>
     (\<exists>i\<in>{6, 7, 8, 9}. length p > i \<and> p ! i \<noteq> 0))"
  by (auto simp: dns_header_invalid_def go_index_def Let_def)

lemma agree_StreamDomainNameQuery:
  assumes "snf_readers_ok env" "longer c r r'"
  shows "agree (=) (sniff_StreamDomainNameQuery env md r) (sniff_StreamDomainNameQuery env md r')"
  unfolding sniff_StreamDomainNameQuery_def
proof (rule agree_bind [OF agree_read_number [OF assms(2)]], clarify)
  fix len :: nat and s s' :: "bytes list"
  assume "longer c s s'"
  then have s: "concat s' = concat s @ c" by (simp add: longer_def)
  obtain err err' where f: "snf_ReadFullFrom env len s = (take len (concat s), err)"
      "snf_ReadFullFrom env len s' = (take len (concat s @ c), err')"
      "err = None \<longleftrightarrow> len \<le> length (concat s)" "err' = None \<longleftrightarrow> len \<le> length (concat s @ c)"
    using assms(1) s unfolding snf_readers_ok_def by (metis prod.collapse)
  let ?rest = "\<lambda>packet err. res_bind (dns_header_invalid packet) (\<lambda>invalid. if invalid then Inl EInvalid
    else case err of None \<Rightarrow> sniff_DomainNameQuery env md packet | Some e \<Rightarrow> Inl (Cause1_NeedMoreData e))"
  have "agree (=) (?rest (take len (concat s)) err) (?rest (take len (concat s @ c)) err')"
  proof (cases "len \<le> length (concat s)")
    case True
    then show ?thesis using f(3,4) by (cases "sniff_DomainNameQuery env md (take len (concat s))") (auto simp: dns_header_invalid_eq agree_def)
  next
    case False
    then obtain e where "err = Some e" using f(3) by auto
    moreover have "take len (concat s @ c) = concat s @ take (len - length (concat s)) c" using False by simp
    ultimately show ?thesis using False by (auto simp: dns_header_invalid_eq nth_append)
  qed
  then show "agree (=)
      (if len < 12 then Inl EInvalid
       else let (packet, err) = snf_ReadFullFrom env len s in ?rest packet err)
      (if len < 12 then Inl EInvalid
       else let (packet, err) = snf_ReadFullFrom env len s' in ?rest packet err)"
    by (simp add: f(1,2) del: take_append)
qed

subsection \<open>Properties\<close>

text \<open>A sample of the other modules' functions: readers as they are documented, parsers that refuse everything but one message.\<close>

definition sample_response :: Msg where
  "sample_response =
     \<lparr>msg_Id = 1, msg_Response = True, msg_Authoritative = False, msg_RecursionDesired = True, msg_RecursionAvailable = True,
      msg_Rcode = 0, msg_Question = [], msg_Answer = [], msg_Ns = [], msg_Extra = []\<rparr>"

definition sample_snf :: snf_env where
  "sample_snf =
     \<lparr>snf_Unpack = (\<lambda>b. if b = [7] then Inr sample_response else Inl EInvalid), snf_ReadRequest = (\<lambda>_. Inl EInvalid),
      snf_IsUnexpectedEOF = (\<lambda>_. False), snf_HostFqdn = (\<lambda>h. h), snf_ClientHello = (\<lambda>_. Inl EInvalid),
      snf_ReadFullFrom = (\<lambda>n r. (take n (concat r), if n \<le> length (concat r) then None else Some io_ErrUnexpectedEOF)),
      snf_SkipN = (\<lambda>n r. if n \<le> length (concat r) then Inr (drop_buffers n r) else Inl io_EOF),
      snf_QUICClientHello = (\<lambda>_ _. Inl EInvalid)\<rparr>"

lemma sample_snf_ok: "snf_env_ok sample_snf" "snf_readers_ok sample_snf"
  by (simp_all add: snf_env_ok_def snf_readers_ok_def sample_snf_def)



text \<open>
  C16: the loop over the extensions of a uTP packet returns for every packet, with success or one of
  two errors.
\<close>

theorem utp_extensions_terminate:
  "\<exists>r. UTP_extensions extension reader = Some r \<and> r \<in> {None, Some io_EOF, Some EInvalid}"
  using UTP_extensions_returns by simp

text \<open>
  C15: a stream sniffer decides as soon as the data allow it: when the BitTorrent, RDP or DNS sniffer
  does not ask for more data, its verdict on any longer stream is the same. So a stream that the router
  has given up on would not have been recognised later.
\<close>

theorem stream_verdict_stable:
  assumes "snf_readers_ok env" "sniffer \<in> {BitTorrent, RDP, StreamDomainNameQuery}"
    and "run_sniffer env sniffer md [b] = r" "case r of Inl e \<Rightarrow> \<not> Is_NeedMoreData e | Inr _ \<Rightarrow> True"
  shows "run_sniffer env sniffer md [b @ c] = r"
proof -
  have "longer c [b] [b @ c]" by (simp add: longer_def)
  then have "agree (=) (run_sniffer env sniffer md [b]) (run_sniffer env sniffer md [b @ c])"
    using assms(1,2) agree_RDP agree_BitTorrent agree_StreamDomainNameQuery by auto
  then show ?thesis using assms(3,4) by (auto simp: agree_def split: sum.splits)
qed

theorem stream_verdict_stable_witness:
  "run_sniffer sample_snf RDP zero_context ([[3, 1]] :: bytes list) = Inl EInvalid \<and>
   run_sniffer sample_snf RDP zero_context [[3, 1] @ [0, 19, 14]] = Inl EInvalid"
proof -
  have r: "run_sniffer sample_snf RDP zero_context [[3, 1]] = Inl EInvalid"
    by (simp add: sniff_RDP_def expect_number_def read_number_def be_value_def)
  show ?thesis
    using stream_verdict_stable [OF sample_snf_ok(2) _ r, where c = "[0, 19, 14]"] r by simp
qed



end
