(* ===== verification/RuleSets.thy ===== *)
theory RuleSets
  imports SrsLaws
begin

text \<open>
  Rule sets (\<open>route/rule/rule_set.go\<close>, \<open>rule_set_local.go\<close>, \<open>rule_set_remote.go\<close>,
  \<open>rule_set_updater.go\<close>): building the rules and the metadata of a set, local sets with their file
  watcher, remote sets with their cache and their updates, the reference counts that rules hold on sets
  (\<open>rule_item_rule_set.go\<close>, \<open>rule_abstract.go\<close>) and the stages of the router that deal with sets
  (\<open>route/router.go\<close>). The saved form of a set is that of \<open>adapter/experimental.go\<close>.

  A local and a remote set share the fields of \<open>RuleSetState\<close>. Loading gives the new state and the
  callbacks that are called with it. The parameters (\<open>set_env\<close>) are the JSON decoder, the file system
  and its watcher, SHA-256, the codec's libraries and the validator that the DNS router registers; a fetch gets the
  reply of the server, the time and whether the cache file can be written. Times are nanoseconds since
  1970; locks and contexts are left out.
\<close>

record ('m, 'a) set_env =
  st_srs :: "('m, 'a) srs_env"
  st_hasNetworkManager :: bool
  st_UnmarshalSource :: "bytes \<Rightarrow> (u8 \<times> HeadlessRule_options list) result"
  st_ReadFile :: "string \<Rightarrow> bytes result"
  st_BasePath :: "string \<Rightarrow> string"
  st_NewWatcher :: "string \<Rightarrow> unit result"
  st_Sum256 :: "bytes \<Rightarrow> bytes"
  st_Validator :: "(string \<Rightarrow> RuleSetMetadata \<Rightarrow> error option) option"

subsection \<open>Metadata\<close>

fun HasHeadlessRule :: "HeadlessRule_options list \<Rightarrow> (DefaultHeadlessRule_options \<Rightarrow> bool) \<Rightarrow> bool" where
  "HasHeadlessRule [] cond \<longleftrightarrow> False"
| "HasHeadlessRule (HeadlessRule_options type' default' mode rules inv' # rest) cond \<longleftrightarrow>
     (if type' = ''default'' then cond default' else if type' = ''logical'' then HasHeadlessRule rules cond else False) \<or>
     HasHeadlessRule rest cond"

definition isProcessHeadlessRule :: "DefaultHeadlessRule_options \<Rightarrow> bool" where
  "isProcessHeadlessRule rule \<longleftrightarrow>
     length (h_ProcessName rule) > 0 \<or> length (h_ProcessPath rule) > 0 \<or> length (h_ProcessPathRegex rule) > 0 \<or>
     length (h_PackageName rule) > 0 \<or> length (h_PackageNameRegex rule) > 0"

definition isWIFIHeadlessRule :: "DefaultHeadlessRule_options \<Rightarrow> bool" where
  "isWIFIHeadlessRule rule \<longleftrightarrow> length (h_WIFISSID rule) > 0 \<or> length (h_WIFIBSSID rule) > 0"

definition isIPCIDRHeadlessRule :: "DefaultHeadlessRule_options \<Rightarrow> bool" where
  "isIPCIDRHeadlessRule rule \<longleftrightarrow> length (h_IPCIDR rule) > 0 \<or> \<not> Option.is_none (h_IPSet rule)"

definition isDNSQueryTypeHeadlessRule :: "DefaultHeadlessRule_options \<Rightarrow> bool" where
  "isDNSQueryTypeHeadlessRule rule \<longleftrightarrow> length (h_QueryType rule) > 0"

text \<open>\<open>reflect.DeepEqual\<close> with the rule that has only the CIDR fields and \<open>invert\<close>; a nil and an empty list are not told apart.\<close>

definition isNonIPCIDRHeadlessRule :: "DefaultHeadlessRule_options \<Rightarrow> bool" where
  "isNonIPCIDRHeadlessRule rule \<longleftrightarrow>
     \<not> (h_QueryType rule = [] \<and> h_Network rule = [] \<and> h_Domain rule = [] \<and> h_DomainSuffix rule = [] \<and>
        h_DomainKeyword rule = [] \<and> h_DomainRegex rule = [] \<and> h_SourceIPCIDR rule = [] \<and> h_SourcePort rule = [] \<and>
        h_SourcePortRange rule = [] \<and> h_Port rule = [] \<and> h_PortRange rule = [] \<and> h_ProcessName rule = [] \<and>
        h_ProcessPath rule = [] \<and> h_ProcessPathRegex rule = [] \<and> h_PackageName rule = [] \<and>
        h_PackageNameRegex rule = [] \<and> h_NetworkType rule = [] \<and> \<not> h_NetworkIsExpensive rule \<and>
        \<not> h_NetworkIsConstrained rule \<and> h_WIFISSID rule = [] \<and> h_WIFIBSSID rule = [] \<and>
        h_NetworkInterfaceAddress rule = None \<and> h_DefaultInterfaceAddress rule = [] \<and>
        Option.is_none (h_DomainMatcher rule) \<and> Option.is_none (h_SourceIPSet rule) \<and> h_AdGuardDomain rule = [] \<and>
        Option.is_none (h_AdGuardDomainMatcher rule))"

definition buildRuleSetMetadata :: "HeadlessRule_options list \<Rightarrow> RuleSetMetadata" where
  "buildRuleSetMetadata rules =
     \<lparr>ContainsProcessRule = HasHeadlessRule rules isProcessHeadlessRule,
      ContainsWIFIRule = HasHeadlessRule rules isWIFIHeadlessRule,
      ContainsIPCIDRRule = HasHeadlessRule rules isIPCIDRHeadlessRule,
      ContainsDNSQueryTypeRule = HasHeadlessRule rules isDNSQueryTypeHeadlessRule,
      ContainsNonIPCIDRRule = HasHeadlessRule rules isNonIPCIDRHeadlessRule\<rparr>"

definition validateRuleSetMetadataUpdate :: "('m, 'a) set_env \<Rightarrow> string \<Rightarrow> RuleSetMetadata \<Rightarrow> unit result" where
  "validateRuleSetMetadataUpdate env tag metadata =
     (case st_Validator env of
        None \<Rightarrow> Inr ()
      | Some validator \<Rightarrow> (case validator tag metadata of None \<Rightarrow> Inr () | Some e \<Rightarrow> Inl e))"

fun extractIPSetFromRule :: "Rule \<Rightarrow> ipset list result" where
  "extractIPSetFromRule (DefaultHeadlessRule r) =
     Inr (concat (map (\<lambda>item. case item of IPCIDRItem ipSet _ _ \<Rightarrow> [ipSet] | _ \<Rightarrow> []) (destinationIPCIDRItems r)))"
| "extractIPSetFromRule (LogicalHeadlessRule rules _ _) =
     res_bind (res_mapM extractIPSetFromRule rules) (\<lambda>sets. Inr (concat sets))"
| "extractIPSetFromRule _ = Inl (EPanic ''unexpected rule type'')"

definition ExtractIPSet :: "RuleSetState \<Rightarrow> ipset list result" where
  "ExtractIPSet s = res_bind (res_mapM extractIPSetFromRule (rst_rules s)) (\<lambda>sets. Inr (concat sets))"

subsection \<open>Loading\<close>

definition Upgrade :: "u8 \<times> HeadlessRule_options list \<Rightarrow> HeadlessRule_options list result" where
  "Upgrade r =
     (if List.member [1, 2, 3, 4, 5] (fst r) then Inr (snd r)
      else Inl (ENew (''unknown rule-set version: '' @ strconv_FormatUint (unat (fst r)))))"

text \<open>\<open>reloadRules\<close>, which is also the second half of \<open>loadBytes\<close> of a remote set.\<close>

definition reloadRules ::
    "('m, 'a) set_env \<Rightarrow> HeadlessRule_options list \<Rightarrow> RuleSetState \<Rightarrow> (RuleSetState \<times> nat list) result" where
  "reloadRules env headlessRules s =
     res_bind (res_mapiM ''parse rule_set.rules.['' (NewHeadlessRule (srs_rules (st_srs env)) (st_hasNetworkManager env)) 0 headlessRules) (\<lambda>rules.
     let metadata = buildRuleSetMetadata headlessRules in
     res_bind (validateRuleSetMetadataUpdate env (rst_tag s) metadata) (\<lambda>_.
       Inr (s\<lparr>rst_rules := rules, rst_metadata := metadata\<rparr>, rst_callbacks s)))"

definition reloadFile :: "('m, 'a) set_env \<Rightarrow> string \<Rightarrow> RuleSetState \<Rightarrow> (RuleSetState \<times> nat list) result" where
  "reloadFile env path s =
     res_bind
       (if rst_fileFormat s = ''source'' \<or> rst_fileFormat s = [] then
          res_bind (st_ReadFile env path) (st_UnmarshalSource env)
        else if rst_fileFormat s = ''binary'' then
          res_bind (st_ReadFile env path) (\<lambda>content. srs_Read (st_srs env) False (content, io_EOF))
        else Inl (ENew (''unknown rule-set format: '' @ rst_fileFormat s))) (\<lambda>ruleSet.
     res_bind (Upgrade ruleSet) (\<lambda>rules. reloadRules env rules s))"

definition loadBytes :: "('m, 'a) set_env \<Rightarrow> bytes \<Rightarrow> RuleSetState \<Rightarrow> (RuleSetState \<times> nat list) result" where
  "loadBytes env content s =
     res_bind
       (if rst_fileFormat s = ''source'' then st_UnmarshalSource env content
        else if rst_fileFormat s = ''binary'' then srs_Read (st_srs env) False (content, io_EOF)
        else Inl (ENew (''unknown rule-set format: '' @ rst_fileFormat s))) (\<lambda>ruleSet.
     res_bind (Upgrade ruleSet) (\<lambda>rules. reloadRules env rules s))"

definition new_set :: "string \<Rightarrow> string \<Rightarrow> RuleSetState" where
  "new_set tag format =
     \<lparr>rst_tag = tag, rst_rules = [], rst_metadata = no_metadata, rst_fileFormat = format, rst_callbacks = [], rst_refs = 0\<rparr>"

fun replace_loop :: "string \<Rightarrow> string \<Rightarrow> nat \<Rightarrow> string \<Rightarrow> string" where
  "replace_loop old new (Suc skip) (c # s) = replace_loop old new skip s"
| "replace_loop old new 0 (c # s) =
     (if take (length old) (c # s) = old then new @ replace_loop old new (length old - 1) s else c # replace_loop old new 0 s)"
| "replace_loop old new n [] = []"

text \<open>\<open>strings.ReplaceAll\<close> with a nonempty old string.\<close>

definition strings_ReplaceAll :: "string \<Rightarrow> string \<Rightarrow> string \<Rightarrow> string" where
  "strings_ReplaceAll s old new = replace_loop old new 0 s"

abbreviation (input) RuleSetTagPlaceholder :: string where
  "RuleSetTagPlaceholder \<equiv> ''{tag}''"

record RuleSet_options =
  rs_Type :: string
  rs_Tag :: "string list"
  rs_Format :: string
  rs_Rules :: "HeadlessRule_options list"
  rs_Path :: string
  rs_URL :: string
  rs_UpdateInterval :: int
  rs_InitialPath :: string

text \<open>\<open>file_changed\<close> is the callback of the file watcher.\<close>

definition NewLocalRuleSet :: "('m, 'a) set_env \<Rightarrow> string \<Rightarrow> RuleSet_options \<Rightarrow> RuleSetState result" where
  "NewLocalRuleSet env tag options =
     (let ruleSet = new_set tag (rs_Format options) in
      if rs_Type options = ''inline'' then
        if length (rs_Rules options) = 0 then Inl (ENew ''empty inline rule-set'')
        else res_bind (reloadRules env (rs_Rules options) ruleSet) (\<lambda>(ruleSet, _). Inr ruleSet)
      else
        let filePath = st_BasePath env (strings_ReplaceAll (rs_Path options) RuleSetTagPlaceholder tag) in
        res_bind (reloadFile env filePath ruleSet) (\<lambda>(ruleSet, _).
        res_bind (st_NewWatcher env filePath) (\<lambda>_. Inr ruleSet)))"

definition file_changed :: "('m, 'a) set_env \<Rightarrow> string \<Rightarrow> RuleSetState \<Rightarrow> RuleSetState \<times> nat list" where
  "file_changed env path s = (case reloadFile env path s of Inl _ \<Rightarrow> (s, []) | Inr r \<Rightarrow> r)"

subsection \<open>References, callbacks, closing\<close>

definition IncRef :: "RuleSetState \<Rightarrow> RuleSetState" where
  "IncRef s = s\<lparr>rst_refs := rst_refs s + 1\<rparr>"

definition DecRef :: "RuleSetState \<Rightarrow> RuleSetState result" where
  "DecRef s =
     (if rst_refs s - 1 < 0 then Inl (EPanic ''rule-set: negative refs'') else Inr (s\<lparr>rst_refs := rst_refs s - 1\<rparr>))"

definition Cleanup :: "RuleSetState \<Rightarrow> RuleSetState" where
  "Cleanup s = (if rst_refs s = 0 then s\<lparr>rst_rules := []\<rparr> else s)"

definition RuleSet_Close :: "RuleSetState \<Rightarrow> RuleSetState" where
  "RuleSet_Close s = s\<lparr>rst_rules := []\<rparr>"

text \<open>A callback is registered under a new identifier, the element of the list.\<close>

definition RegisterCallback :: "nat \<Rightarrow> RuleSetState \<Rightarrow> RuleSetState" where
  "RegisterCallback element s = s\<lparr>rst_callbacks := rst_callbacks s @ [element]\<rparr>"

definition UnregisterCallback :: "nat \<Rightarrow> RuleSetState \<Rightarrow> RuleSetState" where
  "UnregisterCallback element s = s\<lparr>rst_callbacks := filter (\<lambda>c. c \<noteq> element) (rst_callbacks s)\<rparr>"

fun dec_refs :: "string list \<Rightarrow> rule_set_store \<Rightarrow> rule_set_store result" where
  "dec_refs [] st = Inr st"
| "dec_refs (tag # tags) st =
     (case st tag of
        None \<Rightarrow> Inl (EPanic ''nil rule-set'')
      | Some s \<Rightarrow> res_bind (DecRef s) (\<lambda>s'. dec_refs tags (st(tag \<mapsto> s'))))"

definition RuleSetItem_Close :: "RuleSetItem \<Rightarrow> rule_set_store \<Rightarrow> (RuleSetItem \<times> rule_set_store) result" where
  "RuleSetItem_Close item st = res_bind (dec_refs (setList item) st) (\<lambda>st'. Inr (item\<lparr>setList := []\<rparr>, st'))"

fun start_sets :: "string list \<Rightarrow> RuleSetItem \<Rightarrow> rule_set_store \<Rightarrow> (error option \<times> RuleSetItem \<times> rule_set_store) result" where
  "start_sets [] item st = Inr (None, item, st)"
| "start_sets (tag # tags) item st =
     (case st tag of
        None \<Rightarrow> res_bind (RuleSetItem_Close item st) (\<lambda>(item, st). Inr (Some (ENew (''rule-set not found: '' @ tag)), item, st))
      | Some s \<Rightarrow> start_sets tags (item\<lparr>setList := setList item @ [tag]\<rparr>) (st(tag \<mapsto> IncRef s)))"

definition RuleSetItem_Start :: "RuleSetItem \<Rightarrow> rule_set_store \<Rightarrow> (error option \<times> RuleSetItem \<times> rule_set_store) result" where
  "RuleSetItem_Start item st = res_bind (RuleSetItem_Close item st) (\<lambda>(item, st). start_sets (tagList item) item st)"

text \<open>
  Starting and closing a rule; \<open>other\<close> starts an item that is not a rule-set item. The result is a
  panic, or an error, the rule and the sets after it.
\<close>

fun start_items ::
    "(RuleItem \<Rightarrow> error option) \<Rightarrow> item_ref list \<Rightarrow> abstractDefaultRule \<Rightarrow> rule_set_store \<Rightarrow>
     (error option \<times> abstractDefaultRule \<times> rule_set_store) result" where
  "start_items other [] r st = Inr (None, r, st)"
| "start_items other (ItemRef it # rest) r st =
     (case other it of Some e \<Rightarrow> Inr (Some e, r, st) | None \<Rightarrow> start_items other rest r st)"
| "start_items other (RuleSetItemRef # rest) r st =
     (case ruleSetItem r of
        None \<Rightarrow> Inl (EPanic ''nil rule-set item'')
      | Some item \<Rightarrow>
          res_bind (RuleSetItem_Start item st) (\<lambda>(err, item', st').
            let r' = r\<lparr>ruleSetItem := Some item'\<rparr> in
            case err of Some e \<Rightarrow> Inr (Some e, r', st') | None \<Rightarrow> start_items other rest r' st'))"

fun close_items :: "item_ref list \<Rightarrow> abstractDefaultRule \<Rightarrow> rule_set_store \<Rightarrow> (abstractDefaultRule \<times> rule_set_store) result" where
  "close_items [] r st = Inr (r, st)"
| "close_items (ItemRef it # rest) r st = close_items rest r st"
| "close_items (RuleSetItemRef # rest) r st =
     (case ruleSetItem r of
        None \<Rightarrow> Inl (EPanic ''nil rule-set item'')
      | Some item \<Rightarrow>
          res_bind (RuleSetItem_Close item st) (\<lambda>(item', st'). close_items rest (r\<lparr>ruleSetItem := Some item'\<rparr>) st'))"

text \<open>A function over the rules of a logical rule that stops at the first error.\<close>

fun start_all ::
    "('r \<Rightarrow> 's \<Rightarrow> (error option \<times> 'r \<times> 's) result) \<Rightarrow> 'r list \<Rightarrow> 's \<Rightarrow> (error option \<times> 'r list \<times> 's) result" where
  "start_all f [] st = Inr (None, [], st)"
| "start_all f (r # rs) st =
     res_bind (f r st) (\<lambda>(err, r', st').
       case err of
         Some e \<Rightarrow> Inr (Some e, r' # rs, st')
       | None \<Rightarrow> res_bind (start_all f rs st') (\<lambda>(err', rs', st''). Inr (err', r' # rs', st'')))"

lemma start_all_cong [fundef_cong]:
  "rs = rs' \<Longrightarrow> st = st' \<Longrightarrow> (\<And>r s. r \<in> set rs' \<Longrightarrow> f r s = g r s) \<Longrightarrow> start_all f rs st = start_all g rs' st'"
proof (induction rs arbitrary: rs' st st')
  case (Cons r rs)
  then show ?case by (auto intro!: arg_cong [where f = "res_bind (g r st')"] ext split: option.split)
qed auto

fun close_all :: "('r \<Rightarrow> 's \<Rightarrow> ('r \<times> 's) result) \<Rightarrow> 'r list \<Rightarrow> 's \<Rightarrow> ('r list \<times> 's) result" where
  "close_all f [] st = Inr ([], st)"
| "close_all f (r # rs) st =
     res_bind (f r st) (\<lambda>(r', st'). res_bind (close_all f rs st') (\<lambda>(rs', st''). Inr (r' # rs', st'')))"

lemma close_all_cong [fundef_cong]:
  "rs = rs' \<Longrightarrow> st = st' \<Longrightarrow> (\<And>r s. r \<in> set rs' \<Longrightarrow> f r s = g r s) \<Longrightarrow> close_all f rs st = close_all g rs' st'"
proof (induction rs arbitrary: rs' st st')
  case (Cons r rs)
  then show ?case by (auto intro!: arg_cong [where f = "res_bind (g r st')"] ext)
qed auto

fun rule_Start :: "(RuleItem \<Rightarrow> error option) \<Rightarrow> Rule \<Rightarrow> rule_set_store \<Rightarrow> (error option \<times> Rule \<times> rule_set_store) result" where
  "rule_Start other (DefaultHeadlessRule r) st =
     res_bind (start_items other (allItems r) r st) (\<lambda>(e, r', st'). Inr (e, DefaultHeadlessRule r', st'))"
| "rule_Start other (LogicalHeadlessRule rs m i) st =
     res_bind (start_all (rule_Start other) rs st) (\<lambda>(e, rs', st'). Inr (e, LogicalHeadlessRule rs' m i, st'))"
| "rule_Start other (DefaultRule r) st =
     res_bind (start_items other (allItems r) r st) (\<lambda>(e, r', st'). Inr (e, DefaultRule r', st'))"
| "rule_Start other (LogicalRule rs m i a) st =
     res_bind (start_all (rule_Start other) rs st) (\<lambda>(e, rs', st'). Inr (e, LogicalRule rs' m i a, st'))"
| "rule_Start other (DefaultDNSRule r mr tag race) st =
     res_bind (start_items other (allItems r) r st) (\<lambda>(e, r', st'). Inr (e, DefaultDNSRule r' mr tag race, st'))"
| "rule_Start other (LogicalDNSRule rs m i a tags anon race) st =
     res_bind (start_all (rule_Start other) rs st) (\<lambda>(e, rs', st'). Inr (e, LogicalDNSRule rs' m i a tags anon race, st'))"

fun rule_Close :: "Rule \<Rightarrow> rule_set_store \<Rightarrow> (Rule \<times> rule_set_store) result" where
  "rule_Close (DefaultHeadlessRule r) st = res_bind (close_items (allItems r) r st) (\<lambda>(r', st'). Inr (DefaultHeadlessRule r', st'))"
| "rule_Close (LogicalHeadlessRule rs m i) st = res_bind (close_all rule_Close rs st) (\<lambda>(rs', st'). Inr (LogicalHeadlessRule rs' m i, st'))"
| "rule_Close (DefaultRule r) st = res_bind (close_items (allItems r) r st) (\<lambda>(r', st'). Inr (DefaultRule r', st'))"
| "rule_Close (LogicalRule rs m i a) st = res_bind (close_all rule_Close rs st) (\<lambda>(rs', st'). Inr (LogicalRule rs' m i a, st'))"
| "rule_Close (DefaultDNSRule r mr tag race) st =
     res_bind (close_items (allItems r) r st) (\<lambda>(r', st'). Inr (DefaultDNSRule r' mr tag race, st'))"
| "rule_Close (LogicalDNSRule rs m i a tags anon race) st =
     res_bind (close_all rule_Close rs st) (\<lambda>(rs', st'). Inr (LogicalDNSRule rs' m i a tags anon race, st'))"

text \<open>
  The stages of the router that start the rules and clean up the sets, and the part of its \<open>Close\<close>
  for rules and sets. The monitor, the updater and the other parts of the router are left out.
\<close>

fun start_rules ::
    "(RuleItem \<Rightarrow> error option) \<Rightarrow> nat \<Rightarrow> Rule list \<Rightarrow> rule_set_store \<Rightarrow> (error option \<times> Rule list \<times> rule_set_store) result" where
  "start_rules other i [] st = Inr (None, [], st)"
| "start_rules other i (rule # rules) st =
     res_bind (rule_Start other rule st) (\<lambda>(err, rule', st').
       case err of
         Some e \<Rightarrow> Inr (Some (ECause (''initialize rule['' @ strconv_FormatUint i @ '']'') e), rule' # rules, st')
       | None \<Rightarrow> res_bind (start_rules other (Suc i) rules st') (\<lambda>(err', rules', st''). Inr (err', rule' # rules', st'')))"

definition Router_PostStart ::
    "(RuleItem \<Rightarrow> error option) \<Rightarrow> Rule list \<Rightarrow> rule_set_store \<Rightarrow> (error option \<times> Rule list \<times> rule_set_store) result" where
  "Router_PostStart other rules st = start_rules other 0 rules st"

definition Router_Started :: "rule_set_store \<Rightarrow> rule_set_store" where
  "Router_Started st = (\<lambda>tag. map_option Cleanup (st tag))"

definition Router_Close :: "Rule list \<Rightarrow> rule_set_store \<Rightarrow> (Rule list \<times> rule_set_store) result" where
  "Router_Close rules st =
     res_bind (close_all rule_Close rules st) (\<lambda>(rules', st'). Inr (rules', \<lambda>tag. map_option RuleSet_Close (st' tag)))"

end
