(* ===== verification/RuleSetLaws.thy ===== *)
theory RuleSetLaws
  imports RuleSets
begin

text \<open>
  References of rules on rule sets: the reference count of a set is, at any time, the number of times
  the started rules hold it, plus what others hold. So closing never finds too few references, and a
  set that a rule holds is never cleaned up.
\<close>

fun defaults :: "Rule \<Rightarrow> abstractDefaultRule list" where
  "defaults (DefaultHeadlessRule r) = [r]"
| "defaults (LogicalHeadlessRule rs _ _) = concat (map defaults rs)"
| "defaults (DefaultRule r) = [r]"
| "defaults (LogicalRule rs _ _ _) = concat (map defaults rs)"
| "defaults (DefaultDNSRule r _ _ _) = [r]"
| "defaults (LogicalDNSRule rs _ _ _ _ _ _) = concat (map defaults rs)"

text \<open>The sets a rule holds and the sets it names; a rule lists its rule-set item exactly when it has one.\<close>

definition item_held :: "abstractDefaultRule \<Rightarrow> string list" where
  "item_held r = (case ruleSetItem r of None \<Rightarrow> [] | Some item \<Rightarrow> setList item)"

definition item_named :: "abstractDefaultRule \<Rightarrow> string list" where
  "item_named r = (case ruleSetItem r of None \<Rightarrow> [] | Some item \<Rightarrow> tagList item)"

definition listed :: "abstractDefaultRule \<Rightarrow> bool" where
  "listed r \<longleftrightarrow> (RuleSetItemRef \<in> set (allItems r) \<longleftrightarrow> ruleSetItem r \<noteq> None)"

abbreviation held :: "Rule \<Rightarrow> string list" where
  "held rule \<equiv> concat (map item_held (defaults rule))"

abbreviation named :: "Rule \<Rightarrow> string list" where
  "named rule \<equiv> concat (map item_named (defaults rule))"

definition all_listed :: "Rule \<Rightarrow> bool" where
  "all_listed rule \<longleftrightarrow> list_all listed (defaults rule)"

text \<open>The references of \<open>xs\<close> are counted, \<open>k\<close> are those of others.\<close>

definition counts :: "rule_set_store \<Rightarrow> string list \<Rightarrow> (string \<Rightarrow> int) \<Rightarrow> bool" where
  "counts st xs k \<longleftrightarrow>
     (\<forall>tag s. st tag = Some s \<longrightarrow> rst_refs s = int (count_list xs tag) + k tag) \<and> set xs \<subseteq> dom st \<and> (\<forall>tag. 0 \<le> k tag)"

text \<open>Nothing but the counts differs.\<close>

definition same_sets :: "rule_set_store \<Rightarrow> rule_set_store \<Rightarrow> bool" where
  "same_sets st st' \<longleftrightarrow>
     (\<forall>tag. map_option (\<lambda>s. s\<lparr>rst_refs := 0\<rparr>) (st' tag) = map_option (\<lambda>s. s\<lparr>rst_refs := 0\<rparr>) (st tag))"

lemma same_sets_refl [simp, intro]: "same_sets st st"
  by (simp add: same_sets_def)

lemma same_sets_trans [trans]: "same_sets st st' \<Longrightarrow> same_sets st' st'' \<Longrightarrow> same_sets st st''"
  by (simp add: same_sets_def)

lemma same_sets_refs: "st tag = Some s \<Longrightarrow> same_sets st (st(tag \<mapsto> s\<lparr>rst_refs := n\<rparr>))"
  by (simp add: same_sets_def)

lemma same_sets_dom: "same_sets st st' \<Longrightarrow> dom st' = dom st"
  unfolding same_sets_def dom_def by (metis option.map_disc_iff)

lemma same_sets_Some:
  assumes "same_sets st st'" "st' tag = Some s'"
  shows "\<exists>s. st tag = Some s \<and> s' = s\<lparr>rst_refs := rst_refs s'\<rparr>"
proof -
  obtain s where "st tag = Some s" "s'\<lparr>rst_refs := 0\<rparr> = s\<lparr>rst_refs := 0\<rparr>"
    using assms unfolding same_sets_def by (metis (no_types, lifting) map_option_eq_Some option.simps(9))
  then show ?thesis by (cases s; cases s') auto
qed

lemma counts_frame:
  "counts st (xs @ ys) k \<longleftrightarrow> counts st xs (\<lambda>tag. int (count_list ys tag) + k tag) \<and> set ys \<subseteq> dom st \<and> (\<forall>tag. 0 \<le> k tag)"
  by (auto simp: counts_def add.assoc)

lemma counts_swap: "counts st (xs @ ys) k \<longleftrightarrow> counts st (ys @ xs) k"
  by (auto simp: counts_def)

lemma dom_None: "dom m' = dom m \<Longrightarrow> m' tag = None \<Longrightarrow> m tag = None"
  by (metis domIff)

text \<open>The counts determine the sets.\<close>

lemma counted_store:
  assumes "counts st' xs (\<lambda>tag. case st tag of None \<Rightarrow> 0 | Some s \<Rightarrow> rst_refs s)" "same_sets st st'"
  shows "st' tag = map_option (\<lambda>s. s\<lparr>rst_refs := rst_refs s + int (count_list xs tag)\<rparr>) (st tag)"
proof (cases "st' tag")
  case None
  then show ?thesis using dom_None [OF same_sets_dom [OF assms(2)] None] by simp
next
  case (Some s')
  obtain s where s: "st tag = Some s" "s' = s\<lparr>rst_refs := rst_refs s'\<rparr>" using same_sets_Some [OF assms(2) Some] by blast
  have "rst_refs s' = rst_refs s + int (count_list xs tag)" using assms(1) Some s(1) by (auto simp: counts_def)
  then show ?thesis using Some s by simp
qed

lemma counts_nothing:
  assumes "counts st' [] (\<lambda>tag. case st tag of None \<Rightarrow> 0 | Some s \<Rightarrow> rst_refs s)" "dom st' = dom st"
  shows "map_option rst_refs (st' tag) = map_option rst_refs (st tag)"
proof (cases "st' tag")
  case None
  then show ?thesis using dom_None [OF assms(2) None] by simp
next
  case (Some s')
  then obtain s where s: "st tag = Some s" using dom_None [OF assms(2) [symmetric], of tag] by auto
  have "rst_refs s' = rst_refs s" using assms(1) Some s unfolding counts_def by fastforce
  then show ?thesis using Some s by simp
qed

subsection \<open>Items\<close>

lemma counts_dec:
  assumes "counts st (tag # xs) k"
  shows "\<exists>s s'. st tag = Some s \<and> DecRef s = Inr s' \<and> counts (st(tag \<mapsto> s')) xs k \<and> same_sets st (st(tag \<mapsto> s'))"
proof -
  obtain s where s: "st tag = Some s" "rst_refs s = 1 + int (count_list xs tag) + k tag"
    using assms by (fastforce simp: counts_def)
  have k: "0 \<le> k tag" using assms by (auto simp: counts_def)
  have d: "DecRef s = Inr (s\<lparr>rst_refs := rst_refs s - 1\<rparr>)" using s k by (simp add: DecRef_def)
  have "counts (st(tag \<mapsto> s\<lparr>rst_refs := rst_refs s - 1\<rparr>)) xs k"
    using assms s by (auto simp: counts_def split: if_splits)
  then show ?thesis using s(1) d same_sets_refs [where st = st and tag = tag and s = s] by blast
qed

lemma dec_refs_counts:
  "counts st (xs @ ys) k \<Longrightarrow> \<exists>st'. dec_refs xs st = Inr st' \<and> counts st' ys k \<and> same_sets st st'"
proof (induction xs arbitrary: st)
  case (Cons tag xs)
  then obtain s s' where s: "st tag = Some s" "DecRef s = Inr s'" "counts (st(tag \<mapsto> s')) (xs @ ys) k"
    "same_sets st (st(tag \<mapsto> s'))" using counts_dec [of st tag "xs @ ys" k] by auto
  from Cons.IH [OF s(3)] obtain st' where i: "dec_refs xs (st(tag \<mapsto> s')) = Inr st'" "counts st' ys k"
    "same_sets (st(tag \<mapsto> s')) st'" by blast
  then show ?case using s(1,2) same_sets_trans [OF s(4) i(3)] by auto
qed auto

lemma RuleSetItem_Close_counts:
  assumes "counts st (setList item @ ys) k"
  shows "\<exists>st'. RuleSetItem_Close item st = Inr (item\<lparr>setList := []\<rparr>, st') \<and> counts st' ys k \<and> same_sets st st'"
  using dec_refs_counts [OF assms] by (auto simp: RuleSetItem_Close_def)

lemma counts_inc:
  assumes "counts st xs k" "st tag = Some s"
  shows "counts (st(tag \<mapsto> IncRef s)) (tag # xs) k" "same_sets st (st(tag \<mapsto> IncRef s))"
  using assms same_sets_refs [where st = st and tag = tag and s = s] by (auto simp: counts_def IncRef_def split: if_splits)

lemma start_sets_counts:
  "counts st (setList item) k \<Longrightarrow>
   \<exists>err item' st'. start_sets tags item st = Inr (err, item', st') \<and> counts st' (setList item') k \<and> same_sets st st' \<and>
     tagList item' = tagList item \<and> (err = None \<longrightarrow> setList item' = setList item @ tags)"
proof (induction tags arbitrary: item st)
  case (Cons tag tags)
  show ?case
  proof (cases "st tag")
    case None
    obtain st' where "RuleSetItem_Close item st = Inr (item\<lparr>setList := []\<rparr>, st')" "counts st' [] k" "same_sets st st'"
      using RuleSetItem_Close_counts [of st item "[]" k] Cons.prems by auto
    then show ?thesis using None by auto
  next
    case (Some s)
    let ?item = "item\<lparr>setList := setList item @ [tag]\<rparr>"
    have "counts (st(tag \<mapsto> IncRef s)) (setList ?item) k"
      using counts_inc(1) [OF Cons.prems Some] counts_swap [of _ "[tag]" "setList item"] by simp
    from Cons.IH [OF this] obtain err item' st' where i: "start_sets tags ?item (st(tag \<mapsto> IncRef s)) = Inr (err, item', st')"
      "counts st' (setList item') k" "same_sets (st(tag \<mapsto> IncRef s)) st'" "tagList item' = tagList ?item"
      "err = None \<longrightarrow> setList item' = setList ?item @ tags" by blast
    then show ?thesis using Some same_sets_trans [OF counts_inc(2) [OF Cons.prems Some] i(3)] by auto
  qed
qed auto

lemma RuleSetItem_Start_counts:
  assumes "counts st (setList item) k"
  shows "\<exists>err item' st'. RuleSetItem_Start item st = Inr (err, item', st') \<and> counts st' (setList item') k \<and> same_sets st st' \<and>
     tagList item' = tagList item \<and> (err = None \<longrightarrow> setList item' = tagList item)"
proof -
  obtain st1 where st1: "RuleSetItem_Close item st = Inr (item\<lparr>setList := []\<rparr>, st1)" "counts st1 [] k" "same_sets st st1"
    using RuleSetItem_Close_counts [of st item "[]" k] assms by auto
  obtain err item' st' where i: "start_sets (tagList item) (item\<lparr>setList := []\<rparr>) st1 = Inr (err, item', st')"
      "counts st' (setList item') k" "same_sets st1 st'" "tagList item' = tagList item"
      "err = None \<longrightarrow> setList item' = tagList item"
    using start_sets_counts [of st1 "item\<lparr>setList := []\<rparr>" k "tagList item"] st1(2) by auto
  then show ?thesis using st1(1) same_sets_trans [OF st1(3) i(3)] by (auto simp: RuleSetItem_Start_def)
qed

text \<open>What starting leaves as it was in a default rule.\<close>

definition same_rule :: "abstractDefaultRule \<Rightarrow> abstractDefaultRule \<Rightarrow> bool" where
  "same_rule r r' \<longleftrightarrow> allItems r' = allItems r \<and> item_named r' = item_named r \<and> (ruleSetItem r' = None \<longleftrightarrow> ruleSetItem r = None)"

lemma same_rule_refl [simp]: "same_rule r r"
  by (simp add: same_rule_def)

lemma same_rule_trans: "same_rule r r' \<Longrightarrow> same_rule r' r'' \<Longrightarrow> same_rule r r''"
  by (auto simp: same_rule_def)

lemma start_items_counts:
  "counts st (item_held r) k \<Longrightarrow> (RuleSetItemRef \<in> set refs \<Longrightarrow> ruleSetItem r \<noteq> None) \<Longrightarrow>
   \<exists>err r' st'. start_items other refs r st = Inr (err, r', st') \<and> counts st' (item_held r') k \<and> same_sets st st' \<and>
     same_rule r r' \<and>
     (err = None \<longrightarrow> item_held r' = (if RuleSetItemRef \<in> set refs then item_named r else item_held r))"
proof (induction other refs r st rule: start_items.induct)
  case (1 other r st)
  then show ?case by simp
next
  case (2 other it rest r st)
  then show ?case by (cases "other it") auto
next
  case (3 other rest r st)
  then obtain item where item: "ruleSetItem r = Some item" by auto
  then have "counts st (setList item) k" using 3(2) by (simp add: item_held_def)
  from RuleSetItem_Start_counts [OF this] obtain err item' st1 where
    s: "RuleSetItem_Start item st = Inr (err, item', st1)" "counts st1 (setList item') k" "same_sets st st1"
      "tagList item' = tagList item" "err = None \<Longrightarrow> setList item' = tagList item" by blast
  let ?r = "r\<lparr>ruleSetItem := Some item'\<rparr>"
  have r: "counts st1 (item_held ?r) k" "same_rule r ?r" "item_named ?r = item_named r"
    using s item by (simp_all add: item_held_def item_named_def same_rule_def)
  show ?case
  proof (cases err)
    case (Some e)
    then show ?thesis using s item r by auto
  next
    case None
    have h: "item_held ?r = item_named r" using s(5) None item by (simp add: item_held_def item_named_def)
    obtain err' r' st' where i: "start_items other rest ?r st1 = Inr (err', r', st')" "counts st' (item_held r') k"
      "same_sets st1 st'" "same_rule ?r r'"
      "err' = None \<Longrightarrow> item_held r' = (if RuleSetItemRef \<in> set rest then item_named ?r else item_held ?r)"
      using 3(1) [OF item refl refl r(1)] by auto
    have "same_rule r r'" using i(4) r(2) by (rule same_rule_trans [rotated])
    moreover have "err' = None \<Longrightarrow> item_held r' = item_named r" using i(5) h r(3) by (simp split: if_splits)
    ultimately show ?thesis using s item i None same_sets_trans [OF s(3) i(3)] by auto
  qed
qed

lemma close_items_counts:
  "counts st (item_held r @ ys) k \<Longrightarrow> (RuleSetItemRef \<in> set refs \<Longrightarrow> ruleSetItem r \<noteq> None) \<Longrightarrow>
   \<exists>r' st'. close_items refs r st = Inr (r', st') \<and> counts st' (item_held r' @ ys) k \<and> same_sets st st' \<and> same_rule r r' \<and>
     item_held r' = (if RuleSetItemRef \<in> set refs then [] else item_held r)"
proof (induction refs r st rule: close_items.induct)
  case (3 rest r st)
  then obtain item where item: "ruleSetItem r = Some item" by auto
  then have "counts st (setList item @ ys) k" using 3(2) by (simp add: item_held_def)
  from RuleSetItem_Close_counts [OF this] obtain st1 where
    s: "RuleSetItem_Close item st = Inr (item\<lparr>setList := []\<rparr>, st1)" "counts st1 ys k" "same_sets st st1" by blast
  let ?r = "r\<lparr>ruleSetItem := Some (item\<lparr>setList := []\<rparr>)\<rparr>"
  have r: "counts st1 (item_held ?r @ ys) k" "same_rule r ?r" "item_held ?r = []"
    using s item by (simp_all add: item_held_def item_named_def same_rule_def)
  obtain r' st' where i: "close_items rest ?r st1 = Inr (r', st')" "counts st' (item_held r' @ ys) k" "same_sets st1 st'"
      "same_rule ?r r'" "item_held r' = []"
    using 3(1) [OF item r(1)] r(3) by (auto split: if_splits)
  have "same_rule r r'" using i(4) r(2) by (rule same_rule_trans [rotated])
  then show ?case using s item i same_sets_trans [OF s(3) i(3)] by auto
qed auto

subsection \<open>Rules\<close>

definition same_rules :: "Rule \<Rightarrow> Rule \<Rightarrow> bool" where
  "same_rules rule rule' \<longleftrightarrow> list_all2 same_rule (defaults rule) (defaults rule')"

lemma same_rules_named: "same_rules rule rule' \<Longrightarrow> named rule' = named rule"
proof -
  have "concat (map item_named rs') = concat (map item_named rs)" if "list_all2 same_rule rs rs'" for rs rs'
    using that by (induction rule: list_all2_induct) (auto simp: same_rule_def)
  then show "same_rules rule rule' \<Longrightarrow> named rule' = named rule" by (simp add: same_rules_def)
qed

lemma same_rules_listed: "same_rules rule rule' \<Longrightarrow> all_listed rule \<Longrightarrow> all_listed rule'"
proof -
  have "list_all listed rs \<longrightarrow> list_all listed rs'" if "list_all2 same_rule rs rs'" for rs rs'
    using that by (induction rule: list_all2_induct) (auto simp: same_rule_def listed_def)
  then show "same_rules rule rule' \<Longrightarrow> all_listed rule \<Longrightarrow> all_listed rule'" by (simp add: same_rules_def all_listed_def)
qed

lemma same_rules_refl [simp]: "same_rules rule rule"
  by (simp add: same_rules_def list.rel_refl)

text \<open>The outcome of starting something that holds \<open>xs\<close> and names \<open>ns\<close>, and of closing it.\<close>

definition started_ok ::
    "rule_set_store \<Rightarrow> (string \<Rightarrow> int) \<Rightarrow> string list \<Rightarrow> error option \<Rightarrow> string list \<Rightarrow> rule_set_store \<Rightarrow> bool" where
  "started_ok st k ns err xs st' \<longleftrightarrow> counts st' xs k \<and> same_sets st st' \<and> (err = None \<longrightarrow> xs = ns)"

definition starts :: "(Rule \<Rightarrow> rule_set_store \<Rightarrow> (error option \<times> Rule \<times> rule_set_store) result) \<Rightarrow> Rule \<Rightarrow> bool" where
  "starts f rule \<longleftrightarrow>
     (\<forall>st k. counts st (held rule) k \<longrightarrow>
        (\<exists>err rule' st'. f rule st = Inr (err, rule', st') \<and> started_ok st k (named rule) err (held rule') st' \<and> same_rules rule rule'))"

definition closes :: "(Rule \<Rightarrow> rule_set_store \<Rightarrow> (Rule \<times> rule_set_store) result) \<Rightarrow> Rule \<Rightarrow> bool" where
  "closes f rule \<longleftrightarrow>
     (\<forall>st k. counts st (held rule) k \<longrightarrow>
        (\<exists>rule' st'. f rule st = Inr (rule', st') \<and> counts st' [] k \<and> same_sets st st' \<and> held rule' = []))"

abbreviation held_all :: "Rule list \<Rightarrow> string list" where
  "held_all rules \<equiv> concat (map held rules)"

abbreviation named_all :: "Rule list \<Rightarrow> string list" where
  "named_all rules \<equiv> concat (map named rules)"

text \<open>The references of the rest of a list belong to others while its first element is worked on.\<close>

lemma counts_first:
  "counts st (xs @ ys) k \<Longrightarrow> counts st xs (\<lambda>tag. int (count_list ys tag) + k tag)"
  by (simp add: counts_frame)

lemma counts_rest:
  assumes "counts st (xs @ ys) k" "counts st' zs (\<lambda>tag. int (count_list ys tag) + k tag)" "same_sets st st'"
  shows "counts st' (ys @ zs) k"
proof -
  have "counts st' (zs @ ys) k" using assms same_sets_dom [OF assms(3)] by (simp add: counts_frame)
  then show ?thesis using counts_swap by blast
qed

lemma start_all_counts:
  "(\<And>r. r \<in> set rs \<Longrightarrow> starts f r) \<Longrightarrow> counts st (held_all rs) k \<Longrightarrow>
   \<exists>err rs' st'. start_all f rs st = Inr (err, rs', st') \<and> started_ok st k (named_all rs) err (held_all rs') st' \<and>
     list_all2 same_rules rs rs'"
proof (induction rs arbitrary: st k)
  case (Cons r rs)
  have "counts st (held r @ held_all rs) k" using Cons.prems(2) by simp
  note c = this counts_first [OF this]
  obtain err r' st1 where r: "f r st = Inr (err, r', st1)" "same_rules r r'"
      "started_ok st (\<lambda>tag. int (count_list (held_all rs) tag) + k tag) (named r) err (held r') st1"
    using Cons.prems(1) [of r] c(2) unfolding starts_def by force
  then have st1: "same_sets st st1" "err = None \<Longrightarrow> held r' = named r" by (simp_all add: started_ok_def)
  have c1: "counts st1 (held_all rs @ held r') k"
    using counts_rest [OF c(1) _ st1(1)] r(3) by (simp add: started_ok_def)
  show ?case
  proof (cases err)
    case (Some e)
    then show ?thesis using r c1 st1 by (auto simp: started_ok_def counts_swap [of st1 "held_all rs"] list.rel_refl)
  next
    case None
    obtain err' rs' st2 where rs: "start_all f rs st1 = Inr (err', rs', st2)" "list_all2 same_rules rs rs'"
        "started_ok st1 (\<lambda>tag. int (count_list (held r') tag) + k tag) (named_all rs) err' (held_all rs') st2"
      using Cons.IH [OF _ counts_first [OF c1]] Cons.prems(1) by force
    then have st2: "same_sets st1 st2" by (simp add: started_ok_def)
    have "counts st2 (held r' @ held_all rs') k" using counts_rest [OF c1 _ st2] rs(3) by (simp add: started_ok_def)
    moreover have "err' = None \<longrightarrow> held r' @ held_all rs' = named r @ named_all rs"
      using rs(3) st1(2) None by (simp add: started_ok_def)
    ultimately have "started_ok st k (named_all (r # rs)) err' (held_all (r' # rs')) st2"
      using same_sets_trans [OF st1(1) st2] by (simp add: started_ok_def)
    then show ?thesis using r rs None by auto
  qed
qed (auto simp: started_ok_def)

lemma close_all_counts:
  "(\<And>r. r \<in> set rs \<Longrightarrow> closes f r) \<Longrightarrow> counts st (held_all rs) k \<Longrightarrow>
   \<exists>rs' st'. close_all f rs st = Inr (rs', st') \<and> counts st' [] k \<and> same_sets st st' \<and> held_all rs' = []"
proof (induction rs arbitrary: st k)
  case (Cons r rs)
  have "counts st (held r @ held_all rs) k" using Cons.prems(2) by simp
  note c = this counts_first [OF this]
  obtain r' st1 where r: "f r st = Inr (r', st1)" "counts st1 [] (\<lambda>tag. int (count_list (held_all rs) tag) + k tag)"
      "same_sets st st1" "held r' = []"
    using Cons.prems(1) [of r] c(2) unfolding closes_def by force
  have "counts st1 (held_all rs) k" using counts_rest [OF c(1) r(2,3)] by simp
  from Cons.IH [OF Cons.prems(1) this] obtain rs' st2 where rs: "close_all f rs st1 = Inr (rs', st2)" "counts st2 [] k"
      "same_sets st1 st2" "held_all rs' = []" by auto
  then show ?case using r same_sets_trans [OF r(3) rs(3)] by auto
qed auto

lemma start_default_counts:
  assumes "listed r" "counts st (item_held r) k"
  shows "\<exists>err r' st'. start_items other (allItems r) r st = Inr (err, r', st') \<and>
    started_ok st k (item_named r) err (item_held r') st' \<and> same_rule r r'"
proof -
  obtain err r' st' where s: "start_items other (allItems r) r st = Inr (err, r', st')" "counts st' (item_held r') k"
    "same_sets st st'" "same_rule r r'"
    "err = None \<longrightarrow> item_held r' = (if RuleSetItemRef \<in> set (allItems r) then item_named r else item_held r)"
    using start_items_counts [OF assms(2), of "allItems r" other] assms(1) by (auto simp: listed_def)
  moreover have "item_held r = item_named r" if "RuleSetItemRef \<notin> set (allItems r)"
    using that assms(1) by (simp add: listed_def item_held_def item_named_def)
  ultimately show ?thesis by (auto simp: started_ok_def)
qed

lemma close_default_counts:
  assumes "listed r" "counts st (item_held r) k"
  shows "\<exists>r' st'. close_items (allItems r) r st = Inr (r', st') \<and> counts st' [] k \<and> same_sets st st' \<and> item_held r' = []"
proof -
  obtain r' st' where s: "close_items (allItems r) r st = Inr (r', st')" "counts st' (item_held r' @ []) k" "same_sets st st'"
    "item_held r' = (if RuleSetItemRef \<in> set (allItems r) then [] else item_held r)"
    using close_items_counts [of st r "[]" k "allItems r"] assms by (auto simp: listed_def)
  moreover have "item_held r = []" if "RuleSetItemRef \<notin> set (allItems r)"
    using that assms(1) by (simp add: listed_def item_held_def)
  ultimately show ?thesis by (auto split: if_splits)
qed

lemma starts_default:
  assumes "listed r" "defaults rule = [r]" "\<And>r'. defaults (wrap r') = [r']"
    "\<And>st. f rule st = res_bind (start_items other (allItems r) r st) (\<lambda>(e, r', st'). Inr (e, wrap r', st'))"
  shows "starts f rule"
  unfolding starts_def
proof (intro allI impI)
  fix st k assume "counts st (held rule) k"
  then have "counts st (item_held r) k" using assms(2) by simp
  from start_default_counts [OF assms(1) this, of other] obtain err r' st' where
    "start_items other (allItems r) r st = Inr (err, r', st')" "started_ok st k (item_named r) err (item_held r') st'" "same_rule r r'"
    by blast
  then show "\<exists>err rule' st'. f rule st = Inr (err, rule', st') \<and> started_ok st k (named rule) err (held rule') st' \<and> same_rules rule rule'"
    using assms(2-4) by (auto simp: same_rules_def)
qed

lemma held_nested: "concat (map item_held (concat (map defaults rs))) = held_all rs"
  by (induction rs) auto

lemma named_nested: "concat (map item_named (concat (map defaults rs))) = named_all rs"
  by (induction rs) auto

lemma same_rules_nested: "list_all2 same_rules rs rs' \<Longrightarrow> list_all2 same_rule (concat (map defaults rs)) (concat (map defaults rs'))"
  by (induction rule: list_all2_induct) (auto simp: same_rules_def list_all2_appendI)

lemma starts_logical:
  assumes "\<And>r. r \<in> set rs \<Longrightarrow> starts g r" "defaults rule = concat (map defaults rs)"
    "\<And>rs'. defaults (wrap rs') = concat (map defaults rs')"
    "\<And>st. f rule st = res_bind (start_all g rs st) (\<lambda>(e, rs', st'). Inr (e, wrap rs', st'))"
  shows "starts f rule"
  unfolding starts_def
proof (intro allI impI)
  fix st k assume "counts st (held rule) k"
  then have "counts st (held_all rs) k" unfolding assms(2) held_nested .
  from start_all_counts [OF assms(1) this] obtain err rs' st' where
    s: "start_all g rs st = Inr (err, rs', st')" "started_ok st k (named_all rs) err (held_all rs') st'" "list_all2 same_rules rs rs'"
    by blast
  then have "f rule st = Inr (err, wrap rs', st')" using assms(4) by simp
  moreover have "started_ok st k (named rule) err (held (wrap rs')) st'" unfolding assms(2,3) held_nested named_nested by (rule s(2))
  moreover have "same_rules rule (wrap rs')" unfolding same_rules_def assms(2,3) by (rule same_rules_nested [OF s(3)])
  ultimately show "\<exists>err rule' st'. f rule st = Inr (err, rule', st') \<and> started_ok st k (named rule) err (held rule') st' \<and> same_rules rule rule'"
    by blast
qed

lemma all_listed_nested: "all_listed rule \<Longrightarrow> defaults rule = concat (map defaults rs) \<Longrightarrow> r \<in> set rs \<Longrightarrow> all_listed r"
  by (auto simp: all_listed_def list_all_iff)

lemma all_listed_single: "all_listed rule \<Longrightarrow> defaults rule = [r] \<Longrightarrow> listed r"
  by (simp add: all_listed_def)

lemma rule_Start_counts: "all_listed rule \<Longrightarrow> starts (rule_Start other) rule"
proof (induction rule)
  case (LogicalHeadlessRule rs m i)
  show ?case
    by (rule starts_logical [where rs = rs and g = "rule_Start other" and wrap = "\<lambda>rs'. LogicalHeadlessRule rs' m i"])
      (use LogicalHeadlessRule all_listed_nested [OF LogicalHeadlessRule.prems] in auto)
next
  case (LogicalRule rs m i a)
  show ?case
    by (rule starts_logical [where rs = rs and g = "rule_Start other" and wrap = "\<lambda>rs'. LogicalRule rs' m i a"])
      (use LogicalRule all_listed_nested [OF LogicalRule.prems] in auto)
next
  case (LogicalDNSRule rs m i a tags anon race)
  show ?case
    by (rule starts_logical [where rs = rs and g = "rule_Start other" and wrap = "\<lambda>rs'. LogicalDNSRule rs' m i a tags anon race"])
      (use LogicalDNSRule all_listed_nested [OF LogicalDNSRule.prems] in auto)
next
  case (DefaultHeadlessRule r)
  show ?case
    by (rule starts_default [where r = r and wrap = DefaultHeadlessRule and other = other])
      (use all_listed_single [OF DefaultHeadlessRule] in auto)
next
  case (DefaultRule r)
  show ?case
    by (rule starts_default [where r = r and wrap = DefaultRule and other = other]) (use all_listed_single [OF DefaultRule] in auto)
next
  case (DefaultDNSRule r mr tag race)
  show ?case
    by (rule starts_default [where r = r and wrap = "\<lambda>r. DefaultDNSRule r mr tag race" and other = other])
      (use all_listed_single [OF DefaultDNSRule] in auto)
qed

lemma closes_default:
  assumes "listed r" "defaults rule = [r]" "\<And>r'. defaults (wrap r') = [r']"
    "\<And>st. f rule st = res_bind (close_items (allItems r) r st) (\<lambda>(r', st'). Inr (wrap r', st'))"
  shows "closes f rule"
  unfolding closes_def
proof (intro allI impI)
  fix st k assume "counts st (held rule) k"
  then have "counts st (item_held r) k" using assms(2) by simp
  from close_default_counts [OF assms(1) this] obtain r' st' where
    "close_items (allItems r) r st = Inr (r', st')" "counts st' [] k" "same_sets st st'" "item_held r' = []" by blast
  then show "\<exists>rule' st'. f rule st = Inr (rule', st') \<and> counts st' [] k \<and> same_sets st st' \<and> held rule' = []"
    using assms(3,4) by auto
qed

lemma closes_logical:
  assumes "\<And>r. r \<in> set rs \<Longrightarrow> closes g r" "defaults rule = concat (map defaults rs)"
    "\<And>rs'. defaults (wrap rs') = concat (map defaults rs')"
    "\<And>st. f rule st = res_bind (close_all g rs st) (\<lambda>(rs', st'). Inr (wrap rs', st'))"
  shows "closes f rule"
  unfolding closes_def
proof (intro allI impI)
  fix st k assume "counts st (held rule) k"
  then have "counts st (held_all rs) k" unfolding assms(2) held_nested .
  from close_all_counts [OF assms(1) this] obtain rs' st' where
    s: "close_all g rs st = Inr (rs', st')" "counts st' [] k" "same_sets st st'" "held_all rs' = []" by blast
  moreover have "held (wrap rs') = []" unfolding assms(3) held_nested by (rule s(4))
  ultimately show "\<exists>rule' st'. f rule st = Inr (rule', st') \<and> counts st' [] k \<and> same_sets st st' \<and> held rule' = []"
    using assms(4) by simp
qed

lemma rule_Close_counts: "all_listed rule \<Longrightarrow> closes rule_Close rule"
proof (induction rule)
  case (LogicalHeadlessRule rs m i)
  show ?case
    by (rule closes_logical [where rs = rs and g = rule_Close and wrap = "\<lambda>rs'. LogicalHeadlessRule rs' m i"])
      (use LogicalHeadlessRule all_listed_nested [OF LogicalHeadlessRule.prems] in auto)
next
  case (LogicalRule rs m i a)
  show ?case
    by (rule closes_logical [where rs = rs and g = rule_Close and wrap = "\<lambda>rs'. LogicalRule rs' m i a"])
      (use LogicalRule all_listed_nested [OF LogicalRule.prems] in auto)
next
  case (LogicalDNSRule rs m i a tags anon race)
  show ?case
    by (rule closes_logical [where rs = rs and g = rule_Close and wrap = "\<lambda>rs'. LogicalDNSRule rs' m i a tags anon race"])
      (use LogicalDNSRule all_listed_nested [OF LogicalDNSRule.prems] in auto)
next
  case (DefaultHeadlessRule r)
  show ?case
    by (rule closes_default [where r = r and wrap = DefaultHeadlessRule]) (use all_listed_single [OF DefaultHeadlessRule] in auto)
next
  case (DefaultRule r)
  show ?case by (rule closes_default [where r = r and wrap = DefaultRule]) (use all_listed_single [OF DefaultRule] in auto)
next
  case (DefaultDNSRule r mr tag race)
  show ?case
    by (rule closes_default [where r = r and wrap = "\<lambda>r. DefaultDNSRule r mr tag race"])
      (use all_listed_single [OF DefaultDNSRule] in auto)
qed

subsection \<open>The router's rules\<close>

lemma start_rules_start_all:
  "start_all (rule_Start other) rules st = Inr (err, rules', st') \<Longrightarrow>
   \<exists>err'. start_rules other i rules st = Inr (err', rules', st') \<and> (err' = None \<longleftrightarrow> err = None)"
proof (induction rules arbitrary: i st err rules' st')
  case (Cons rule rules)
  then obtain e r1 st1 where r: "rule_Start other rule st = Inr (e, r1, st1)"
    by (auto simp: res_bind_Inr_iff)
  show ?case
  proof (cases e)
    case (Some x)
    then show ?thesis using r Cons.prems by auto
  next
    case None
    then obtain rs1 where rs: "start_all (rule_Start other) rules st1 = Inr (err, rs1, st')" "rules' = r1 # rs1"
      using Cons.prems r by (auto simp: res_bind_Inr_iff)
    then show ?thesis using Cons.IH [OF rs(1), of "Suc i"] r None by auto
  qed
qed auto

lemma list_all2_all_listed: "list_all2 same_rules rs rs' \<Longrightarrow> list_all all_listed rs \<Longrightarrow> list_all all_listed rs'"
  by (induction rule: list_all2_induct) (auto dest: same_rules_listed)

lemma Router_PostStart_counts:
  assumes "list_all all_listed rules" "counts st (held_all rules) k"
  shows "\<exists>err rules' st'. Router_PostStart other rules st = Inr (err, rules', st') \<and>
    started_ok st k (named_all rules) err (held_all rules') st' \<and> list_all all_listed rules'"
proof -
  have "starts (rule_Start other) r" if "r \<in> set rules" for r
    using rule_Start_counts assms(1) that by (auto simp: list_all_iff)
  from start_all_counts [OF this assms(2)] obtain err rules' st' where
    s: "start_all (rule_Start other) rules st = Inr (err, rules', st')" "started_ok st k (named_all rules) err (held_all rules') st'"
      "list_all2 same_rules rules rules'" by blast
  from start_rules_start_all [OF s(1), of 0] obtain err' where
    "start_rules other 0 rules st = Inr (err', rules', st')" "err' = None \<longleftrightarrow> err = None" by blast
  then show ?thesis using s list_all2_all_listed [OF s(3) assms(1)] by (auto simp: Router_PostStart_def started_ok_def)
qed

lemma Router_Close_counts:
  assumes "list_all all_listed rules" "counts st (held_all rules) k"
  shows "\<exists>rules' st'. Router_Close rules st = Inr (rules', st') \<and> counts st' [] k \<and> held_all rules' = [] \<and> dom st' = dom st"
proof -
  have "closes rule_Close r" if "r \<in> set rules" for r
    using rule_Close_counts assms(1) that by (auto simp: list_all_iff)
  from close_all_counts [OF this assms(2)] obtain rules' st' where
    s: "close_all rule_Close rules st = Inr (rules', st')" "counts st' [] k" "same_sets st st'" "held_all rules' = []" by blast
  moreover have "counts (\<lambda>tag. map_option RuleSet_Close (st' tag)) [] k"
    using s(2) by (auto simp: counts_def RuleSet_Close_def)
  moreover have "dom (\<lambda>tag. map_option RuleSet_Close (st' tag)) = dom st"
    using same_sets_dom [OF s(3)] by (auto simp: dom_def)
  ultimately show ?thesis by (simp add: Router_Close_def)
qed

subsection \<open>Built rules hold no set yet\<close>

definition keeps_unstarted :: "build_step \<Rightarrow> bool" where
  "keeps_unstarted s \<longleftrightarrow> (\<forall>r r'. s r = Inr r' \<longrightarrow> item_held r = [] \<longrightarrow> item_held r' = [])"

lemma keeps_set_unstarted: "keeps_set s \<Longrightarrow> keeps_unstarted s"
  by (simp add: keeps_set_def keeps_unstarted_def item_held_def)

lemma rule_set_step_unstarted [simp]: "keeps_unstarted (rule_set_step tags d ms ae)"
  by (auto simp: keeps_unstarted_def rule_set_step_def set_ruleSetItem_def item_held_def NewRuleSetItem_def split: if_splits)

lemma run_steps_unstarted: "list_all keeps_unstarted ss \<Longrightarrow> run_steps ss r = Inr r' \<Longrightarrow> item_held r = [] \<Longrightarrow> item_held r' = []"
proof (induction ss arbitrary: r)
  case (Cons s ss)
  then obtain r1 where r1: "s r = Inr r1" "run_steps ss r1 = Inr r'" by (auto simp: res_bind_Inr_iff)
  have "item_held r1 = []" using Cons.prems(1,3) r1(1) by (simp add: keeps_unstarted_def)
  then show ?case using Cons.IH [OF _ r1(2)] Cons.prems(1) by simp
qed simp

lemma fail_steps_unstarted [simp]: "keeps_unstarted (step_fail c msg)" "keeps_unstarted (ipversion_step v)"
  by (auto simp: keeps_unstarted_def step_fail_def ipversion_step_def step_def step_result_def item_held_def adder_defs split: if_splits)

lemma route_steps_unstarted: "list_all keeps_unstarted (route_rule_steps env o')"
  by (simp add: route_rule_steps_def route_address_steps_def route_process_steps_def keeps_set_unstarted)

lemma wf_default_listed: "wf_default r \<Longrightarrow> listed r"
  by (auto simp: wf_default_def group_refs_def listed_def)

text \<open>The rules of the router as \<open>NewRule\<close> builds them.\<close>

lemma NewRule_unstarted: "NewRule env ae o' b = Inr rule \<Longrightarrow> all_listed rule \<and> held rule = []"
proof (induction env ae o' b arbitrary: rule rule: NewRule.induct)
  case (1 env ae type' default' action' mode rules inv' laction checkOutbound)
  show ?case
  proof (cases "type' = [] \<or> type' = ''default''")
    case True
    then obtain r where r: "NewDefaultRule env ae default' action' = Inr r" "rule = DefaultRule r"
      using 1(2) by (auto simp: res_bind_Inr_iff split: if_splits)
    then obtain act where "run_steps (route_rule_steps env default') (new_rule (o_Invert default') act) = Inr r"
      by (auto simp: NewDefaultRule_def res_bind_Inr_iff)
    then have "item_held r = []"
      using run_steps_unstarted [OF route_steps_unstarted] by (simp add: new_rule_def item_held_def)
    then show ?thesis using r wf_default_listed NewDefaultRule_wf [OF r(1)] by (simp add: all_listed_def)
  next
    case False
    then have l: "type' = ''logical''" using 1(2) by (auto split: if_splits)
    let ?f = "\<lambda>sub. res_bind (validateNoNestedRuleActions sub True) (\<lambda>_. NewRule env ae sub False)"
    obtain rs m act where v: "LogicalRule_IsValid rules = Inr True" "logical_mode mode = Inr m"
      "res_mapiM ''sub rule['' ?f 0 rules = Inr rs" "rule = LogicalRule rs m inv' act"
      "\<not> missing_outbound laction checkOutbound" "NewRuleAction ae laction = Inr act"
      using 1(2) False l by (auto simp: res_bind_Inr_iff split: if_splits)
    have "list_all (\<lambda>r. all_listed r \<and> held r = []) rs"
    proof (rule res_mapiM_all [OF v(3)])
      fix x y
      assume "x \<in> set rules" "?f x = Inr y"
      then show "all_listed y \<and> held y = []" using 1(1) False l v by (auto simp: res_bind_Inr_iff)
    qed
    then show ?thesis using v(4) by (auto simp: all_listed_def list_all_iff)
  qed
qed

end
