(* ===== verification/RemoteRuleSets.thy ===== *)
theory RemoteRuleSets
  imports RuleSets
begin

text \<open>
  Remote rule sets (\<open>route/rule/rule_set_remote.go\<close>), their updates (\<open>rule_set_updater.go\<close>), the form in which
  the cache file keeps a set (\<open>SavedBinary\<close> of \<open>adapter/experimental.go\<close>; \<open>LoadRuleSet\<close> and
  \<open>SaveRuleSet\<close> of \<open>experimental/cachefile/cache.go\<close>), and the initialisation of the router with
  both kinds of sets. \<open>rem_cacheFile\<close> is the entry of the set's tag in the cache file: there is no file
  (\<open>None\<close>), or the file has the given bytes (none when there is no entry).
\<close>

subsection \<open>Times and the saved form\<close>

abbreviation second :: int where
  "second \<equiv> 1000000000"

text \<open>The zero time is the first of January of the year 1.\<close>

definition time_IsZero :: "int \<Rightarrow> bool" where
  "time_IsZero t \<longleftrightarrow> t = - 62135596800 * second"

definition time_zero :: int where
  "time_zero = - 62135596800 * second"

record SavedBinary =
  sb_Content :: bytes
  sb_LastUpdated :: int
  sb_LastEtag :: string
  sb_URLHash :: bytes

definition SavedBinary_MarshalBinary :: "('m, 'a) srs_env \<Rightarrow> SavedBinary \<Rightarrow> bytes" where
  "SavedBinary_MarshalBinary env s =
     [2] @
     srs_WriteUvarint env (length (sb_Content s)) @ sb_Content s @
     be_bytes 8 (unat (word_of_int (sb_LastUpdated s div second) :: 64 word)) @
     srs_WriteUvarint env (length (sb_LastEtag s)) @ bytes_of (sb_LastEtag s) @
     srs_WriteUvarint env (length (sb_URLHash s)) @ sb_URLHash s"

text \<open>A length that must not exceed what is left, and as many bytes.\<close>

definition read_sized :: "string \<Rightarrow> bytes parser" where
  "read_sized what =
     p_bind binary_ReadUvarint (\<lambda>n s.
       if n > length (fst s) then Inl (ENew (''invalid '' @ what @ '' length: '' @ strconv_FormatUint n))
       else io_ReadFull n s)"

definition SavedBinary_UnmarshalBinary :: "bytes \<Rightarrow> SavedBinary result" where
  "SavedBinary_UnmarshalBinary bs =
     res_bind (
       p_bind (binary_Read_uint 1) (\<lambda>version.
       p_bind (read_sized ''content'') (\<lambda>content.
       p_bind (binary_Read_uint 8) (\<lambda>lastUpdated.
       p_bind (read_sized ''etag'') (\<lambda>etag.
         let s = \<lparr>sb_Content = content, sb_LastUpdated = sint (of_nat lastUpdated :: 64 word) * second,
                  sb_LastEtag = string_of etag, sb_URLHash = []\<rparr> in
         if version < 2 then p_return s
         else p_bind (read_sized ''url hash'') (\<lambda>urlHash. p_return (s\<lparr>sb_URLHash := urlHash\<rparr>))))))
       (bs, io_EOF)) (\<lambda>(s, _). Inr s)"

definition LoadRuleSet :: "bytes \<Rightarrow> SavedBinary option" where
  "LoadRuleSet entry =
     (if length entry = 0 then None
      else case SavedBinary_UnmarshalBinary entry of Inl _ \<Rightarrow> None | Inr s \<Rightarrow> Some s)"

subsection \<open>Remote sets\<close>

record RemoteRuleSet =
  rem_set :: RuleSetState
  rem_url :: string
  rem_urlHash :: bytes
  rem_initialPath :: string
  rem_updateInterval :: int
  rem_lastUpdated :: int
  rem_lastEtag :: string
  rem_cacheFile :: "bytes option"

definition NewRemoteRuleSet :: "('m, 'a) set_env \<Rightarrow> string \<Rightarrow> RuleSet_options \<Rightarrow> RemoteRuleSet" where
  "NewRemoteRuleSet env tag options =
     (let url = strings_ReplaceAll (rs_URL options) RuleSetTagPlaceholder tag in
      \<lparr>rem_set = new_set tag (rs_Format options), rem_url = url, rem_urlHash = st_Sum256 env (bytes_of url),
       rem_initialPath =
         (if rs_InitialPath options \<noteq> []
          then st_BasePath env (strings_ReplaceAll (rs_InitialPath options) RuleSetTagPlaceholder tag) else []),
       rem_updateInterval = (if rs_UpdateInterval options > 0 then rs_UpdateInterval options else 24 * 3600 * second),
       rem_lastUpdated = time_zero, rem_lastEtag = [], rem_cacheFile = None\<rparr>)"

text \<open>What the request of a fetch ends with; the body of a 200 reply can fail while it is read.\<close>

datatype http_reply =
    ReplyError error
  | ReplyOK "bytes result" string
  | ReplyNotModified
  | ReplyOther string

definition request_etag :: "RemoteRuleSet \<Rightarrow> string option" where
  "request_etag s = (if rem_lastEtag s \<noteq> [] then Some (rem_lastEtag s) else None)"

definition save_set :: "('m, 'a) set_env \<Rightarrow> bool \<Rightarrow> SavedBinary \<Rightarrow> RemoteRuleSet \<Rightarrow> RemoteRuleSet" where
  "save_set env writable saved s =
     (if writable then s\<lparr>rem_cacheFile := Some (SavedBinary_MarshalBinary (st_srs env) saved)\<rparr> else s)"

definition not_modified :: "('m, 'a) set_env \<Rightarrow> bool \<Rightarrow> int \<Rightarrow> RemoteRuleSet \<Rightarrow> RemoteRuleSet" where
  "not_modified env writable now s =
     (let s = s\<lparr>rem_lastUpdated := now\<rparr> in
      case rem_cacheFile s of
        None \<Rightarrow> s
      | Some entry \<Rightarrow>
          (case LoadRuleSet entry of
             None \<Rightarrow> s
           | Some saved \<Rightarrow> save_set env writable (saved\<lparr>sb_LastUpdated := rem_lastUpdated s, sb_URLHash := rem_urlHash s\<rparr>) s))"

text \<open>A fetch: the error it returns, the set after it and the callbacks it calls.\<close>

definition fetch ::
    "('m, 'a) set_env \<Rightarrow> bool \<Rightarrow> int \<Rightarrow> http_reply \<Rightarrow> RemoteRuleSet \<Rightarrow> error option \<times> RemoteRuleSet \<times> nat list" where
  "fetch env writable now reply s =
     (case reply of
        ReplyError e \<Rightarrow> (Some e, s, [])
      | ReplyOther status \<Rightarrow> (Some (ENew (''unexpected status: '' @ status)), s, [])
      | ReplyNotModified \<Rightarrow> (None, not_modified env writable now s, [])
      | ReplyOK (Inl e) _ \<Rightarrow> (Some e, s, [])
      | ReplyOK (Inr content) eTagHeader \<Rightarrow>
          (case loadBytes env content (rem_set s) of
             Inl e \<Rightarrow> (Some e, s, [])
           | Inr (set', calls) \<Rightarrow>
               let s = s\<lparr>rem_set := set', rem_lastEtag := (if eTagHeader \<noteq> [] then eTagHeader else rem_lastEtag s),
                         rem_lastUpdated := now\<rparr> in
               (None,
                (if rem_cacheFile s \<noteq> None
                 then save_set env writable \<lparr>sb_Content = content, sb_LastUpdated = rem_lastUpdated s,
                        sb_LastEtag = rem_lastEtag s, sb_URLHash = rem_urlHash s\<rparr> s
                 else s), calls)))"

text \<open>The saved set is restored unless it comes from another URL or does not load.\<close>

definition restore_saved :: "('m, 'a) set_env \<Rightarrow> RemoteRuleSet \<Rightarrow> RemoteRuleSet" where
  "restore_saved env s =
     (case rem_cacheFile s of
        None \<Rightarrow> s
      | Some entry \<Rightarrow>
          (case LoadRuleSet entry of
             None \<Rightarrow> s
           | Some saved \<Rightarrow>
               if length (sb_URLHash saved) > 0 \<and> sb_URLHash saved \<noteq> rem_urlHash s then s
               else
                 (case loadBytes env (sb_Content saved) (rem_set s) of
                    Inl _ \<Rightarrow> s
                  | Inr (set', _) \<Rightarrow>
                      s\<lparr>rem_set := set', rem_lastUpdated := sb_LastUpdated saved, rem_lastEtag := sb_LastEtag saved\<rparr>)))"

definition StartContext ::
    "('m, 'a) set_env \<Rightarrow> bytes option \<Rightarrow> unit result \<Rightarrow> bool \<Rightarrow> int \<Rightarrow> http_reply \<Rightarrow> RemoteRuleSet \<Rightarrow> error option \<times> RemoteRuleSet" where
  "StartContext env cacheFile transport writable now reply s =
     (let s = s\<lparr>rem_cacheFile := cacheFile\<rparr> in
      case transport of
        Inl e \<Rightarrow> (Some (ECause ''create rule-set http client'' e), s)
      | Inr _ \<Rightarrow>
          let s = restore_saved env s;
              (loadedFromInitialPath, s) =
                (if time_IsZero (rem_lastUpdated s) \<and> rem_initialPath s \<noteq> [] then
                   (case res_bind (st_ReadFile env (rem_initialPath s)) (\<lambda>content. loadBytes env content (rem_set s)) of
                      Inl _ \<Rightarrow> (False, s)
                    | Inr (set', _) \<Rightarrow> (True, s\<lparr>rem_set := set'\<rparr>))
                 else (False, s))
          in if time_IsZero (rem_lastUpdated s) \<and> \<not> loadedFromInitialPath then
               (case fetch env writable now reply s of
                  (err, s, _) \<Rightarrow> (map_option (ECause (''initial rule-set: '' @ rst_tag (rem_set s))) err, s))
             else (None, s))"

definition updateOnce :: "('m, 'a) set_env \<Rightarrow> bool \<Rightarrow> int \<Rightarrow> http_reply \<Rightarrow> RemoteRuleSet \<Rightarrow> RemoteRuleSet" where
  "updateOnce env writable now reply s =
     (case fetch env writable now reply s of
        (Some e, s, _) \<Rightarrow> s
      | (None, s, _) \<Rightarrow>
          if rst_refs (rem_set s) = 0 then s\<lparr>rem_set := (rem_set s)\<lparr>rst_rules := []\<rparr>\<rparr> else s)"

definition resolveTransport :: "bool \<Rightarrow> bool \<Rightarrow> string \<Rightarrow> (bool \<Rightarrow> string \<Rightarrow> 't result) \<Rightarrow> 't option \<Rightarrow> 't result" where
  "resolveTransport hasClient emptyClient downloadDetour resolve defaultTransport =
     (if hasClient \<and> \<not> emptyClient then
        if downloadDetour \<noteq> [] then Inl (ENew ''http_client is conflict with deprecated download_detour field'')
        else resolve True []
      else if downloadDetour \<noteq> [] then resolve False downloadDetour
      else case defaultTransport of
             None \<Rightarrow> Inl (ENew ''default http client transport is not initialized'')
           | Some transport \<Rightarrow> Inr transport)"

subsection \<open>The updater\<close>

text \<open>One round of the updater: each set with the time of its next update, and what its fetch would meet.\<close>

fun update_round ::
    "('m, 'a) set_env \<Rightarrow> int \<Rightarrow> (bool \<times> int \<times> http_reply) list \<Rightarrow> (RemoteRuleSet \<times> int) list \<Rightarrow> (RemoteRuleSet \<times> int) list" where
  "update_round env now ((writable, finished, reply) # replies) ((s, nextUpdate) # sets) =
     (if now < nextUpdate then (s, nextUpdate)
      else (updateOnce env writable finished reply s, now + rem_updateInterval s)) # update_round env now replies sets"
| "update_round env now _ sets = sets"

definition nextUpdates :: "RemoteRuleSet list \<Rightarrow> (RemoteRuleSet \<times> int) list" where
  "nextUpdates sets = map (\<lambda>s. (s, rem_lastUpdated s + rem_updateInterval s)) sets"

text \<open>The updater exists only when there is a remote set, so the list is not empty.\<close>

fun waitUntilNext :: "int \<Rightarrow> int list \<Rightarrow> int result" where
  "waitUntilNext now [] = Inl (EPanic ''index out of range'')"
| "waitUntilNext now (first # rest) =
     (let next = fold (\<lambda>nextUpdate next. if nextUpdate < next then nextUpdate else next) rest first in
      Inr (if next - now < 0 then 0 else next - now))"

text \<open>The updater sleeps until the earliest update, and after a round every set's next update is in the future.\<close>

lemma fold_least: "fold (\<lambda>x m. if x < m then x else m) xs (x::int) = Min (set (x # xs))"
proof (induction xs arbitrary: x)
  case (Cons y ys)
  have "Min (set ((if y < x then y else x) # ys)) = Min (set (x # y # ys))"
    by (cases "ys = []") (auto simp: min_def)
  then show ?case using Cons.IH by simp
qed simp

lemma waitUntilNext_least: "ts \<noteq> [] \<Longrightarrow> waitUntilNext now ts = Inr (max 0 (Min (set ts) - now))"
proof -
  assume "ts \<noteq> []"
  then obtain x xs where ts: "ts = x # xs" by (cases ts) auto
  have "waitUntilNext now ts = Inr (if Min (set ts) - now < 0 then 0 else Min (set ts) - now)"
    unfolding ts waitUntilNext.simps fold_least Let_def ..
  then show ?thesis by (simp add: max_def del: Min_less_iff Min_le_iff)
qed

lemma update_round_next:
  "length replies = length sets \<Longrightarrow> \<forall>(s, _) \<in> set sets. 0 < rem_updateInterval s \<Longrightarrow>
     \<forall>(s, nextUpdate) \<in> set (update_round env now replies sets). now < nextUpdate"
proof (induction env now replies sets rule: update_round.induct)
  case (1 env now canWrite finished reply replies s nextUpdate sets)
  then show ?case by auto
qed auto

subsection \<open>Sets of a router\<close>

datatype any_set = Local_set RuleSetState | Remote_set RemoteRuleSet

definition NewRuleSet :: "('m, 'a) set_env \<Rightarrow> string \<Rightarrow> RuleSet_options \<Rightarrow> any_set result" where
  "NewRuleSet env tag options =
     (if rs_Type options = ''inline'' \<or> rs_Type options = ''local'' \<or> rs_Type options = [] then
        res_bind (NewLocalRuleSet env tag options) (\<lambda>s. Inr (Local_set s))
      else if rs_Type options = ''remote'' then Inr (Remote_set (NewRemoteRuleSet env tag options))
      else Inl (ENew (''unknown rule-set type: '' @ rs_Type options)))"

fun remote_sets :: "any_set list \<Rightarrow> RemoteRuleSet list" where
  "remote_sets [] = []"
| "remote_sets (Local_set _ # sets) = remote_sets sets"
| "remote_sets (Remote_set s # sets) = s # remote_sets sets"

definition NewRuleSetUpdater :: "any_set list \<Rightarrow> RemoteRuleSet list option" where
  "NewRuleSetUpdater sets = (if length (remote_sets sets) = 0 then None else Some (remote_sets sets))"

fun init_tags :: "('m, 'a) set_env \<Rightarrow> nat \<Rightarrow> RuleSet_options \<Rightarrow> string list \<Rightarrow> (string \<times> any_set) list \<Rightarrow> (string \<times> any_set) list result" where
  "init_tags env i options [] sets = Inr sets"
| "init_tags env i options (tag # tags) sets =
     (if tag \<in> fst ` set sets then Inl (ENew (''duplicate rule-set tag: '' @ tag))
      else res_bind (res_cause (''parse rule-set['' @ strconv_FormatUint i @ '']'') (NewRuleSet env tag options)) (\<lambda>s.
        init_tags env i options tags (sets @ [(tag, s)])))"

fun init_sets :: "('m, 'a) set_env \<Rightarrow> nat \<Rightarrow> RuleSet_options list \<Rightarrow> (string \<times> any_set) list \<Rightarrow> (string \<times> any_set) list result" where
  "init_sets env i [] sets = Inr sets"
| "init_sets env i (options # rest) sets =
     res_bind (init_tags env i options (rs_Tag options) sets) (init_sets env (Suc i) rest)"

text \<open>The rules and, in order, the sets with their tags; the map by tag has the same entries.\<close>

definition Router_Initialize ::
    "('m, 'a) set_env \<Rightarrow> action_env \<Rightarrow> Rule_options list \<Rightarrow> RuleSet_options list \<Rightarrow> (Rule list \<times> (string \<times> any_set) list) result" where
  "Router_Initialize env ae rules ruleSets =
     res_bind (res_mapiM ''parse rule['' (\<lambda>options.
         res_bind (validateNoNestedRuleActions options False) (\<lambda>_. NewRule (srs_rules (st_srs env)) ae options False)) 0 rules) (\<lambda>rules'.
     res_bind (init_sets env 0 ruleSets []) (\<lambda>sets. Inr (rules', sets)))"

end
