(* ===== verification/RuleSetProperties.thy ===== *)
theory RuleSetProperties
  imports RuleSetLaws RemoteRuleSets SrsProperties RouterProperties
begin

text \<open>
  The properties of rule sets: references of rules on sets, updates of remote sets, and their
  restoration from the cache file.
\<close>

subsection \<open>References\<close>

text \<open>
  C11: the reference counts of the sets are exact. Starting the router's rules, built by \<open>NewRule\<close>, never
  panics; afterwards, also when it has failed half-way, every set's count has grown by exactly the
  number of times the rules hold the set, and nothing else of the sets has changed. When the start has
  succeeded, no set that a rule names is emptied by the clean-up of the next stage. Closing the rules
  never finds too few references and gives back exactly those that were taken.
\<close>

theorem rule_set_references:
  assumes built: "list_all2 (\<lambda>o' rule. NewRule env ae o' False = Inr rule) options rules"
    and refs: "\<And>tag s. st tag = Some s \<Longrightarrow> 0 \<le> rst_refs s"
  shows "\<exists>err rules' st'. Router_PostStart other rules st = Inr (err, rules', st') \<and>
    (\<forall>tag. st' tag =
       map_option (\<lambda>s. s\<lparr>rst_refs := rst_refs s + int (count_list (held_all rules') tag)\<rparr>) (st tag)) \<and>
    (err = None \<longrightarrow> (\<forall>tag \<in> set (named_all rules). tag \<in> dom st \<and>
       map_option rst_rules (Router_Started st' tag) = map_option rst_rules (st tag))) \<and>
    (\<exists>rules'' st''. Router_Close rules' st' = Inr (rules'', st'') \<and> held_all rules'' = [] \<and>
       (\<forall>tag. map_option rst_refs (st'' tag) = map_option rst_refs (st tag)))"
proof -
  let ?k = "\<lambda>tag. case st tag of None \<Rightarrow> 0 | Some s \<Rightarrow> rst_refs s"
  have "list_all (\<lambda>rule. all_listed rule \<and> held rule = []) rules"
    using built NewRule_unstarted by (induction rule: list_all2_induct) auto
  then have l: "list_all all_listed rules" and h: "held_all rules = []" by (auto simp: list_all_iff)
  have c: "counts st (held_all rules) ?k" unfolding h using refs by (auto simp: counts_def split: option.splits)
  obtain err rules' st' where s: "Router_PostStart other rules st = Inr (err, rules', st')" "list_all all_listed rules'"
      "started_ok st ?k (named_all rules) err (held_all rules') st'"
    using Router_PostStart_counts [OF l c, of other] by blast
  then have s': "counts st' (held_all rules') ?k" "same_sets st st'" "err = None \<Longrightarrow> held_all rules' = named_all rules"
    by (simp_all add: started_ok_def)
  have eq: "st' tag = map_option (\<lambda>s. s\<lparr>rst_refs := rst_refs s + int (count_list (held_all rules') tag)\<rparr>) (st tag)" for tag
    by (rule counted_store [OF s'(1,2)])
  have keep: "tag \<in> dom st \<and> map_option rst_rules (Router_Started st' tag) = map_option rst_rules (st tag)"
    if "err = None" "tag \<in> set (named_all rules)" for tag
  proof -
    have held: "tag \<in> set (held_all rules')" using that s'(3) by simp
    then have "tag \<in> dom st" using s'(1) same_sets_dom [OF s'(2)] unfolding counts_def by blast
    then obtain s where st: "st tag = Some s" by blast
    have "0 < count_list (held_all rules') tag" using held count_notin count_list_0_iff by (metis gr0I)
    then have "rst_refs s + int (count_list (held_all rules') tag) \<noteq> 0" using refs [OF st] by linarith
    then show ?thesis using eq [of tag] st by (simp add: Router_Started_def Cleanup_def domI)
  qed
  obtain rules'' st'' where close: "Router_Close rules' st' = Inr (rules'', st'')" "counts st'' [] ?k"
      "held_all rules'' = []" "dom st'' = dom st'"
    using Router_Close_counts [OF s(2) s'(1)] by blast
  have final: "map_option rst_refs (st'' tag) = map_option rst_refs (st tag)" for tag
    by (rule counts_nothing [OF close(2)]) (use close(4) same_sets_dom [OF s'(2)] in simp)
  show ?thesis
  proof (intro exI conjI)
    show "Router_PostStart other rules st = Inr (err, rules', st')" by (rule s(1))
    show "\<forall>tag. st' tag = map_option (\<lambda>s. s\<lparr>rst_refs := rst_refs s + int (count_list (held_all rules') tag)\<rparr>) (st tag)"
      using eq by blast
    show "err = None \<longrightarrow> (\<forall>tag \<in> set (named_all rules). tag \<in> dom st \<and>
        map_option rst_rules (Router_Started st' tag) = map_option rst_rules (st tag))" using keep by blast
    show "Router_Close rules' st' = Inr (rules'', st'')" "held_all rules'' = []" by (rule close)+
    show "\<forall>tag. map_option rst_refs (st'' tag) = map_option rst_refs (st tag)" using final by blast
  qed
qed

text \<open>A router with one rule that names a set, and a remote set in the source format.\<close>

definition set_rule_options :: Rule_options where
  "set_rule_options =
     Rule_options [] (raw_rule_zero\<lparr>o_RuleSet := [''set'']\<rparr>) (rule_action_zero\<lparr>ra_Action := ''hijack-dns''\<rparr>) [] [] False rule_action_zero"

definition set_rule :: Rule where
  "set_rule =
     DefaultRule ((new_rule False (Some RuleActionHijackDNS))\<lparr>ruleSetItem := Some (NewRuleSetItem [''set''] False False),
       allItems := [RuleSetItemRef]\<rparr>)"

lemma set_rule_built: "NewRule sample_env sample_action_env set_rule_options False = Inr set_rule"
proof -
  let ?o = "raw_rule_zero\<lparr>o_RuleSet := [''set'']\<rparr>"
  let ?init = "butlast (route_rule_steps sample_env ?o)"
  have "list_all (\<lambda>s. s r = Inr r) ?init" for r
    by (simp add: route_rule_steps_def route_address_steps_def route_process_steps_def step_def step_result_def step_fail_def
        ipversion_step_def raw_rule_zero_def map_nonempty_def butlast_append)
  moreover have "run_steps (xs @ ys) r = run_steps ys r" if "list_all (\<lambda>s. s r = Inr r) xs" for xs ys r
    using that by (induction xs) simp_all
  moreover have "route_rule_steps sample_env ?o = ?init @ [rule_set_step [''set''] False False False]"
    by (simp add: route_rule_steps_def route_process_steps_def butlast_append raw_rule_zero_def)
  ultimately have "run_steps (route_rule_steps sample_env ?o) r = rule_set_step [''set''] False False False r" for r
    by (cases "rule_set_step [''set''] False False False r") (metis run_steps.simps res_bind_simps)+
  moreover have "o_Invert raw_rule_zero = False" by (simp add: raw_rule_zero_def)
  ultimately show ?thesis
    by (simp add: set_rule_options_def set_rule_def NewDefaultRule_def NewRuleAction_def DefaultRule_IsValid_def
        missing_outbound_def rule_action_zero_def rule_set_step_def set_ruleSetItem_def new_rule_def)
qed

theorem rule_set_references_witness:
  "\<exists>err rules' st'. Router_PostStart (\<lambda>_. None) [set_rule] [''set'' \<mapsto> sample_set ''set'' []] = Inr (err, rules', st') \<and>
     (\<exists>rules'' st''. Router_Close rules' st' = Inr (rules'', st'') \<and> map_option rst_refs (st'' ''set'') = Some 0)"
proof -
  let ?st = "[''set'' \<mapsto> sample_set ''set'' []]"
  have "0 \<le> rst_refs s" if "?st tag = Some s" for tag s
    using that by (auto simp: sample_set_def split: if_splits)
  moreover have "list_all2 (\<lambda>o' rule. NewRule sample_env sample_action_env o' False = Inr rule) [set_rule_options] [set_rule]"
    using set_rule_built by simp
  ultimately obtain err rules' st' rules'' st'' where r: "Router_PostStart (\<lambda>_. None) [set_rule] ?st = Inr (err, rules', st')"
    "Router_Close rules' st' = Inr (rules'', st'')" "map_option rst_refs (st'' ''set'') = map_option rst_refs (?st ''set'')"
    using rule_set_references [of sample_env sample_action_env "[set_rule_options]" "[set_rule]" ?st "\<lambda>_. None"] by blast
  moreover have "map_option rst_refs (?st ''set'') = Some 0" by (simp add: sample_set_def)
  ultimately show ?thesis by auto
qed

subsection \<open>The saved form\<close>

lemma reads_sized:
  assumes "srs_env_ok env" "sized bs"
  shows "reads (read_sized what) (srs_WriteUvarint env (length bs) @ bs) bs"
proof -
  have "reads binary_ReadUvarint (srs_WriteUvarint env (length bs)) (length bs)" using assms by (rule sized_reads)
  then show ?thesis by (auto simp: reads_def read_sized_def p_bind_def io_ReadFull_def)
qed

lemma reads_sized_string:
  "srs_env_ok env \<Longrightarrow> sized s \<Longrightarrow> reads (read_sized what) (srs_WriteUvarint env (length s) @ bytes_of s) (bytes_of s)"
  using reads_sized [of env "bytes_of s" what] by (simp add: sized_def bytes_of_def)

text \<open>What is saved is read back, with the time cut to the second.\<close>

lemma saved_round_trip:
  assumes env: "srs_env_ok env" and "sized (sb_Content s)" "sized (sb_LastEtag s)" "sized (sb_URLHash s)"
    and time: "- (2 ^ 63) \<le> sb_LastUpdated s div second" "sb_LastUpdated s div second < 2 ^ 63"
  shows "SavedBinary_UnmarshalBinary (SavedBinary_MarshalBinary env s) =
    Inr (s\<lparr>sb_LastUpdated := sb_LastUpdated s div second * second\<rparr>)"
proof -
  let ?t = "word_of_int (sb_LastUpdated s div second) :: 64 word"
  have t: "sint (of_nat (unat ?t) :: 64 word) = sb_LastUpdated s div second"
    unfolding of_nat_unat ucast_id sint_sbintrunc'
    using time by (simp add: signed_take_bit_int_eq_self)
  have v: "reads (binary_Read_uint 1) [2] 2" using reads_Read_uint [of 2 1] by simp
  have u: "reads (binary_Read_uint 8) (be_bytes 8 (unat ?t)) (unat ?t)"
    by (rule reads_Read_uint) (use unsigned_less [of ?t, where 'a = nat] in simp)
  note sized = reads_sized [OF env assms(2)] reads_sized_string [OF env assms(3)] reads_sized [OF env assms(4)]
  show ?thesis
    unfolding SavedBinary_UnmarshalBinary_def SavedBinary_MarshalBinary_def
    using readsD [OF v] readsD [OF u] readsD [OF sized(1)] readsD [OF sized(2)] readsD [OF sized(3), of _ "[]"] t
    by (simp add: p_bind_def p_return_def Let_def)
qed

subsection \<open>Loading\<close>

text \<open>What a load gives depends on the tag and the format of the set only.\<close>

lemma reloadRules_Inr:
  "reloadRules env rules s = Inr (s', calls) \<Longrightarrow>
     calls = rst_callbacks s \<and> list_all wf_headless (rst_rules s') \<and>
     s' = s\<lparr>rst_rules := rst_rules s', rst_metadata := rst_metadata s'\<rparr> \<and>
     (\<forall>t. rst_tag t = rst_tag s \<longrightarrow> reloadRules env rules t =
        Inr (t\<lparr>rst_rules := rst_rules s', rst_metadata := rst_metadata s'\<rparr>, rst_callbacks t))"
  by (auto simp: reloadRules_def res_bind_Inr_iff Let_def elim!: res_mapiM_all dest: NewHeadlessRule_wf_lemma)

lemma loadBytes_Inr:
  assumes "loadBytes env content s = Inr (s', calls)"
  shows "list_all wf_headless (rst_rules s')"
    and "s' = s\<lparr>rst_rules := rst_rules s', rst_metadata := rst_metadata s'\<rparr>"
    and "rst_tag t = rst_tag s \<Longrightarrow> rst_fileFormat t = rst_fileFormat s \<Longrightarrow>
      loadBytes env content t = Inr (t\<lparr>rst_rules := rst_rules s', rst_metadata := rst_metadata s'\<rparr>, rst_callbacks t)"
proof -
  obtain ruleSet rules where r: "(if rst_fileFormat s = ''source'' then st_UnmarshalSource env content
        else if rst_fileFormat s = ''binary'' then srs_Read (st_srs env) False (content, io_EOF)
        else Inl (ENew (''unknown rule-set format: '' @ rst_fileFormat s))) = Inr ruleSet"
      "Upgrade ruleSet = Inr rules" "reloadRules env rules s = Inr (s', calls)"
    using assms unfolding loadBytes_def res_bind_Inr_iff by blast
  note reload = reloadRules_Inr [OF r(3)]
  show "list_all wf_headless (rst_rules s')" "s' = s\<lparr>rst_rules := rst_rules s', rst_metadata := rst_metadata s'\<rparr>"
    using reload by blast+
  show "loadBytes env content t = Inr (t\<lparr>rst_rules := rst_rules s', rst_metadata := rst_metadata s'\<rparr>, rst_callbacks t)"
    if "rst_tag t = rst_tag s" "rst_fileFormat t = rst_fileFormat s"
    unfolding loadBytes_def that(2) r(1) using r(2) reload that(1) by simp
qed

subsection \<open>Restarting\<close>

text \<open>
  C13: a remote set survives a restart. When a fetch has loaded a set and could write it to the cache file, a
  new set of the same tag, format and URL that is started with this cache file restores the same rules and
  metadata, the ETag and the time of the update (to the second), whatever the server would answer.
\<close>

theorem restart_restores:
  assumes env: "srs_env_ok (st_srs env)"
    and "fetch env True now (ReplyOK (Inr content) eTagHeader) s = (None, s', calls)" "rem_cacheFile s \<noteq> None"
    and "sized content" "sized (rem_lastEtag s')" "sized (rem_urlHash s)"
    and "- (2 ^ 63) \<le> now div second" "now div second < 2 ^ 63" "\<not> time_IsZero (now div second * second)"
    and "rst_tag (rem_set t) = rst_tag (rem_set s)" "rst_fileFormat (rem_set t) = rst_fileFormat (rem_set s)"
      "rem_urlHash t = rem_urlHash s"
  shows "StartContext env (rem_cacheFile s') (Inr ()) canWrite later reply t =
    (None, t\<lparr>rem_set := (rem_set t)\<lparr>rst_rules := rst_rules (rem_set s'), rst_metadata := rst_metadata (rem_set s')\<rparr>,
       rem_cacheFile := rem_cacheFile s', rem_lastEtag := rem_lastEtag s', rem_lastUpdated := now div second * second\<rparr>)"
proof -
  obtain set' calls' where load: "loadBytes env content (rem_set s) = Inr (set', calls')"
    using assms(2) by (auto simp: fetch_def split: sum.splits)
  let ?saved = "\<lparr>sb_Content = content, sb_LastUpdated = now, sb_LastEtag = rem_lastEtag s', sb_URLHash = rem_urlHash s\<rparr>"
  have s': "rem_set s' = set'" "rem_cacheFile s' = Some (SavedBinary_MarshalBinary (st_srs env) ?saved)"
    using assms(2,3) load by (auto simp: fetch_def Let_def save_set_def)
  have "SavedBinary_UnmarshalBinary (SavedBinary_MarshalBinary (st_srs env) ?saved) =
      Inr (?saved\<lparr>sb_LastUpdated := now div second * second\<rparr>)"
    using saved_round_trip [OF env, of ?saved] assms(4-8) by simp
  then have "LoadRuleSet (SavedBinary_MarshalBinary (st_srs env) ?saved) = Some (?saved\<lparr>sb_LastUpdated := now div second * second\<rparr>)"
    by (simp add: LoadRuleSet_def SavedBinary_MarshalBinary_def)
  moreover have "loadBytes env content (rem_set t) =
      Inr ((rem_set t)\<lparr>rst_rules := rst_rules set', rst_metadata := rst_metadata set'\<rparr>, rst_callbacks (rem_set t))"
    using loadBytes_Inr(3) [OF load assms(10,11)] .
  ultimately show ?thesis
    using s' assms(9,12) by (simp add: StartContext_def restore_saved_def Let_def)
qed

definition sample_set_env :: "(string list \<times> string list, string list) set_env" where
  "sample_set_env =
     \<lparr>st_srs = sample_srs, st_hasNetworkManager = False,
      st_UnmarshalSource = (\<lambda>content. if content = [1] then Inr (1, [domain_rule]) else Inl (ENew ''invalid character'')),
      st_ReadFile = (\<lambda>path. Inl (ENew ''no such file'')), st_BasePath = (\<lambda>path. path), st_NewWatcher = (\<lambda>_. Inr ()), st_Sum256 = (\<lambda>bs. [7]),
      st_Validator = None\<rparr>"

definition sample_remote :: RemoteRuleSet where
  "sample_remote =
     NewRemoteRuleSet sample_set_env ''geo''
       \<lparr>rs_Type = ''remote'', rs_Tag = [''geo''], rs_Format = ''source'', rs_Rules = [], rs_Path = [],
        rs_URL = ''https://example.org/{tag}.json'', rs_UpdateInterval = 0, rs_InitialPath = []\<rparr>"

lemma sample_remote_simps:
  "rst_tag (rem_set sample_remote) = ''geo''" "rst_fileFormat (rem_set sample_remote) = ''source''"
  "rem_urlHash sample_remote = [7]" "rem_lastEtag sample_remote = []" "rst_refs (rem_set sample_remote) = 0"
  "rst_rules (rem_set sample_remote) = []" "rem_url sample_remote = ''https://example.org/geo.json''"
  by (simp_all add: sample_remote_def NewRemoteRuleSet_def new_set_def sample_set_env_def Let_def strings_ReplaceAll_def)

lemma sample_loads: "\<exists>rules metadata. loadBytes sample_set_env [1] (rem_set sample_remote) =
    Inr ((rem_set sample_remote)\<lparr>rst_rules := rules, rst_metadata := metadata\<rparr>, rst_callbacks (rem_set sample_remote)) \<and> length rules = 1"
proof -
  have env: "srs_rules sample_srs = srs_rule_env" by (simp add: sample_srs_def)
  obtain rule where rule: "NewHeadlessRule srs_rule_env False domain_rule = Inr rule"
    by (simp add: domain_rule_def srs_rule_env_def sample_env_def NewDefaultHeadlessRule_def headless_rule_steps_def
        headless_zero_def DefaultHeadlessRule_IsValid_def step_def step_result_def domain_steps_def source_cidr_steps_def
        cidr_steps_def adguard_steps_def NewDomainItem_def NewIPCIDRItem_def parse_cidr_def Let_def)
  show ?thesis
    by (rule exI [of _ "[rule]"], rule exI [of _ "buildRuleSetMetadata [domain_rule]"])
      (simp add: loadBytes_def sample_remote_simps sample_set_env_def Upgrade_def reloadRules_def env rule
        validateRuleSetMetadataUpdate_def Let_def)
qed

theorem restart_restores_witness:
  "\<exists>s' calls. fetch sample_set_env True (5 * second) (ReplyOK (Inr [1]) ''v1'') (sample_remote\<lparr>rem_cacheFile := Some []\<rparr>) = (None, s', calls) \<and>
     length (rst_rules (rem_set s')) = 1 \<and>
     rst_rules (rem_set (snd (StartContext sample_set_env (rem_cacheFile s') (Inr ()) True 0 (ReplyOther ''404'') sample_remote))) =
       rst_rules (rem_set s')"
proof -
  let ?s = "sample_remote\<lparr>rem_cacheFile := Some []\<rparr>"
  obtain rules metadata where load: "loadBytes sample_set_env [1] (rem_set sample_remote) =
      Inr ((rem_set sample_remote)\<lparr>rst_rules := rules, rst_metadata := metadata\<rparr>, rst_callbacks (rem_set sample_remote))"
      "length rules = 1" using sample_loads by blast
  obtain s' calls where s': "fetch sample_set_env True (5 * second) (ReplyOK (Inr [1]) ''v1'') ?s = (None, s', calls)"
      "rem_lastEtag s' = ''v1''" "rst_rules (rem_set s') = rules"
    using load by (simp add: fetch_def Let_def save_set_def)
  have "srs_env_ok (st_srs sample_set_env)" using sample_srs_ok by (simp add: sample_set_env_def)
  from restart_restores [OF this s'(1), of sample_remote True 0 "ReplyOther ''404''"]
  have "StartContext sample_set_env (rem_cacheFile s') (Inr ()) True 0 (ReplyOther ''404'') sample_remote =
      (None, sample_remote\<lparr>rem_set := (rem_set sample_remote)\<lparr>rst_rules := rst_rules (rem_set s'), rst_metadata := rst_metadata (rem_set s')\<rparr>,
         rem_cacheFile := rem_cacheFile s', rem_lastEtag := rem_lastEtag s', rem_lastUpdated := 5 * second div second * second\<rparr>)"
    by (simp add: s'(2) sized_def sample_remote_simps time_IsZero_def)
  then show ?thesis using s' load(2) by simp
qed

subsection \<open>Updates\<close>

text \<open>The rules and the metadata that a reply brings to a set, if it does.\<close>

definition accepted :: "('m, 'a) set_env \<Rightarrow> RuleSetState \<Rightarrow> http_reply \<Rightarrow> (Rule list \<times> RuleSetMetadata) option" where
  "accepted env s reply =
     (case reply of
        ReplyOK (Inr content) _ \<Rightarrow>
          (case loadBytes env content s of Inr (s', _) \<Rightarrow> Some (rst_rules s', rst_metadata s') | Inl _ \<Rightarrow> None)
      | _ \<Rightarrow> None)"

fun run_updates :: "('m, 'a) set_env \<Rightarrow> (bool \<times> int \<times> http_reply) list \<Rightarrow> RemoteRuleSet \<Rightarrow> RemoteRuleSet" where
  "run_updates env [] s = s"
| "run_updates env ((canWrite, now, reply) # updates) s = run_updates env updates (updateOnce env canWrite now reply s)"

lemma save_set_set [simp]: "rem_set (save_set env w saved s) = rem_set s"
  by (simp add: save_set_def)

lemma not_modified_set [simp]: "rem_set (not_modified env w now s) = rem_set s"
  by (simp add: not_modified_def Let_def split: option.splits)

lemma updateOnce_set:
  assumes "rst_refs (rem_set s) \<noteq> 0"
  shows "rem_set (updateOnce env w now reply s) =
    (case accepted env (rem_set s) reply of
       None \<Rightarrow> rem_set s
     | Some (rules, metadata) \<Rightarrow> (rem_set s)\<lparr>rst_rules := rules, rst_metadata := metadata\<rparr>)"
proof (cases "\<exists>content e. reply = ReplyOK (Inr content) e")
  case True
  then obtain content e where reply: "reply = ReplyOK (Inr content) e" by blast
  show ?thesis
  proof (cases "loadBytes env content (rem_set s)")
    case (Inl e')
    then show ?thesis by (simp add: reply updateOnce_def fetch_def accepted_def)
  next
    case (Inr r)
    obtain set' calls where r: "r = (set', calls)" by (cases r)
    have "set' = (rem_set s)\<lparr>rst_rules := rst_rules set', rst_metadata := rst_metadata set'\<rparr>"
      using loadBytes_Inr(2) Inr r by blast
    moreover from this have "rst_refs set' = rst_refs (rem_set s)" by (metis RuleSetState.select_convs(6) RuleSetState.surjective RuleSetState.update_convs(2,3))
    ultimately show ?thesis using Inr r assms by (simp add: reply updateOnce_def fetch_def accepted_def Let_def)
  qed
next
  case False
  then show ?thesis using assms
    by (auto simp: updateOnce_def fetch_def accepted_def split: http_reply.splits sum.splits)
qed

lemma accepted_cong: "rst_tag t = rst_tag s \<Longrightarrow> rst_fileFormat t = rst_fileFormat s \<Longrightarrow> accepted env t reply = accepted env s reply"
proof -
  assume same: "rst_tag t = rst_tag s" "rst_fileFormat t = rst_fileFormat s"
  have "accepted env t (ReplyOK (Inr content) e) = accepted env s (ReplyOK (Inr content) e)" for content e
  proof (cases "loadBytes env content s")
    case (Inl err)
    have "loadBytes env content t \<noteq> Inr r" for r
      using loadBytes_Inr(3) [of env content t "fst r" "snd r" s] same Inl by auto
    then show ?thesis using Inl by (cases "loadBytes env content t") (auto simp: accepted_def)
  next
    case (Inr r)
    then show ?thesis using loadBytes_Inr(3) [of env content s "fst r" "snd r" t] same by (cases r) (simp add: accepted_def)
  qed
  then show ?thesis by (cases reply) (auto simp: accepted_def split: sum.splits)
qed

lemma accepted_wf: "accepted env s reply = Some (rules, metadata) \<Longrightarrow> list_all wf_headless rules"
  using loadBytes_Inr(1) by (auto simp: accepted_def split: http_reply.splits sum.splits)

text \<open>
  C12: a remote set that is in use serves, after any updates, the rules and the metadata of the last reply that
  could be loaded and passed the validation; refused, failed, unchanged and malformed replies leave what
  it served before, and what it serves stays well formed.
\<close>

theorem updates_serve_last_accepted:
  assumes "rst_refs (rem_set s) \<noteq> 0"
  shows "rem_set (run_updates env updates s) =
    fold (\<lambda>(_, _, reply) set'. case accepted env (rem_set s) reply of
        None \<Rightarrow> set'
      | Some (rules, metadata) \<Rightarrow> set'\<lparr>rst_rules := rules, rst_metadata := metadata\<rparr>) updates (rem_set s) \<and>
    (list_all wf_headless (rst_rules (rem_set s)) \<longrightarrow> list_all wf_headless (rst_rules (rem_set (run_updates env updates s))))"
proof -
  let ?serve = "\<lambda>(_, _, reply) set'. case accepted env (rem_set s) reply of
        None \<Rightarrow> set'
      | Some (rules, metadata) \<Rightarrow> set'\<lparr>rst_rules := rules, rst_metadata := metadata\<rparr>"
  have "rem_set (run_updates env updates t) = fold ?serve updates (rem_set t) \<and>
      (list_all wf_headless (rst_rules (rem_set t)) \<longrightarrow> list_all wf_headless (rst_rules (rem_set (run_updates env updates t))))"
    if "rst_refs (rem_set t) \<noteq> 0" "rst_tag (rem_set t) = rst_tag (rem_set s)" "rst_fileFormat (rem_set t) = rst_fileFormat (rem_set s)"
    for t :: RemoteRuleSet
    using that
  proof (induction env updates t rule: run_updates.induct)
    case (2 env canWrite now reply updates t)
    let ?t = "updateOnce env canWrite now reply t"
    have t: "rem_set ?t = (case accepted env (rem_set s) reply of
        None \<Rightarrow> rem_set t
      | Some (rules, metadata) \<Rightarrow> (rem_set t)\<lparr>rst_rules := rules, rst_metadata := metadata\<rparr>)"
      unfolding updateOnce_set [OF 2(2)] accepted_cong [OF 2(3,4)] ..
    then show ?case using 2 accepted_wf [of env "rem_set s" reply] by (cases "accepted env (rem_set s) reply") auto
  qed simp
  then show ?thesis using assms by blast
qed

theorem updates_serve_last_accepted_witness:
  "length (rst_rules (rem_set (run_updates sample_set_env
     [(True, 0, ReplyOK (Inr [1]) []), (True, 5, ReplyOK (Inr [2]) []), (True, 9, ReplyNotModified)]
     (sample_remote\<lparr>rem_set := (rem_set sample_remote)\<lparr>rst_refs := 1\<rparr>\<rparr>)))) = 1"
proof -
  let ?s = "(rem_set sample_remote)\<lparr>rst_refs := 1\<rparr>"
  obtain rules metadata where "loadBytes sample_set_env [1] (rem_set sample_remote) =
      Inr ((rem_set sample_remote)\<lparr>rst_rules := rules, rst_metadata := metadata\<rparr>, rst_callbacks (rem_set sample_remote))"
      "length rules = 1" using sample_loads by blast
  then have a: "accepted sample_set_env (rem_set sample_remote) (ReplyOK (Inr [1]) []) = Some (rules, metadata)" "length rules = 1"
    by (simp_all add: accepted_def)
  have b: "accepted sample_set_env ?s (ReplyOK (Inr [2]) []) = None" "accepted sample_set_env ?s ReplyNotModified = None"
    by (simp_all add: accepted_def loadBytes_def sample_remote_simps sample_set_env_def)
  have "accepted sample_set_env ?s (ReplyOK (Inr [1]) []) = Some (rules, metadata)"
    by (subst accepted_cong [of _ "rem_set sample_remote"]) (simp_all add: a(1))
  then show ?thesis
    using updates_serve_last_accepted [of "sample_remote\<lparr>rem_set := ?s\<rparr>" sample_set_env
        "[(True, 0, ReplyOK (Inr [1]) []), (True, 5, ReplyOK (Inr [2]) []), (True, 9, ReplyNotModified)]"] a(2) b by simp
qed

end
