(* ===== verification/Spec2Isabelle.thy ===== *)
theory Spec2Isabelle
  imports RuleProperties DNSRules RuleItemLaws BadVersion DNSTransportManager FakeIPTransport DNSClientLaws SrsProperties RouterProperties SnifferProperties RuleSetProperties
begin

text \<open>
  Verification of the sing-box core that \<open>sing-box-python\<close> embeds (\<open>src/singbox-go\<close>).

  The program is a proxy: an inbound accepts a connection and describes it in an
  \<open>adapter.InboundContext\<close>; the router runs the connection through a list of rules
  (\<open>route/rule\<close>) and the matching rule's action decides what happens to it; DNS queries go through
  DNS rules in the same way. Rules are built from parsed options (\<open>option\<close>), refer to rule sets, and
  are made of condition items.

  Theories.
  \<^item> \<open>Prelude\<close>: errors and results, Go maps used as sets, strings, decimal numbers.
  \<^item> \<open>Netip\<close>: addresses and prefixes of \<open>net/netip\<close>.
  \<^item> \<open>Metadata\<close>: \<open>InboundContext\<close>, DNS messages, the rule cache (\<open>adapter/inbound.go\<close>).
  \<^item> \<open>RuleItems\<close>, \<open>RuleItemOps\<close>: the condition items (\<open>route/rule/rule_item_*.go\<close> and the
    interface-address items), one constructor per struct, one definition per function.
  \<^item> \<open>RuleActions\<close>: rule actions and their options (\<open>route/rule/rule_action.go\<close>).
  \<^item> \<open>RuleMatch\<close>: the rule engine (\<open>match_state.go\<close>, \<open>rule_abstract.go\<close>,
    \<open>rule_item_rule_set.go\<close>, matching of rule sets and DNS rules).
  \<^item> \<open>RuleSemantics\<close>, \<open>RuleFormula\<close>: frames, three-valued verdicts, the documented formula.
  \<^item> \<open>RuleOptions\<close>, \<open>RuleBuild\<close>, \<open>DNSRules\<close>: options, constructors, DNS rules.
  \<^item> \<open>Samples\<close>, \<open>RuleProperties\<close>: sample rules, the properties of the rule engine.
\<close>

end
